(* ===== verification/Nsh_Prelude.thy ===== *)
theory Nsh_Prelude
  imports Main "HOL-Library.Word" "HOL-Library.Sublist"
begin

text \<open>
  Shared vocabulary of the development.

  A \<^verbatim>\<open>std::string\<close> is a HOL \<^typ>\<open>string\<close>: a list of bytes, because a HOL \<^typ>\<open>char\<close> ranges over
  exactly 256 values and the C++ code treats every string as a byte sequence.  This theory models
  the parts of the C++ standard library the sources call on strings (\<^verbatim>\<open>find\<close>, \<^verbatim>\<open>substr\<close>,
  \<^verbatim>\<open>std::to_string\<close>, the \<^verbatim>\<open><cctype>\<close> classifiers in the C locale, which is the only locale the
  program ever runs in, and \<^verbatim>\<open>printf\<close>'s octal and hexadecimal conversions), the lemmas that all
  components share, and the interface of a transition system with an inductive invariant.
\<close>

section \<open>Collections of rules\<close>

named_theorems find_simps \<open>evaluation of string searches on concatenations\<close>
named_theorems byte_simps \<open>classification of single bytes\<close>

section \<open>Bytes and characters\<close>

abbreviation byte :: "char \<Rightarrow> nat" where
  "byte c \<equiv> of_char c"

abbreviation (input) NUL :: char where "NUL \<equiv> CHR 0x00"
abbreviation (input) TAB :: char where "TAB \<equiv> CHR 0x09"
abbreviation (input) LF :: char where "LF \<equiv> CHR 0x0A"
abbreviation (input) CR :: char where "CR \<equiv> CHR 0x0D"
abbreviation (input) SP :: char where "SP \<equiv> CHR 0x20"
abbreviation (input) DQ :: char where "DQ \<equiv> CHR 0x22"
abbreviation (input) BSL :: char where "BSL \<equiv> CHR 0x5C"
abbreviation (input) DEL :: char where "DEL \<equiv> CHR 0x7F"
abbreviation (input) CRLF :: string where "CRLF \<equiv> [CR, LF]"

text \<open>\<^verbatim>\<open>std::isspace\<close>, \<^verbatim>\<open>std::isupper\<close>, \<^verbatim>\<open>std::tolower\<close> and the decimal digits, in the C locale.\<close>

definition isspace :: "char \<Rightarrow> bool" where
  "isspace c \<longleftrightarrow> byte c = 32 \<or> (9 \<le> byte c \<and> byte c \<le> 13)"

definition isupper :: "char \<Rightarrow> bool" where
  "isupper c \<longleftrightarrow> 65 \<le> byte c \<and> byte c \<le> 90"

definition isdigit :: "char \<Rightarrow> bool" where
  "isdigit c \<longleftrightarrow> 48 \<le> byte c \<and> byte c \<le> 57"

definition tolower :: "char \<Rightarrow> char" where
  "tolower c = (if isupper c then char_of (byte c + 32) else c)"

text \<open>A byte that terminates a line or hides in a terminal: a C0 control byte or DEL.\<close>

definition iscntrl :: "char \<Rightarrow> bool" where
  "iscntrl c \<longleftrightarrow> byte c < 32 \<or> byte c = 127"

lemma iscntrl_CR_LF [byte_simps]: "iscntrl CR" "iscntrl LF" "iscntrl NUL" "iscntrl TAB"
  by (simp_all add: iscntrl_def)

lemma char_of_eq_iff [simp]: "char_of (n::nat) = c \<longleftrightarrow> n mod 256 = byte c"
  by (metis char_of_char of_char_of of_char_eq_iff)

lemma eq_char_of_iff [simp]: "c = char_of (n::nat) \<longleftrightarrow> byte c = n mod 256"
  by (metis char_of_eq_iff)

lemma tolower_idem [simp]: "tolower (tolower c) = tolower c"
  by (simp add: tolower_def isupper_def)

lemma map_option_append_Nil [simp]: "map_option ((@) []) x = x"
  by (cases x) auto

section \<open>Searching and cutting strings\<close>

text \<open>
  \<^verbatim>\<open>s.find(c)\<close> and \<^verbatim>\<open>s.find(t)\<close>; \<^const>\<open>None\<close> stands for \<^verbatim>\<open>npos\<close>.  The variants with a start position
  return \<^const>\<open>None\<close> when the position is past the end, as the standard requires.
\<close>

fun find_char :: "char \<Rightarrow> string \<Rightarrow> nat option" where
  "find_char c [] = None"
| "find_char c (x # xs) = (if x = c then Some 0 else map_option Suc (find_char c xs))"

fun find_str :: "string \<Rightarrow> string \<Rightarrow> nat option" where
  "find_str n [] = (if n = [] then Some 0 else None)"
| "find_str n (x # xs) = (if prefix n (x # xs) then Some 0 else map_option Suc (find_str n xs))"

definition find_char_from :: "char \<Rightarrow> string \<Rightarrow> nat \<Rightarrow> nat option" where
  "find_char_from c s pos =
     (if pos \<le> length s then map_option (\<lambda>i. pos + i) (find_char c (drop pos s)) else None)"

definition find_str_from :: "string \<Rightarrow> string \<Rightarrow> nat \<Rightarrow> nat option" where
  "find_str_from n s pos =
     (if pos \<le> length s then map_option (\<lambda>i. pos + i) (find_str n (drop pos s)) else None)"

text \<open>
  \<^verbatim>\<open>s.substr(pos, len)\<close> and \<^verbatim>\<open>s.substr(pos)\<close>.  The C++ functions throw when \<^verbatim>\<open>pos > s.size()\<close>; every
  call in the sources passes 0, a result of \<^verbatim>\<open>find\<close>, or one past such a result, which
  \<open>find_char_Some_bound\<close> and \<open>find_str_Some_bound\<close> show to be within the string.
\<close>

definition substr :: "string \<Rightarrow> nat \<Rightarrow> nat \<Rightarrow> string" where
  "substr s pos len = take len (drop pos s)"

definition substr_from :: "string \<Rightarrow> nat \<Rightarrow> string" where
  "substr_from s pos = drop pos s"

text \<open>\<^verbatim>\<open>s.c_str()\<close> as a C function sees it: up to the first NUL byte.\<close>

definition c_str :: "string \<Rightarrow> string" where
  "c_str s = takeWhile (\<lambda>c. c \<noteq> NUL) s"

lemma c_str_id [simp]: "NUL \<notin> set s \<Longrightarrow> c_str s = s"
  unfolding c_str_def by (rule takeWhile_eq_all_conv [THEN iffD2]) auto

lemma c_str_length: "length (c_str s) \<le> length s"
  by (simp add: c_str_def length_takeWhile_le)

lemma substr_0 [simp]: "substr s 0 n = take n s"
  by (simp add: substr_def)

lemma find_char_None [simp]: "find_char c s = None \<longleftrightarrow> c \<notin> set s"
  by (induction s) auto

lemma find_char_notin [simp]: "c \<notin> set s \<Longrightarrow> find_char c s = None"
  by simp

lemma find_char_split:
  "find_char c s = Some i \<longleftrightarrow> (\<exists>xs ys. s = xs @ c # ys \<and> length xs = i \<and> c \<notin> set xs)"
proof (induction s arbitrary: i)
  case Nil
  then show ?case by simp
next
  case (Cons x s)
  show ?case
  proof (cases "x = c")
    case True
    then show ?thesis
      by (auto simp: append_eq_Cons_conv Cons_eq_append_conv)
  next
    case False
    then show ?thesis
      by (fastforce simp: Cons.IH Cons_eq_append_conv)
  qed
qed

lemma find_char_Some_bound: "find_char c s = Some i \<Longrightarrow> i < length s"
  by (auto simp: find_char_split)

lemma find_char_append [find_simps, simp]: "c \<notin> set xs \<Longrightarrow> find_char c (xs @ c # ys) = Some (length xs)"
  by (auto simp: find_char_split)

lemma find_char_takeWhile:
  "find_char c s = Some i \<Longrightarrow> take i s = takeWhile (\<lambda>x. x \<noteq> c) s"
  by (auto simp: find_char_split takeWhile_append)

lemma find_str_Some_split:
  "find_str n s = Some i \<Longrightarrow> \<exists>xs ys. s = xs @ n @ ys \<and> length xs = i"
proof (induction n s arbitrary: i rule: find_str.induct)
  case (1 n)
  then show ?case by (auto split: if_splits)
next
  case (2 n x xs)
  show ?case
  proof (cases "prefix n (x # xs)")
    case True
    with "2.prems" show ?thesis by (auto simp: prefix_def)
  next
    case False
    with "2.prems" obtain j where j: "find_str n xs = Some j" and i: "i = Suc j" by auto
    from "2.IH" [OF False j] obtain us vs where "xs = us @ n @ vs" "length us = j" by blast
    then have "x # xs = (x # us) @ n @ vs \<and> length (x # us) = i" by (simp add: i)
    then show ?thesis by blast
  qed
qed

lemma find_str_Some_bound: "find_str n s = Some i \<Longrightarrow> i + length n \<le> length s"
  by (auto dest!: find_str_Some_split)

lemma find_str_None: "find_str n s = None \<longleftrightarrow> (\<nexists>xs ys. s = xs @ n @ ys)"
proof (induction s)
  case Nil
  show ?case by auto
next
  case (Cons x s)
  have "(\<exists>xs ys. x # s = xs @ n @ ys) \<longleftrightarrow> prefix n (x # s) \<or> (\<exists>xs ys. s = xs @ n @ ys)"
    by (auto simp: prefix_def Cons_eq_append_conv)
  with Cons show ?case by auto
qed

lemma find_str_first: "s = xs @ n @ ys \<Longrightarrow> \<exists>i. find_str n s = Some i \<and> i \<le> length xs"
proof (induction xs arbitrary: s)
  case Nil
  then have "prefix n s" by simp
  then show ?case by (cases s) auto
next
  case (Cons x xs)
  from Cons.IH [OF refl] obtain i where "find_str n (xs @ n @ ys) = Some i" "i \<le> length xs" by blast
  with Cons.prems show ?case by auto
qed

text \<open>Bytes behind the first hit do not move it.\<close>

lemma find_str_mono: "find_str n s = Some i \<Longrightarrow> find_str n (s @ t) = Some i"
proof (induction n s arbitrary: i rule: find_str.induct)
  case (1 n)
  then show ?case by (cases t) (auto split: if_splits)
next
  case (2 n x xs)
  show ?case
  proof (cases "prefix n (x # xs)")
    case True
    then have "prefix n ((x # xs) @ t)" by (rule prefix_prefix)
    with True "2.prems" show ?thesis by simp
  next
    case False
    with "2.prems" obtain j where j: "find_str n xs = Some j" and i: "i = Suc j" by auto
    have "length n \<le> length xs" using find_str_Some_bound [OF j] by simp
    then have "\<not> prefix n (x # xs @ t)"
      using False prefix_length_prefix [of n "x # xs @ t" "x # xs"] by auto
    with "2.IH" [OF False j] i show ?thesis by simp
  qed
qed

text \<open>The first line break is found behind a prefix that holds no carriage return.\<close>

lemma find_str_crlf [find_simps]:
  "CR \<notin> set xs \<Longrightarrow> find_str CRLF (xs @ CR # LF # ys) = Some (length xs)"
  by (induction xs) (auto simp: prefix_def)

lemma find_str_crlf_hd: "find_str CRLF (CR # LF # ys) = Some 0"
  by (simp add: prefix_def)

lemma find_char_from_bound: "find_char_from c s pos = Some i \<Longrightarrow> pos \<le> i \<and> i < length s"
  by (auto simp: find_char_from_def dest!: find_char_Some_bound split: if_splits)

lemma find_str_from_bound: "find_str_from n s pos = Some i \<Longrightarrow> pos \<le> i \<and> i + length n \<le> length s"
  by (auto simp: find_str_from_def dest!: find_str_Some_bound split: if_splits)

lemma find_str_from_drop:
  "pos \<le> length s \<Longrightarrow> find_str_from n s pos = map_option (\<lambda>i. pos + i) (find_str n (drop pos s))"
  by (simp add: find_str_from_def)

section \<open>Narrowing\<close>

text \<open>\<^verbatim>\<open>static_cast<int>\<close> of a wider integer.\<close>

definition to_int32 :: "int \<Rightarrow> int" where
  "to_int32 x = sint (of_int x :: 32 word)"

lemma to_int32_id: "- (2 ^ 31) \<le> x \<Longrightarrow> x < 2 ^ 31 \<Longrightarrow> to_int32 x = x"
  by (simp add: to_int32_def sint_sbintrunc' signed_take_bit_int_eq_self)

section \<open>Decimal, octal and hexadecimal numerals\<close>

text \<open>\<^verbatim>\<open>std::to_string\<close> on unsigned integers, and \<^verbatim>\<open>printf\<close>'s \<^verbatim>\<open>%x\<close>, \<^verbatim>\<open>%o\<close> with zero padding.\<close>

definition digit_char :: "nat \<Rightarrow> char" where
  "digit_char d = char_of (if d < 10 then 48 + d else 87 + d)"

fun nat_base :: "nat \<Rightarrow> nat \<Rightarrow> string" where
  "nat_base b n = (if b < 2 \<or> n < b then [digit_char n] else nat_base b (n div b) @ [digit_char (n mod b)])"

declare nat_base.simps [simp del]

definition nat_to_string :: "nat \<Rightarrow> string" where
  "nat_to_string n = nat_base 10 n"

definition int_to_string :: "int \<Rightarrow> string" where
  "int_to_string i = (if i < 0 then CHR ''-'' # nat_to_string (nat (- i)) else nat_to_string (nat i))"

definition pad_zero :: "nat \<Rightarrow> string \<Rightarrow> string" where
  "pad_zero w s = replicate (w - length s) (CHR ''0'') @ s"

definition nat_of_digits :: "string \<Rightarrow> nat" where
  "nat_of_digits s = foldl (\<lambda>n c. 10 * n + (byte c - 48)) 0 s"

lemma byte_digit_char: "d < 10 \<Longrightarrow> byte (digit_char d) = 48 + d"
  by (simp add: digit_char_def)

lemma byte_hex_digit_char: "d < 16 \<Longrightarrow> byte (digit_char d) = (if d < 10 then 48 + d else 87 + d)"
  by (simp add: digit_char_def)

lemma char_eq_byte: "c = d \<longleftrightarrow> byte c = byte d"
  by simp

lemma digit_char_0 [simp]: "digit_char 0 = CHR ''0''"
  by (simp only: char_eq_byte) (simp add: byte_digit_char)

lemma digit_char_plain [byte_simps]:
  assumes "d < 16"
  shows "32 \<le> byte (digit_char d)" "digit_char d \<noteq> DQ" "digit_char d \<noteq> BSL" "\<not> iscntrl (digit_char d)"
  using assms by (simp_all only: char_eq_byte iscntrl_def) (simp_all add: byte_hex_digit_char)

lemma isdigit_digit_char: "d < 10 \<Longrightarrow> isdigit (digit_char d)"
  by (simp add: isdigit_def byte_digit_char)

lemma nat_to_string_rec:
  "nat_to_string n =
     (if n < 10 then [digit_char n] else nat_to_string (n div 10) @ [digit_char (n mod 10)])"
  unfolding nat_to_string_def by (subst nat_base.simps) simp

lemma nat_to_string_nonempty [simp]: "nat_to_string n \<noteq> []"
  by (subst nat_to_string_rec) simp

lemma nat_to_string_digits: "list_all isdigit (nat_to_string n)"
proof (induction n rule: less_induct)
  case (less n)
  show ?case
  proof (cases "n < 10")
    case True
    then show ?thesis by (subst nat_to_string_rec) (simp add: isdigit_digit_char)
  next
    case False
    then have "list_all isdigit (nat_to_string (n div 10))" by (intro less) simp
    with False show ?thesis by (subst nat_to_string_rec) (simp add: isdigit_digit_char)
  qed
qed

lemma nat_of_digits_snoc: "nat_of_digits (s @ [c]) = 10 * nat_of_digits s + (byte c - 48)"
  by (simp add: nat_of_digits_def)

lemma nat_of_digits_to_string [simp]: "nat_of_digits (nat_to_string n) = n"
proof (induction n rule: less_induct)
  case (less n)
  show ?case
  proof (cases "n < 10")
    case True
    then show ?thesis
      by (subst nat_to_string_rec) (simp add: nat_of_digits_def byte_digit_char)
  next
    case False
    then have "nat_of_digits (nat_to_string (n div 10)) = n div 10" by (intro less) simp
    with False show ?thesis
      by (subst nat_to_string_rec) (simp add: nat_of_digits_snoc byte_digit_char)
  qed
qed

lemma nat_to_string_inj: "nat_to_string m = nat_to_string n \<longleftrightarrow> m = n"
  by (metis nat_of_digits_to_string)

lemma isdigit_not_special [byte_simps]:
  "isdigit c \<Longrightarrow> c \<noteq> CR \<and> c \<noteq> LF \<and> c \<noteq> DQ \<and> c \<noteq> BSL \<and> c \<noteq> SP \<and> \<not> iscntrl c"
  by (auto simp: isdigit_def iscntrl_def)

lemma nat_to_string_no_cntrl: "c \<in> set (nat_to_string n) \<Longrightarrow> \<not> iscntrl c"
  using nat_to_string_digits [of n] by (auto simp: list_all_iff isdigit_def iscntrl_def)

text \<open>
  The value of a hexadecimal digit: the lambda \<^verbatim>\<open>hex_val\<close> of \<^verbatim>\<open>percent_decode\<close> in
  \<^verbatim>\<open>src/src/http.cpp\<close>, with \<^const>\<open>None\<close> for its result -1.
\<close>

definition hex_val :: "char \<Rightarrow> nat option" where
  "hex_val h =
     (if 48 \<le> byte h \<and> byte h \<le> 57 then Some (byte h - 48)
      else if 97 \<le> byte h \<and> byte h \<le> 102 then Some (byte h - 97 + 10)
      else if 65 \<le> byte h \<and> byte h \<le> 70 then Some (byte h - 65 + 10)
      else None)"

lemma hex_val_digit_char: "d < 16 \<Longrightarrow> hex_val (digit_char d) = Some d"
  by (auto simp: hex_val_def digit_char_def)

lemma hex_val_less: "hex_val h = Some v \<Longrightarrow> v < 16"
  by (auto simp: hex_val_def split: if_splits)

lemma nat_base_16_byte:
  "n < 256 \<Longrightarrow> pad_zero 2 (nat_base 16 n) = [digit_char (n div 16), digit_char (n mod 16)]"
  by (subst nat_base.simps, subst nat_base.simps) (auto simp: pad_zero_def)

section \<open>Lines\<close>

text \<open>The reference way to read a text back as its lines: cut at every separator byte.\<close>

fun split_on :: "char \<Rightarrow> string \<Rightarrow> string list" where
  "split_on c [] = [[]]"
| "split_on c (x # xs) =
     (if x = c then [] # split_on c xs
      else (case split_on c xs of [] \<Rightarrow> [[x]] | l # ls \<Rightarrow> (x # l) # ls))"

lemma split_on_nonempty [simp]: "split_on c s \<noteq> []"
  by (cases s) (auto split: list.splits)

lemma split_on_no_sep [simp]: "c \<notin> set s \<Longrightarrow> split_on c s = [s]"
  by (induction s) auto

lemma split_on_append [simp]: "c \<notin> set s \<Longrightarrow> split_on c (s @ c # t) = s # split_on c t"
  by (induction s) auto

lemma split_on_terminated_lines:
  "(\<forall>l \<in> set ls. c \<notin> set l) \<Longrightarrow> split_on c (concat (map (\<lambda>l. l @ [c]) ls)) = ls @ [[]]"
  by (induction ls) auto

fun join :: "char \<Rightarrow> string list \<Rightarrow> string" where
  "join c [] = []"
| "join c [s] = s"
| "join c (s # t # ts) = s @ c # join c (t # ts)"

lemma split_on_join: "ls \<noteq> [] \<Longrightarrow> \<forall>l \<in> set ls. c \<notin> set l \<Longrightarrow> split_on c (join c ls) = ls"
  by (induction c ls rule: join.induct) auto

lemma notin_join: "d \<noteq> c \<Longrightarrow> \<forall>l \<in> set ls. d \<notin> set l \<Longrightarrow> d \<notin> set (join c ls)"
  by (induction c ls rule: join.induct) auto

section \<open>Transition systems with an inductive invariant\<close>

text \<open>
  The interface of a state machine: initial states, a labelled step relation and a predicate that
  holds initially and is kept by every step.  The machines of the development (the worker pool, the
  database handles under reload) are interpretations of it.
\<close>

inductive ts_reach :: "('s \<Rightarrow> bool) \<Rightarrow> ('s \<Rightarrow> 's \<Rightarrow> bool) \<Rightarrow> 's \<Rightarrow> bool"
  for init step where
  ts_init: "init s \<Longrightarrow> ts_reach init step s"
| ts_step: "ts_reach init step s \<Longrightarrow> step s t \<Longrightarrow> ts_reach init step t"

locale invariant_system =
  fixes init :: "'s \<Rightarrow> bool"
    and step :: "'s \<Rightarrow> 's \<Rightarrow> bool"
    and inv :: "'s \<Rightarrow> bool"
  assumes inv_init: "init s \<Longrightarrow> inv s"
    and inv_step: "inv s \<Longrightarrow> step s t \<Longrightarrow> inv t"
begin

lemma reach_inv: "ts_reach init step s \<Longrightarrow> inv s"
  by (induction rule: ts_reach.induct) (auto intro: inv_init inv_step)

lemma steps_inv: "step\<^sup>*\<^sup>* s t \<Longrightarrow> inv s \<Longrightarrow> inv t"
  by (induction rule: rtranclp_induct) (auto intro: inv_step)

end

text \<open>
  A machine all of whose steps from states satisfying the invariant decrease a natural number
  reaches a state without successors in at most that many steps.
\<close>

locale terminating_system = invariant_system +
  fixes measure_of :: "'s \<Rightarrow> nat"
  assumes step_decreases: "inv s \<Longrightarrow> step s t \<Longrightarrow> measure_of t < measure_of s"
begin

lemma steps_bounded: "(step ^^ n) s t \<Longrightarrow> inv s \<Longrightarrow> n + measure_of t \<le> measure_of s \<and> inv t"
proof (induction n arbitrary: t)
  case 0
  then show ?case by simp
next
  case (Suc n)
  then obtain u where u: "(step ^^ n) s u" "step u t" by auto
  with Suc have "n + measure_of u \<le> measure_of s \<and> inv u" by blast
  with u(2) step_decreases [of u t] inv_step [of u t] show ?case by auto
qed

lemma reaches_final: "inv s \<Longrightarrow> \<exists>t. step\<^sup>*\<^sup>* s t \<and> (\<nexists>u. step t u)"
proof (induction "measure_of s" arbitrary: s rule: less_induct)
  case less
  show ?case
  proof (cases "\<exists>u. step s u")
    case True
    then obtain u where u: "step s u" by blast
    with less.prems have "\<exists>t. step\<^sup>*\<^sup>* u t \<and> (\<nexists>w. step t w)"
      by (intro less.hyps) (auto intro: step_decreases inv_step)
    with u show ?thesis by (meson converse_rtranclp_into_rtranclp)
  next
    case False
    then show ?thesis by blast
  qed
qed

end

end
