(* ===== verification/Text_Util.thy ===== *)
theory Text_Util
  imports Nsh_Prelude
begin

text \<open>
  \<^verbatim>\<open>src/src/text_util.cpp\<close>: the two sanitising functions through which every database value passes
  on its way into a JSON body, an INI body or an HTTP header.

  The theorems show that a JSON reader gets back exactly the bytes that were escaped, that the
  escaped text can neither close the surrounding literal nor contain a raw control byte, and that a
  sanitised value contains no byte that ends a line, loses nothing else, and is a fixed point.
\<close>

section \<open>json_escape\<close>

text \<open>\<^verbatim>\<open>snprintf(buf, 8, "\u%04x", c)\<close>.\<close>

definition unicode_escape :: "char \<Rightarrow> string" where
  "unicode_escape c = BSL # CHR ''u'' # pad_zero 4 (nat_base 16 (byte c))"

text \<open>The body of the loop, one case of the \<^verbatim>\<open>switch\<close> per branch.\<close>

definition json_escape_char :: "char \<Rightarrow> string" where
  "json_escape_char c =
     (if c = DQ then [BSL, DQ]
      else if c = BSL then [BSL, BSL]
      else if c = CHR 0x08 then [BSL, CHR ''b'']
      else if c = CHR 0x0C then [BSL, CHR ''f'']
      else if c = LF then [BSL, CHR ''n'']
      else if c = CR then [BSL, CHR ''r'']
      else if c = TAB then [BSL, CHR ''t'']
      else if byte c < 0x20 then unicode_escape c
      else [c])"

fun json_escape :: "string \<Rightarrow> string" where
  "json_escape [] = []"
| "json_escape (c # cs) = json_escape_char c @ json_escape cs"

section \<open>sanitize_header_value\<close>

fun sanitize_header_value :: "string \<Rightarrow> string" where
  "sanitize_header_value [] = []"
| "sanitize_header_value (c # cs) =
     (if c = CR \<or> c = LF \<or> byte c < 0x20 \<or> byte c = 0x7f then sanitize_header_value cs
      else c # sanitize_header_value cs)"

section \<open>The interface of an escaped literal\<close>

text \<open>
  What a reader of a quoted literal needs from the writer: the escape of one byte is read back as that
  byte, and the closing quote ends the literal.  From these two laws the whole literal reads back,
  whatever follows it, and escaping is injective.  \<open>escape\<close> is the writer's loop.
\<close>

locale escaped_literal =
  fixes escape_char :: "char \<Rightarrow> string"
    and escape :: "string \<Rightarrow> string"
    and read_literal :: "string \<Rightarrow> (string \<times> string) option"
    and quote :: char
  assumes escape_Nil: "escape [] = []"
    and escape_Cons: "escape (c # s) = escape_char c @ escape s"
    and read_quote: "read_literal (quote # rest) = Some ([], rest)"
    and read_escaped: "read_literal (escape_char c @ s) = map_option (apfst ((#) c)) (read_literal s)"
begin

lemma read_escape: "read_literal (escape s @ quote # rest) = Some (s, rest)"
  by (induction s) (simp_all add: escape_Nil escape_Cons read_quote read_escaped)

lemma escape_inj: "escape s = escape t \<Longrightarrow> s = t"
  by (metis read_escape option.inject prod.inject)

lemma escape_append: "escape (s @ t) = escape s @ escape t"
  by (induction s) (simp_all add: escape_Nil escape_Cons)

end

section \<open>A reader for JSON string literals\<close>

text \<open>
  The part of the JSON grammar (RFC 8259, section 7) that \<open>json_escape\<close> writes: the two-character
  escapes, the four-digit escapes of ASCII code points, and every raw byte except the control bytes,
  the quote and the backslash.  It rejects everything the grammar rejects.
\<close>

definition json_simple_escape :: "char \<Rightarrow> char option" where
  "json_simple_escape e =
     (if e = DQ \<or> e = BSL \<or> e = CHR ''/'' then Some e
      else if e = CHR ''b'' then Some (CHR 0x08)
      else if e = CHR ''f'' then Some (CHR 0x0C)
      else if e = CHR ''n'' then Some LF
      else if e = CHR ''r'' then Some CR
      else if e = CHR ''t'' then Some TAB
      else None)"

definition json_hex4 :: "char \<Rightarrow> char \<Rightarrow> char \<Rightarrow> char \<Rightarrow> char option" where
  "json_hex4 a b x y =
     (case (hex_val a, hex_val b, hex_val x, hex_val y) of
        (Some p, Some q, Some r, Some s) \<Rightarrow>
          let n = 4096 * p + 256 * q + 16 * r + s in if n < 128 then Some (char_of n) else None
      | _ \<Rightarrow> None)"

fun json_read_string :: "string \<Rightarrow> (string \<times> string) option" where
  "json_read_string [] = None"
| "json_read_string (c # cs) =
     (if c = DQ then Some ([], cs)
      else if c = BSL then
        (case cs of
           [] \<Rightarrow> None
         | e # r \<Rightarrow>
             if e = CHR ''u'' then
               (case r of
                  h1 # h2 # h3 # h4 # r' \<Rightarrow>
                    (case json_hex4 h1 h2 h3 h4 of
                       None \<Rightarrow> None
                     | Some d \<Rightarrow> map_option (apfst ((#) d)) (json_read_string r'))
                | _ \<Rightarrow> None)
             else
               (case json_simple_escape e of
                  None \<Rightarrow> None
                | Some d \<Rightarrow> map_option (apfst ((#) d)) (json_read_string r)))
      else if byte c < 0x20 then None
      else map_option (apfst ((#) c)) (json_read_string cs))"

section \<open>json_escape is read back\<close>

lemma unicode_escape_eq:
  "byte c < 32 \<Longrightarrow> unicode_escape c =
     [BSL, CHR ''u'', CHR ''0'', CHR ''0'', digit_char (byte c div 16), digit_char (byte c mod 16)]"
proof -
  assume c: "byte c < 32"
  have "pad_zero 4 s = [CHR ''0'', CHR ''0''] @ pad_zero 2 s" if "length s \<le> 2" for s
    using that by (cases s; cases "tl s") (auto simp: pad_zero_def numeral_eq_Suc)
  moreover have "length (nat_base 16 (byte c)) \<le> 2"
    using c by (subst nat_base.simps, subst nat_base.simps) auto
  ultimately show ?thesis
    using c by (simp add: unicode_escape_def nat_base_16_byte)
qed

text \<open>The escape always fits the eight-byte buffer with its terminator.\<close>

lemma unicode_escape_length: "byte c < 32 \<Longrightarrow> length (unicode_escape c) + 1 \<le> 8"
  by (simp add: unicode_escape_eq)

lemma json_hex4_control:
  "byte c < 32 \<Longrightarrow>
     json_hex4 (CHR ''0'') (CHR ''0'') (digit_char (byte c div 16)) (digit_char (byte c mod 16)) = Some c"
proof -
  assume c: "byte c < 32"
  have "hex_val (CHR ''0'') = Some 0" by (simp add: hex_val_def)
  moreover have "byte c div 16 * 16 + byte c mod 16 = byte c" by simp
  ultimately show ?thesis
    using c by (simp add: json_hex4_def hex_val_digit_char Let_def mult.commute)
qed

lemma json_read_escaped:
  "json_read_string (json_escape_char c @ s) = map_option (apfst ((#) c)) (json_read_string s)"
  by (auto simp: json_escape_char_def json_simple_escape_def unicode_escape_eq json_hex4_control)

interpretation json: escaped_literal json_escape_char json_escape json_read_string DQ
  by unfold_locales (simp_all add: json_read_escaped)

lemma json_escape_char_clean:
  "x \<in> set (json_escape_char c) \<Longrightarrow> 32 \<le> byte x"
  by (auto simp: json_escape_char_def unicode_escape_eq byte_simps split: if_splits)

lemma json_escape_clean: "x \<in> set (json_escape s) \<Longrightarrow> 32 \<le> byte x"
  by (induction s) (auto dest: json_escape_char_clean)

text \<open>
  A quote inside the escaped text always stands behind a backslash.
\<close>

fun quotes_escaped :: "string \<Rightarrow> bool" where
  "quotes_escaped [] = True"
| "quotes_escaped (c # cs) =
     (if c = BSL then (case cs of [] \<Rightarrow> False | _ # r \<Rightarrow> quotes_escaped r)
      else c \<noteq> DQ \<and> quotes_escaped cs)"

lemma quotes_escaped_char: "quotes_escaped (json_escape_char c @ s) = quotes_escaped s"
  by (auto simp: json_escape_char_def unicode_escape_eq byte_simps)

lemma quotes_escaped_json: "quotes_escaped (json_escape s)"
  by (induction s) (simp_all add: quotes_escaped_char)

lemma json_escape_char_plain: "32 \<le> byte c \<Longrightarrow> c \<noteq> DQ \<Longrightarrow> c \<noteq> BSL \<Longrightarrow> json_escape_char c = [c]"
  unfolding json_escape_char_def by auto

lemma json_escape_plain:
  "(\<And>c. c \<in> set s \<Longrightarrow> 32 \<le> byte c \<and> c \<noteq> DQ \<and> c \<noteq> BSL) \<Longrightarrow> json_escape s = s"
  by (induction s) (simp_all add: json_escape_char_plain)

section \<open>sanitize_header_value drops control bytes and nothing else\<close>

lemma sanitize_filter: "sanitize_header_value s = filter (\<lambda>c. \<not> iscntrl c) s"
  by (induction s) (auto simp: iscntrl_def)

lemma sanitize_clean: "c \<in> set (sanitize_header_value s) \<Longrightarrow> \<not> iscntrl c"
  by (simp add: sanitize_filter)

lemma sanitize_no_line_break [simp]:
  "CR \<notin> set (sanitize_header_value s)" "LF \<notin> set (sanitize_header_value s)"
  using sanitize_clean [of CR s] sanitize_clean [of LF s] by (auto simp: byte_simps)

lemma sanitize_id: "(\<forall>c \<in> set s. \<not> iscntrl c) \<Longrightarrow> sanitize_header_value s = s"
  by (simp add: sanitize_filter)

section \<open>Properties\<close>

text \<open>A JSON reader that has consumed the opening quote reads the escaped text followed by a
  closing quote as exactly the original bytes and leaves the rest of the body untouched, for every
  string and every continuation: no database value can end the literal early or change its
  neighbours.\<close>

theorem json_escape_roundtrip: "json_read_string (json_escape s @ DQ # rest) = Some (s, rest)"
  by (rule json.read_escape)

text \<open>The escaped text holds no byte below 0x20 and every quote in it stands behind a backslash, so
  it is the inside of one JSON string literal.\<close>

theorem json_escape_well_formed:
  "quotes_escaped (json_escape s) \<and> (\<forall>c \<in> set (json_escape s). 32 \<le> byte c)"
  using quotes_escaped_json json_escape_clean by blast

theorem json_escape_well_formed_witness:
  "CHR ''n'' \<in> set (json_escape [CHR ''a'', LF, DQ]) \<and> 32 \<le> byte (CHR ''n'')"
  using json_escape_well_formed [of "[CHR ''a'', LF, DQ]"] by (simp add: json_escape_char_def)

text \<open>A sanitised header value is the input with its control bytes (CR, LF and DEL among them)
  removed and every other byte kept in order; sanitising twice changes nothing.\<close>

theorem sanitize_header_value_exact:
  "sanitize_header_value s = filter (\<lambda>c. \<not> iscntrl c) s
   \<and> sanitize_header_value (sanitize_header_value s) = sanitize_header_value s
   \<and> CR \<notin> set (sanitize_header_value s) \<and> LF \<notin> set (sanitize_header_value s)"
  by (simp add: sanitize_filter iscntrl_def)

end
