(* ===== verification/Http_Request.thy ===== *)
theory Http_Request
  imports Text_Util
begin

text \<open>
  The request half of \<^verbatim>\<open>src/src/http.cpp\<close>: \<^verbatim>\<open>read_http_head\<close>, \<^verbatim>\<open>parse_http_request\<close> with
  its helpers, \<^verbatim>\<open>find_query_param\<close> and the two content-negotiation functions.

  The kernel calls of \<^verbatim>\<open>read_http_head\<close> (the clock, \<^verbatim>\<open>poll\<close>, \<^verbatim>\<open>recv\<close>) are the answers of an
  environment, one \<open>head_env\<close> per pass of the loop.  A run consumes a finite list of answers; the
  result \<^const>\<open>None\<close> says that the loop is still running when the list ends, and
  \<open>read_http_head_returns\<close> shows that it ends no later than the pass whose clock reading reaches the
  deadline.
\<close>

section \<open>percent_decode, trim_spaces, to_lower\<close>

unbundle bit_operations_syntax

text \<open>
  The loop over \<^verbatim>\<open>i\<close>, written on the bytes that remain: \<^verbatim>\<open>i + 2 >= in.size()\<close> holds exactly when
  fewer than two bytes follow the percent sign.
\<close>

fun percent_decode :: "string \<Rightarrow> string option" where
  "percent_decode [] = Some []"
| "percent_decode (c # cs) =
     (if c = CHR ''+'' then map_option ((#) SP) (percent_decode cs)
      else if c = CHR ''%'' then
        (case cs of
           h # l # rest \<Rightarrow>
             (case (hex_val h, hex_val l) of
                (Some hi, Some lo) \<Rightarrow>
                  let decoded = char_of ((push_bit 4 hi) OR lo) in
                  if decoded = NUL then None
                  else map_option ((#) decoded) (percent_decode rest)
              | _ \<Rightarrow> None)
         | _ \<Rightarrow> None)
      else if byte c < 0x20 \<or> byte c = 0x7f then None
      else map_option ((#) c) (percent_decode cs))"

text \<open>\<^verbatim>\<open>find_first_not_of\<close> and \<^verbatim>\<open>find_last_not_of\<close> with a single character.\<close>

fun find_first_not_of :: "char \<Rightarrow> string \<Rightarrow> nat option" where
  "find_first_not_of c [] = None"
| "find_first_not_of c (x # xs) =
     (if x \<noteq> c then Some 0 else map_option Suc (find_first_not_of c xs))"

definition find_last_not_of :: "char \<Rightarrow> string \<Rightarrow> nat option" where
  "find_last_not_of c s = map_option (\<lambda>i. length s - 1 - i) (find_first_not_of c (rev s))"

definition trim_spaces :: "string \<Rightarrow> string" where
  "trim_spaces s =
     (case find_first_not_of SP s of
        None \<Rightarrow> []
      | Some start \<Rightarrow>
          (case find_last_not_of SP s of
             None \<Rightarrow> []
           | Some end_pos \<Rightarrow> substr s start (end_pos - start + 1)))"

definition to_lower :: "string \<Rightarrow> string" where
  "to_lower s = map tolower s"

section \<open>read_http_head\<close>

datatype ReadResult = Ok | TooLarge | ConnectionClosed | Timeout | IoError

datatype poll_result = PollReady | PollTimedOut | PollEINTR | PollFailed
datatype recv_result = RecvData string | RecvEINTR | RecvFailed

text \<open>
  The answers of the environment in one pass: the steady clock in nanoseconds, the result of \<^verbatim>\<open>poll\<close>
  for the timeout it is given, and the result of \<^verbatim>\<open>recv\<close> (a zero-length read is \<open>RecvData []\<close>).
\<close>

record head_env =
  clock_now :: int
  poll_answer :: "int \<Rightarrow> poll_result"
  recv_answer :: recv_result

definition remaining_ms :: "int \<Rightarrow> int \<Rightarrow> int" where
  "remaining_ms deadline now = to_int32 ((deadline - now) div 1000000)"

abbreviation (input) blank_line :: string where
  "blank_line \<equiv> [CR, LF, CR, LF]"

fun read_head_loop :: "nat \<Rightarrow> int \<Rightarrow> string \<Rightarrow> head_env list \<Rightarrow> (ReadResult \<times> string) option" where
  "read_head_loop max_bytes deadline out [] = None"
| "read_head_loop max_bytes deadline out (e # es) =
     (if clock_now e \<ge> deadline then Some (Timeout, out)
      else
        (case poll_answer e (remaining_ms deadline (clock_now e)) of
           PollTimedOut \<Rightarrow> Some (Timeout, out)
         | PollEINTR \<Rightarrow> read_head_loop max_bytes deadline out es
         | PollFailed \<Rightarrow> Some (IoError, out)
         | PollReady \<Rightarrow>
             (case recv_answer e of
                RecvEINTR \<Rightarrow> read_head_loop max_bytes deadline out es
              | RecvFailed \<Rightarrow> Some (IoError, out)
              | RecvData buf \<Rightarrow>
                  if buf = [] then Some (ConnectionClosed, out)
                  else
                    let out = out @ buf in
                    if length out > max_bytes then Some (TooLarge, out)
                    else if find_str blank_line out \<noteq> None then Some (Ok, out)
                    else read_head_loop max_bytes deadline out es)))"

definition read_http_head ::
    "nat \<Rightarrow> int \<Rightarrow> int \<Rightarrow> head_env list \<Rightarrow> (ReadResult \<times> string) option" where
  "read_http_head max_bytes timeout_seconds start es =
     read_head_loop max_bytes (start + timeout_seconds * 1000000000) [] es"

section \<open>parse_http_request\<close>

record HttpRequest =
  req_method :: string
  req_path :: string
  req_query :: "(string \<times> string) list"
  req_accept :: string

text \<open>
  The header loop: every line up to the blank one, the last Accept value wins.  \<open>accept_of_line\<close> is
  the part of the loop body that looks at one line.
\<close>

definition accept_of_line :: "string \<Rightarrow> string \<Rightarrow> string" where
  "accept_of_line header_line acc =
     (case find_char (CHR '':'') header_line of
        None \<Rightarrow> acc
      | Some colon \<Rightarrow>
          if to_lower (trim_spaces (substr header_line 0 colon)) = ''accept''
          then trim_spaces (substr_from header_line (colon + 1))
          else acc)"

function scan_headers :: "string \<Rightarrow> nat \<Rightarrow> string \<Rightarrow> string" where
  "scan_headers raw header_pos acc =
     (if header_pos < length raw then
        (case find_str_from CRLF raw header_pos of
           None \<Rightarrow> acc
         | Some nxt \<Rightarrow>
             if nxt = header_pos then acc
             else
               let header_line = substr raw header_pos (nxt - header_pos)
               in scan_headers raw (nxt + 2) (accept_of_line header_line acc))
      else acc)"
  by pat_completeness auto
termination
  by (relation "measure (\<lambda>(raw, header_pos, acc). length raw - header_pos)")
    (auto dest: find_str_from_bound)

declare scan_headers.simps [simp del]

text \<open>The query loop.  A failed decode makes the whole request malformed.\<close>

definition parse_query_pair :: "string \<Rightarrow> (string \<times> string) option" where
  "parse_query_pair pair =
     (let (k_enc, v_enc) =
        (case find_char (CHR ''='') pair of
           None \<Rightarrow> (pair, [])
         | Some eq \<Rightarrow> (substr pair 0 eq, substr_from pair (eq + 1)))
      in case percent_decode k_enc of
           None \<Rightarrow> None
         | Some k \<Rightarrow> map_option (Pair k) (percent_decode v_enc))"

function parse_query ::
    "string \<Rightarrow> nat \<Rightarrow> (string \<times> string) list \<Rightarrow> (string \<times> string) list option" where
  "parse_query query_enc start acc =
     (if query_enc \<noteq> [] \<and> start \<le> length query_enc then
        (let amp = find_char_from (CHR ''&'') query_enc start;
             pair = (case amp of
                       None \<Rightarrow> substr_from query_enc start
                     | Some a \<Rightarrow> substr query_enc start (a - start));
             acc' = (if pair \<noteq> [] then map_option (\<lambda>kv. acc @ [kv]) (parse_query_pair pair)
                     else Some acc)
         in case acc' of
              None \<Rightarrow> None
            | Some acc'' \<Rightarrow>
                (case amp of
                   None \<Rightarrow> Some acc''
                 | Some a \<Rightarrow> parse_query query_enc (a + 1) acc''))
      else Some acc)"
  by pat_completeness auto
termination
  by (relation "measure (\<lambda>(q, start, acc). Suc (length q) - start)")
    (auto dest!: find_char_from_bound [OF sym])

declare parse_query.simps [simp del]

text \<open>
  The request line (cut at the first two spaces, version, method and target checked) and the target
  (cut at the first question mark, both halves decoded), each with its early returns.
\<close>

definition parse_request_line :: "string \<Rightarrow> (string \<times> string) option" where
  "parse_request_line line =
     (case find_char SP line of
        None \<Rightarrow> None
      | Some sp1 \<Rightarrow>
          (case find_char_from SP line (sp1 + 1) of
             None \<Rightarrow> None
           | Some sp2 \<Rightarrow>
               let method = substr line 0 sp1;
                   target = substr line (sp1 + 1) (sp2 - sp1 - 1);
                   version = substr_from line (sp2 + 1) in
               if version \<noteq> ''HTTP/1.1'' \<and> version \<noteq> ''HTTP/1.0'' then None
               else if method = [] \<or> target = [] \<or> hd target \<noteq> CHR ''/'' then None
               else if \<not> list_all isupper method then None
               else Some (method, target)))"

definition parse_target :: "string \<Rightarrow> (string \<times> (string \<times> string) list) option" where
  "parse_target target =
     (let qpos = find_char (CHR ''?'') target;
          path_enc = (case qpos of None \<Rightarrow> target | Some q \<Rightarrow> substr target 0 q);
          query_enc = (case qpos of None \<Rightarrow> [] | Some q \<Rightarrow> substr_from target (q + 1))
      in case percent_decode path_enc of
           None \<Rightarrow> None
         | Some path \<Rightarrow> map_option (Pair path) (parse_query query_enc 0 []))"

definition parse_http_request :: "string \<Rightarrow> HttpRequest option" where
  "parse_http_request raw =
     (case find_str CRLF raw of
        None \<Rightarrow> None
      | Some line_end \<Rightarrow>
          (case parse_request_line (substr raw 0 line_end) of
             None \<Rightarrow> None
           | Some (method, target) \<Rightarrow>
               let accept = scan_headers raw (line_end + 2) [] in
               (case parse_target target of
                  None \<Rightarrow> None
                | Some (path, query) \<Rightarrow>
                    Some \<lparr>req_method = method, req_path = path, req_query = query,
                          req_accept = accept\<rparr>)))"

section \<open>find_query_param and content negotiation\<close>

fun find_query_param_in :: "(string \<times> string) list \<Rightarrow> string \<Rightarrow> string option" where
  "find_query_param_in [] key = None"
| "find_query_param_in (kv # kvs) key =
     (if fst kv = key then Some (snd kv) else find_query_param_in kvs key)"

definition find_query_param :: "HttpRequest \<Rightarrow> string \<Rightarrow> string option" where
  "find_query_param req key = find_query_param_in (req_query req) key"

datatype ResponseFormat = Json | Text | Prometheus

definition negotiate_format :: "string \<Rightarrow> ResponseFormat" where
  "negotiate_format accept_header =
     (let lower = to_lower accept_header in
      if find_str ''application/json'' lower \<noteq> None then Json
      else if find_str ''text/plain'' lower \<noteq> None then Text
      else Json)"

definition accept_wants_json :: "string \<Rightarrow> bool" where
  "accept_wants_json accept_header \<longleftrightarrow> find_str ''application/json'' (to_lower accept_header) \<noteq> None"

section \<open>Percent decoding\<close>

lemma or_nibble: "lo < 16 \<Longrightarrow> ((push_bit 4 hi) OR lo) = 16 * hi + (lo::nat)"
proof -
  assume "lo < 16"
  then have lo: "take_bit 4 lo = lo" by (simp add: take_bit_eq_mod)
  have "push_bit 4 hi AND take_bit 4 lo = 0"
    by (rule bit_eqI) (auto simp: bit_simps)
  then have "(push_bit 4 hi) OR take_bit 4 lo = push_bit 4 hi + take_bit 4 lo"
    by (simp add: disjunctive_add_eq_or)
  then show ?thesis by (simp add: lo push_bit_eq_mult)
qed

lemma percent_decode_no_NUL: "percent_decode s = Some t \<Longrightarrow> NUL \<notin> set t"
proof (induction s arbitrary: t rule: percent_decode.induct)
  case 1
  then show ?case by simp
next
  case (2 c cs)
  consider "c = CHR ''+''" | "c = CHR ''%''" | "c \<noteq> CHR ''+''" "c \<noteq> CHR ''%''" by blast
  then show ?case
  proof cases
    case 1
    with "2.prems" "2.IH"(1) show ?thesis by auto
  next
    case 2
    with "2.prems" obtain h l rest hi lo where cs: "cs = h # l # rest"
      and hv: "hex_val h = Some hi" "hex_val l = Some lo"
      by (auto split: list.splits option.splits)
    with 2 "2.prems" obtain u where "percent_decode rest = Some u"
      and t: "t = char_of ((push_bit 4 hi) OR lo) # u" and "char_of ((push_bit 4 hi) OR lo) \<noteq> NUL"
      by (auto simp: Let_def split: if_splits)
    with "2.IH"(2) [OF _ 2 cs refl refl hv refl] 2 show ?thesis by auto
  next
    case 3
    with "2.prems" "2.IH"(3) show ?thesis by (auto split: if_splits)
  qed
qed

text \<open>
  A client's encoder for the reference round trips: unreserved bytes, the slash and the colon stand
  for themselves, everything else becomes a percent escape.
\<close>

definition url_safe :: "char \<Rightarrow> bool" where
  "url_safe c \<longleftrightarrow>
     isdigit c \<or> isupper c \<or> (97 \<le> byte c \<and> byte c \<le> 122) \<or> c \<in> set ''-._~/:''"

definition percent_encode_char :: "char \<Rightarrow> string" where
  "percent_encode_char c =
     (if url_safe c then [c]
      else [CHR ''%'', digit_char (byte c div 16), digit_char (byte c mod 16)])"

fun percent_encode :: "string \<Rightarrow> string" where
  "percent_encode [] = []"
| "percent_encode (c # cs) = percent_encode_char c @ percent_encode cs"

lemma url_safe_cases: "url_safe c \<Longrightarrow> c \<noteq> CHR ''+'' \<and> c \<noteq> CHR ''%'' \<and> \<not> (byte c < 32 \<or> byte c = 127)"
  by (auto simp: url_safe_def isdigit_def isupper_def)

lemma percent_decode_encode_char:
  assumes "c \<noteq> NUL"
  shows "percent_decode (percent_encode_char c @ s) = map_option ((#) c) (percent_decode s)"
proof (cases "url_safe c")
  case True
  then show ?thesis by (simp add: percent_encode_char_def url_safe_cases)
next
  case False
  have "byte c div 16 < 16" by (simp add: less_mult_imp_div_less)
  with False assms show ?thesis
    by (simp add: percent_encode_char_def hex_val_digit_char or_nibble Let_def)
qed

lemma percent_decode_encode: "NUL \<notin> set s \<Longrightarrow> percent_decode (percent_encode s) = Some s"
  by (induction s) (auto simp: percent_decode_encode_char)

lemma percent_encode_char_alphabet:
  "x \<in> set (percent_encode_char c) \<Longrightarrow> url_safe x \<or> x = CHR ''%''"
proof -
  have "url_safe (digit_char d)" if "d < 16" for d
    using that by (auto simp: url_safe_def isdigit_def byte_hex_digit_char)
  moreover have "byte c div 16 < 16" by (simp add: less_mult_imp_div_less)
  ultimately show "x \<in> set (percent_encode_char c) \<Longrightarrow> url_safe x \<or> x = CHR ''%''"
    by (auto simp: percent_encode_char_def split: if_splits)
qed

lemma percent_encode_alphabet: "x \<in> set (percent_encode s) \<Longrightarrow> url_safe x \<or> x = CHR ''%''"
  by (induction s) (auto dest: percent_encode_char_alphabet)

lemma percent_encode_delimiters:
  "set (percent_encode s) \<inter> {SP, CR, LF, CHR ''?'', CHR ''&'', CHR ''=''} = {}"
  by (auto dest!: percent_encode_alphabet simp: url_safe_def isdigit_def isupper_def)

section \<open>Trimming\<close>

lemma find_first_not_of_hd: "s \<noteq> [] \<Longrightarrow> hd s \<noteq> c \<Longrightarrow> find_first_not_of c s = Some 0"
  by (cases s) auto

lemma find_first_not_of_replicate:
  "s \<noteq> [] \<Longrightarrow> hd s \<noteq> c \<Longrightarrow> find_first_not_of c (replicate n c @ s) = Some n"
  by (induction n) (simp_all add: find_first_not_of_hd)

lemma find_first_not_of_all: "find_first_not_of c (replicate n c) = None"
  by (induction n) simp_all

text \<open>The code strips exactly the surrounding spaces.\<close>

lemma trim_spaces_padded:
  assumes "s \<noteq> []" "hd s \<noteq> SP" "last s \<noteq> SP"
  shows "trim_spaces (replicate m SP @ s @ replicate n SP) = s"
proof -
  let ?t = "replicate m SP @ s @ replicate n SP"
  have first: "find_first_not_of SP ?t = Some m"
    using assms by (subst find_first_not_of_replicate) (auto simp: hd_append)
  have "find_first_not_of SP (rev ?t) = Some n"
    using assms find_first_not_of_replicate [of "rev s @ replicate m SP" SP n]
    by (simp add: hd_rev hd_append)
  then have "find_last_not_of SP ?t = Some (m + length s - 1)"
    by (simp add: find_last_not_of_def)
  with first assms(1) show ?thesis
    by (cases s) (simp_all add: trim_spaces_def substr_def)
qed

lemma trim_spaces_blank: "trim_spaces (replicate n SP) = []"
  by (simp add: trim_spaces_def find_first_not_of_all)

definition trimmed :: "string \<Rightarrow> bool" where
  "trimmed s \<longleftrightarrow> s = [] \<or> (hd s \<noteq> SP \<and> last s \<noteq> SP)"

lemma trim_spaces_trimmed:
  assumes "trimmed s"
  shows "trim_spaces (replicate m SP @ s @ replicate n SP) = s"
proof (cases "s = []")
  case True
  then show ?thesis using trim_spaces_blank [of "m + n"] by (simp add: replicate_add)
next
  case False
  with assms show ?thesis by (intro trim_spaces_padded) (auto simp: trimmed_def)
qed

section \<open>The header loop does not look behind the blank line\<close>

text \<open>The loop on the bytes that remain, instead of a position.\<close>

function scan_tail :: "string \<Rightarrow> string \<Rightarrow> string" where
  "scan_tail s acc =
     (case find_str CRLF s of
        None \<Rightarrow> acc
      | Some n \<Rightarrow> if n = 0 then acc else scan_tail (drop (n + 2) s) (accept_of_line (take n s) acc))"
  by pat_completeness auto
termination
  by (relation "measure (\<lambda>(s, acc). length s)") (auto dest: find_str_Some_bound)

declare scan_tail.simps [simp del]

lemma scan_headers_tail:
  "pos \<le> length raw \<Longrightarrow> scan_headers raw pos acc = scan_tail (drop pos raw) acc"
proof (induction raw pos acc rule: scan_headers.induct)
  case (1 raw pos acc)
  show ?case
  proof (cases "find_str CRLF (drop pos raw)")
    case None
    then show ?thesis
      by (simp add: scan_headers.simps [of raw pos] scan_tail.simps [of "drop pos raw"]
          find_str_from_drop)
  next
    case (Some n)
    then have bound: "pos + n + 2 \<le> length raw" using "1.prems" find_str_Some_bound [OF Some] by auto
    have at: "find_str_from CRLF raw pos = Some (pos + n)"
      using "1.prems" Some by (simp add: find_str_from_drop)
    show ?thesis
    proof (cases "n = 0")
      case True
      with Some at show ?thesis
        by (simp add: scan_headers.simps [of raw pos] scan_tail.simps [of "drop pos raw"])
    next
      case False
      with "1.IH" [OF _ at _ refl] bound
      have "scan_headers raw (pos + n + 2) (accept_of_line (substr raw pos n) acc)
          = scan_tail (drop (pos + n + 2) raw) (accept_of_line (substr raw pos n) acc)"
        by simp
      with False Some at bound show ?thesis
        by (simp add: scan_headers.simps [of raw pos] scan_tail.simps [of "drop pos raw"] substr_def
            Let_def add.commute add.left_commute)
    qed
  qed
qed

definition has_blank :: "string \<Rightarrow> bool" where
  "has_blank s \<longleftrightarrow> prefix CRLF s \<or> find_str blank_line s \<noteq> None"

lemma has_blank_first_break:
  assumes "find_str blank_line s \<noteq> None"
  obtains n where "find_str CRLF s = Some n" "n + 2 \<le> length s" "has_blank (drop (n + 2) s)"
proof -
  from assms obtain xs ys where s: "s = xs @ blank_line @ ys" by (auto simp: find_str_None)
  then have "s = xs @ CRLF @ (CRLF @ ys)" by simp
  from find_str_first [OF this] obtain n where n: "find_str CRLF s = Some n" "n \<le> length xs" by blast
  from find_str_Some_split [OF n(1)] obtain us vs where us: "s = us @ CRLF @ vs" "length us = n" by blast
  have "n + 1 \<noteq> length xs"
  proof
    assume "n + 1 = length xs"
    then have "s ! (n + 1) = CR" by (simp add: s nth_append)
    moreover from us have "s ! (n + 1) = LF" by (simp add: nth_append)
    ultimately show False by simp
  qed
  then consider "n = length xs" | "n + 2 \<le> length xs" using n(2) by linarith
  then have "has_blank (drop (n + 2) s)"
  proof cases
    case 1
    then show ?thesis by (simp add: s has_blank_def)
  next
    case 2
    then have "drop (n + 2) s = drop (n + 2) xs @ blank_line @ ys" by (simp add: s)
    then show ?thesis unfolding has_blank_def using find_str_first by (metis option.discI)
  qed
  with n(1) that find_str_Some_bound [OF n(1)] show ?thesis by simp
qed

lemma scan_tail_extra: "has_blank s \<Longrightarrow> scan_tail (s @ t) acc = scan_tail s acc"
proof (induction s acc rule: scan_tail.induct)
  case (1 s acc)
  show ?case
  proof (cases "prefix CRLF s")
    case True
    then obtain r where "s = CR # LF # r" by (auto simp: prefix_def)
    then show ?thesis by (simp add: scan_tail.simps)
  next
    case False
    with "1.prems" have "find_str blank_line s \<noteq> None" by (simp add: has_blank_def)
    then obtain n where n: "find_str CRLF s = Some n" "n + 2 \<le> length s" "has_blank (drop (n + 2) s)"
      by (rule has_blank_first_break)
    have "n \<noteq> 0"
    proof
      assume "n = 0"
      with find_str_Some_split [OF n(1)] have "prefix CRLF s" by (auto simp: prefix_def)
      with False show False by simp
    qed
    with "1.IH" [OF n(1) _ n(3)] n show ?thesis
      by (simp add: scan_tail.simps [of s] scan_tail.simps [of "s @ t"] find_str_mono [OF n(1)])
  qed
qed

lemma parse_http_request_extra:
  assumes "find_str blank_line p \<noteq> None"
  shows "parse_http_request (p @ t) = parse_http_request p"
proof -
  from assms obtain n where n: "find_str CRLF p = Some n" "n + 2 \<le> length p" "has_blank (drop (n + 2) p)"
    by (rule has_blank_first_break)
  have "scan_headers (p @ t) (n + 2) [] = scan_headers p (n + 2) []"
    using n by (simp add: scan_headers_tail scan_tail_extra)
  with n show ?thesis
    by (simp add: parse_http_request_def find_str_mono [OF n(1)] cong: option.case_cong)
qed

section \<open>The query loop decodes the pieces between ampersands\<close>

fun decode_pairs :: "string list \<Rightarrow> (string \<times> string) list option" where
  "decode_pairs [] = Some []"
| "decode_pairs (p # ps) =
     (if p = [] then decode_pairs ps
      else (case parse_query_pair p of
              None \<Rightarrow> None
            | Some kv \<Rightarrow> map_option ((#) kv) (decode_pairs ps)))"

lemma parse_query_split:
  "start \<le> length q \<Longrightarrow> q \<noteq> [] \<Longrightarrow>
     parse_query q start acc = map_option ((@) acc) (decode_pairs (split_on (CHR ''&'') (drop start q)))"
proof (induction q start acc rule: parse_query.induct)
  case (1 q start acc)
  let ?rest = "drop start q"
  show ?case
  proof (cases "find_char (CHR ''&'') ?rest")
    case None
    with "1.prems" show ?thesis
      by (simp add: parse_query.simps [of q start acc] find_char_from_def substr_from_def Let_def
          option.map_comp comp_def split: option.split)
  next
    case (Some n)
    then obtain xs ys where cut: "?rest = xs @ CHR ''&'' # ys" "length xs = n" "CHR ''&'' \<notin> set xs"
      by (auto simp: find_char_split)
    have at: "find_char_from (CHR ''&'') q start = Some (start + n)"
      using "1.prems" Some by (simp add: find_char_from_def)
    have pair: "substr q start n = xs" using cut by (simp add: substr_def)
    have "drop (start + n + 1) q = drop (n + 1) ?rest" by (simp add: add.commute)
    then have ys: "drop (start + n + 1) q = ys" using cut by simp
    have le: "start + n + 1 \<le> length q" using find_char_from_bound [OF at] by simp
    have IH: "parse_query q (start + n + 1) acc'
        = map_option ((@) acc') (decode_pairs (split_on (CHR ''&'') ys))"
      if "(if xs \<noteq> [] then map_option (\<lambda>kv. acc @ [kv]) (parse_query_pair xs) else Some acc) = Some acc'"
      for acc'
      using "1.IH" [OF _ refl refl refl _ at, of acc'] "1.prems" that at pair le ys
      by (simp cong: if_cong)
    show ?thesis
      using "1.prems" at pair cut IH
      by (auto simp: parse_query.simps [of q start acc] Let_def option.map_comp comp_def
          split: option.split intro!: option.map_cong)
  qed
qed

lemma parse_query_all:
  "parse_query q 0 [] = (if q = [] then Some [] else decode_pairs (split_on (CHR ''&'') q))"
  by (simp add: parse_query_split [of 0 q "[]"] parse_query.simps [of "[]"])

section \<open>Rendering a request and parsing it back\<close>

definition render_pair :: "string \<times> string \<Rightarrow> string" where
  "render_pair kv = percent_encode (fst kv) @ CHR ''='' # percent_encode (snd kv)"

definition render_target :: "string \<Rightarrow> (string \<times> string) list \<Rightarrow> string" where
  "render_target path query =
     percent_encode path @
     (if query = [] then [] else CHR ''?'' # join (CHR ''&'') (map render_pair query))"

text \<open>
  A header line that is not an Accept header: it has no colon, or the name in front of the colon, without surrounding spaces, is not
  the word \<^verbatim>\<open>accept\<close> in any capitalisation (so \<^verbatim>\<open>Accept-Encoding\<close> is one of the others).
\<close>

definition header_name :: "string \<Rightarrow> string" where
  "header_name h = rev (dropWhile (\<lambda>c. c = SP) (rev (dropWhile (\<lambda>c. c = SP) (takeWhile (\<lambda>c. c \<noteq> CHR '':'') h))))"

definition other_header :: "string \<Rightarrow> bool" where
  "other_header h \<longleftrightarrow> h \<noteq> [] \<and> CR \<notin> set h
     \<and> (CHR '':'' \<notin> set h \<or> map tolower (header_name h) \<noteq> ''accept'')"

definition render_request :: "HttpRequest \<Rightarrow> string list \<Rightarrow> string" where
  "render_request req hdrs =
     req_method req @ SP # render_target (req_path req) (req_query req) @ SP # ''HTTP/1.1'' @ CRLF
     @ concat (map (\<lambda>h. h @ CRLF) hdrs)
     @ (if req_accept req = [] then [] else ''Accept: '' @ req_accept req @ CRLF) @ CRLF"

definition wf_request :: "HttpRequest \<Rightarrow> bool" where
  "wf_request req \<longleftrightarrow>
     req_method req \<noteq> [] \<and> list_all isupper (req_method req)
     \<and> req_path req \<noteq> [] \<and> hd (req_path req) = CHR ''/'' \<and> NUL \<notin> set (req_path req)
     \<and> (\<forall>kv \<in> set (req_query req). NUL \<notin> set (fst kv) \<and> NUL \<notin> set (snd kv))
     \<and> trimmed (req_accept req) \<and> CR \<notin> set (req_accept req)"

lemma percent_encode_no_delim:
  "SP \<notin> set (percent_encode s)" "CR \<notin> set (percent_encode s)" "CHR ''?'' \<notin> set (percent_encode s)"
  "CHR ''&'' \<notin> set (percent_encode s)" "CHR ''='' \<notin> set (percent_encode s)"
  using percent_encode_delimiters [of s] by auto

lemma parse_query_pair_render:
  "NUL \<notin> set k \<Longrightarrow> NUL \<notin> set v \<Longrightarrow> parse_query_pair (render_pair (k, v)) = Some (k, v)"
  by (simp add: parse_query_pair_def render_pair_def percent_encode_no_delim substr_from_def
      percent_decode_encode)

lemma render_pair_no_delim:
  "render_pair kv \<noteq> []" "SP \<notin> set (render_pair kv)" "CR \<notin> set (render_pair kv)"
  "CHR ''&'' \<notin> set (render_pair kv)"
  by (auto simp: render_pair_def percent_encode_no_delim)

lemma decode_pairs_render:
  "\<forall>kv \<in> set q. NUL \<notin> set (fst kv) \<and> NUL \<notin> set (snd kv) \<Longrightarrow> decode_pairs (map render_pair q) = Some q"
  by (induction q) (auto simp: render_pair_no_delim parse_query_pair_render)

lemma parse_target_render:
  assumes "NUL \<notin> set p" "\<forall>kv \<in> set q. NUL \<notin> set (fst kv) \<and> NUL \<notin> set (snd kv)"
  shows "parse_target (render_target p q) = Some (p, q)"
proof (cases q)
  case Nil
  then show ?thesis
    using assms by (simp add: parse_target_def render_target_def percent_encode_no_delim
        percent_decode_encode parse_query_all Let_def)
next
  case (Cons kv kvs)
  let ?enc = "join (CHR ''&'') (map render_pair q)"
  have "?enc \<noteq> []" using Cons by (cases kvs) (auto simp: render_pair_no_delim)
  moreover have "split_on (CHR ''&'') ?enc = map render_pair q"
    using Cons by (intro split_on_join) (auto simp: render_pair_no_delim)
  ultimately have "parse_query ?enc 0 [] = Some q"
    using assms by (simp add: parse_query_all decode_pairs_render)
  with assms Cons show ?thesis
    by (simp add: parse_target_def render_target_def percent_encode_no_delim substr_from_def
        percent_decode_encode Let_def)
qed

lemma render_target_no_delim:
  "SP \<notin> set (render_target p q)" "CR \<notin> set (render_target p q)"
proof -
  have "SP \<notin> set (join (CHR ''&'') (map render_pair q))" "CR \<notin> set (join (CHR ''&'') (map render_pair q))"
    by (rule notin_join; simp add: render_pair_no_delim)+
  then show "SP \<notin> set (render_target p q)" "CR \<notin> set (render_target p q)"
    by (simp_all add: render_target_def percent_encode_no_delim)
qed

lemma render_target_slash:
  assumes "p \<noteq> []" "hd p = CHR ''/''"
  shows "render_target p q \<noteq> []" "hd (render_target p q) = CHR ''/''"
  using assms by (cases p; simp add: render_target_def percent_encode_char_def url_safe_def)+

lemma isupper_no_delim: "list_all isupper m \<Longrightarrow> SP \<notin> set m \<and> CR \<notin> set m"
  by (auto simp: list_all_iff isupper_def)

lemma parse_request_line_render:
  assumes "m \<noteq> []" "list_all isupper m" "SP \<notin> set t" "t \<noteq> []" "hd t = CHR ''/''"
  shows "parse_request_line (m @ SP # t @ SP # ''HTTP/1.1'') = Some (m, t)"
proof -
  let ?line = "m @ SP # t @ SP # ''HTTP/1.1''"
  have sp1: "find_char SP ?line = Some (length m)"
    using isupper_no_delim [OF assms(2)] by simp
  have "find_char SP (t @ SP # ''HTTP/1.1'') = Some (length t)" using assms(3) by simp
  then have sp2: "find_char_from SP ?line (length m + 1) = Some (length m + 1 + length t)"
    by (simp add: find_char_from_def)
  from sp1 sp2 assms show ?thesis
    by (simp add: parse_request_line_def substr_def substr_from_def Let_def)
qed

lemma strip_front: "\<exists>m t. s = replicate m c @ t \<and> (t = [] \<or> hd t \<noteq> c)"
proof (induction s)
  case Nil
  show ?case by simp
next
  case (Cons x s)
  then obtain m t where "s = replicate m c @ t" "t = [] \<or> hd t \<noteq> c" by blast
  then have "x # s = replicate (if x = c then Suc m else 0) c @ (if x = c then t else x # s)
    \<and> ((if x = c then t else x # s) = [] \<or> hd (if x = c then t else x # s) \<noteq> c)"
    by auto
  then show ?case by blast
qed

lemma trim_decomposition: "\<exists>m n core. s = replicate m SP @ core @ replicate n SP \<and> trimmed core"
proof -
  from strip_front [of s SP] obtain m t
    where s: "s = replicate m SP @ t" and t: "t = [] \<or> hd t \<noteq> SP"
    by (elim exE conjE)
  from strip_front [of "rev t" SP] obtain n u
    where u: "rev t = replicate n SP @ u" "u = [] \<or> hd u \<noteq> SP"
    by (elim exE conjE)
  from u(1) have "t = rev u @ replicate n SP" by (metis rev_append rev_replicate rev_rev_ident)
  moreover from this t u(2) have "trimmed (rev u)"
    by (cases "u = []") (auto simp: trimmed_def last_rev)
  ultimately show ?thesis using s by blast
qed

lemma dropWhile_spaces:
  assumes "t = [] \<or> hd t \<noteq> c"
  shows "dropWhile (\<lambda>x. x = c) (replicate m c @ t) = t"
  using assms by (induction m) (cases t; simp)+

lemma trim_spaces_strip: "trim_spaces s = rev (dropWhile (\<lambda>c. c = SP) (rev (dropWhile (\<lambda>c. c = SP) s)))"
proof -
  obtain m n core where s: "s = replicate m SP @ core @ replicate n SP" "trimmed core" using trim_decomposition by blast
  show ?thesis
  proof (cases "core = []")
    case True
    then have "s = replicate (m + n) SP" using s(1) by (simp add: replicate_add)
    then have "dropWhile (\<lambda>c. c = SP) s = []" by simp
    then show ?thesis using trim_spaces_trimmed [OF s(2), of m n] True unfolding s(1) [symmetric]
      by (simp del: dropWhile_eq_Nil_conv)
  next
    case False
    with s(2) have "hd core \<noteq> SP" "last core \<noteq> SP" by (auto simp: trimmed_def)
    with False have "dropWhile (\<lambda>c. c = SP) s = core @ replicate n SP" "dropWhile (\<lambda>c. c = SP) (replicate n SP @ rev core) = rev core"
      unfolding s(1) by (auto intro!: dropWhile_spaces simp: hd_rev)
    then show ?thesis using trim_spaces_trimmed [OF s(2), of m n] unfolding s(1) [symmetric] by simp
  qed
qed

lemma other_header_skipped: "other_header h \<Longrightarrow> accept_of_line h acc = acc"
proof (cases "find_char (CHR '':'') h")
  case (Some i)
  assume "other_header h"
  moreover have "CHR '':'' \<in> set h" using Some by (auto simp: find_char_split)
  ultimately have "to_lower (trim_spaces (substr h 0 i)) \<noteq> ''accept''"
    by (simp add: other_header_def header_name_def trim_spaces_strip to_lower_def find_char_takeWhile [OF Some])
  with Some show ?thesis by (simp add: accept_of_line_def)
qed (simp add: accept_of_line_def)

lemma accept_name: "to_lower (trim_spaces ''Accept'') = ''accept''"
  by code_simp

lemma accept_line_accepted:
  "trimmed a \<Longrightarrow> accept_of_line (''Accept: '' @ a) acc = a"
  using trim_spaces_trimmed [of a 1 0] accept_name
  by (simp add: accept_of_line_def substr_from_def)

lemma scan_tail_line:
  "l \<noteq> [] \<Longrightarrow> CR \<notin> set l \<Longrightarrow> scan_tail (l @ CR # LF # rest) acc = scan_tail rest (accept_of_line l acc)"
  by (subst scan_tail.simps) (simp add: find_str_crlf)

lemma scan_tail_blank: "scan_tail (CR # LF # rest) acc = acc"
  by (subst scan_tail.simps) simp

lemma scan_tail_others:
  "list_all other_header hdrs \<Longrightarrow> scan_tail (concat (map (\<lambda>h. h @ CRLF) hdrs) @ rest) acc = scan_tail rest acc"
  by (induction hdrs) (auto simp: scan_tail_line other_header_skipped other_header_def)

lemma scan_tail_render:
  assumes "list_all other_header hdrs" "trimmed a" "CR \<notin> set a"
  shows "scan_tail (concat (map (\<lambda>h. h @ CRLF) hdrs)
      @ (if a = [] then [] else ''Accept: '' @ a @ CRLF) @ CRLF) [] = a"
proof (cases "a = []")
  case True
  with assms(1) show ?thesis by (simp add: scan_tail_others scan_tail_blank)
next
  case False
  have "scan_tail ((''Accept: '' @ a) @ CR # LF # CRLF) [] = scan_tail CRLF a"
    using assms by (subst scan_tail_line) (simp_all add: accept_line_accepted del: append_Cons)
  with False assms(1) show ?thesis by (simp add: scan_tail_others scan_tail_blank)
qed

lemma parse_http_request_after_line:
  assumes "CR \<notin> set line" "parse_request_line line = Some (m, t)" "parse_target t = Some (p, q)"
  shows "parse_http_request (line @ CR # LF # rest) =
    Some \<lparr>req_method = m, req_path = p, req_query = q, req_accept = scan_tail rest []\<rparr>"
  using assms by (simp add: parse_http_request_def find_str_crlf scan_headers_tail)

lemma render_request_parses:
  assumes wf: "wf_request req" and hdrs: "list_all other_header hdrs"
  shows "parse_http_request (render_request req hdrs) = Some req"
proof -
  let ?t = "render_target (req_path req) (req_query req)"
  let ?line = "req_method req @ SP # ?t @ SP # ''HTTP/1.1''"
  let ?rest = "concat (map (\<lambda>h. h @ CRLF) hdrs)
      @ (if req_accept req = [] then [] else ''Accept: '' @ req_accept req @ CRLF) @ CRLF"
  have raw: "render_request req hdrs = ?line @ CR # LF # ?rest" by (simp add: render_request_def)
  have "CR \<notin> set ?line"
    using wf isupper_no_delim by (auto simp: wf_request_def render_target_no_delim)
  moreover have "parse_request_line ?line = Some (req_method req, ?t)"
    using wf by (intro parse_request_line_render) (auto simp: wf_request_def render_target_no_delim
        render_target_slash)
  moreover have "parse_target ?t = Some (req_path req, req_query req)"
    using wf by (intro parse_target_render) (auto simp: wf_request_def)
  ultimately have "parse_http_request (?line @ CR # LF # ?rest) = Some \<lparr>req_method = req_method req,
      req_path = req_path req, req_query = req_query req, req_accept = scan_tail ?rest []\<rparr>"
    by (rule parse_http_request_after_line)
  moreover have "scan_tail ?rest [] = req_accept req"
    using wf hdrs by (intro scan_tail_render) (auto simp: wf_request_def)
  ultimately show ?thesis unfolding raw by simp
qed

section \<open>The read loop\<close>

text \<open>The bytes the environment hands to the loop, pass by pass.\<close>

definition delivered :: "int \<Rightarrow> head_env \<Rightarrow> string" where
  "delivered deadline e =
     (case poll_answer e (remaining_ms deadline (clock_now e)) of
        PollReady \<Rightarrow> (case recv_answer e of RecvData buf \<Rightarrow> buf | _ \<Rightarrow> [])
      | _ \<Rightarrow> [])"

definition received :: "int \<Rightarrow> head_env list \<Rightarrow> string" where
  "received deadline es = concat (map (delivered deadline) es)"

text \<open>\<^verbatim>\<open>recv\<close> never returns more than the 4096 bytes of the buffer.\<close>

definition recv_fits :: "head_env \<Rightarrow> bool" where
  "recv_fits e \<longleftrightarrow> (case recv_answer e of RecvData buf \<Rightarrow> length buf \<le> 4096 | _ \<Rightarrow> True)"

text \<open>A pass that brings bytes, or is interrupted, before the deadline.\<close>

definition undisturbed :: "int \<Rightarrow> head_env \<Rightarrow> bool" where
  "undisturbed deadline e \<longleftrightarrow> clock_now e < deadline \<and>
     (case poll_answer e (remaining_ms deadline (clock_now e)) of
        PollEINTR \<Rightarrow> True
      | PollReady \<Rightarrow> recv_answer e = RecvEINTR \<or> (\<exists>buf. recv_answer e = RecvData buf \<and> buf \<noteq> [])
      | _ \<Rightarrow> False)"

lemma received_simps [simp]:
  "received d [] = []" "received d (e # es) = delivered d e @ received d es"
  by (simp_all add: received_def)

lemmas read_head_cases = poll_result.splits recv_result.splits if_splits

lemma read_head_prefix:
  "read_head_loop m d out es = Some (r, res) \<Longrightarrow> prefix out res \<and> prefix res (out @ received d es)"
proof (induction es arbitrary: out)
  case Nil
  then show ?case by simp
next
  case (Cons e es)
  consider (stop) "res = out"
    | (skip) "read_head_loop m d out es = Some (r, res)" "delivered d e = []"
    | (last) buf where "delivered d e = buf" "res = out @ buf"
    | (more) buf where "delivered d e = buf" "read_head_loop m d (out @ buf) es = Some (r, res)"
    using Cons.prems by (auto simp: delivered_def Let_def split: read_head_cases)
  then show ?case
  proof cases
    case (more buf)
    from Cons.IH [OF more(2)] more(1) show ?thesis by (auto simp: prefix_def)
  qed (use Cons.IH in auto)
qed

lemma read_head_Ok:
  "read_head_loop m d out es = Some (Ok, res) \<Longrightarrow> length res \<le> m \<and> find_str blank_line res \<noteq> None"
  by (induction es arbitrary: out) (auto simp: Let_def split: read_head_cases)

lemma read_head_size:
  "read_head_loop m d out es = Some (r, res) \<Longrightarrow> list_all recv_fits es \<Longrightarrow> length out \<le> m \<Longrightarrow>
     length res \<le> m + 4096"
  by (induction es arbitrary: out) (auto simp: Let_def recv_fits_def split: read_head_cases)

lemma read_head_returns:
  "\<exists>e \<in> set es. d \<le> clock_now e \<Longrightarrow> \<exists>r. read_head_loop m d out es = Some r"
  by (induction es arbitrary: out) (auto simp: Let_def split: poll_result.split recv_result.split)

lemma read_head_complete:
  "list_all (undisturbed d) es \<Longrightarrow> length (out @ received d es) \<le> m \<Longrightarrow>
   find_str blank_line out = None \<Longrightarrow> find_str blank_line (out @ received d es) \<noteq> None \<Longrightarrow>
   \<exists>res. read_head_loop m d out es = Some (Ok, res)"
proof (induction es arbitrary: out)
  case Nil
  then show ?case by simp
next
  case (Cons e es)
  then have e: "undisturbed d e" and es: "list_all (undisturbed d) es" by auto
  consider (quiet) "read_head_loop m d out (e # es) = read_head_loop m d out es" "delivered d e = []"
    | (bytes) "delivered d e \<noteq> []" "read_head_loop m d out (e # es) =
        (let out' = out @ delivered d e in
         if length out' > m then Some (TooLarge, out')
         else if find_str blank_line out' \<noteq> None then Some (Ok, out')
         else read_head_loop m d out' es)"
    using e by (auto simp: undisturbed_def delivered_def Let_def split: poll_result.splits)
  then show ?case
  proof cases
    case quiet
    with Cons.IH [OF es, of out] Cons.prems show ?thesis by simp
  next
    case bytes
    with Cons.IH [OF es, of "out @ delivered d e"] Cons.prems show ?thesis
      by (auto simp: Let_def)
  qed
qed

lemma remaining_ms_bound:
  assumes "now < deadline" "deadline \<le> now + s * 1000000000" "s \<le> 2000000"
  shows "0 \<le> remaining_ms deadline now \<and> remaining_ms deadline now \<le> s * 1000"
proof -
  have "0 \<le> (deadline - now) div 1000000" "(deadline - now) div 1000000 \<le> s * 1000" using assms(1,2) by linarith+
  moreover from this have "to_int32 ((deadline - now) div 1000000) = (deadline - now) div 1000000"
    using assms(3) by (intro to_int32_id) simp_all
  ultimately show ?thesis by (simp add: remaining_ms_def)
qed

section \<open>What an accepted request looks like\<close>

lemma trimmed_trim_spaces: "trimmed (trim_spaces s)"
  using trim_decomposition [of s] trim_spaces_trimmed by metis

lemma trimmed_scan_tail: "trimmed acc \<Longrightarrow> trimmed (scan_tail s acc)"
proof (induction s acc rule: scan_tail.induct)
  case (1 s acc)
  have "trimmed (accept_of_line l acc)" for l
    using "1.prems" trimmed_trim_spaces by (auto simp: accept_of_line_def split: option.split)
  with 1 show ?case by (subst scan_tail.simps) (auto split: option.split)
qed

lemma parse_query_pair_no_NUL:
  "parse_query_pair p = Some kv \<Longrightarrow> NUL \<notin> set (fst kv) \<and> NUL \<notin> set (snd kv)"
  by (auto simp: parse_query_pair_def split: option.splits prod.splits dest: percent_decode_no_NUL)

lemma decode_pairs_no_NUL:
  "decode_pairs ps = Some q \<Longrightarrow> kv \<in> set q \<Longrightarrow> NUL \<notin> set (fst kv) \<and> NUL \<notin> set (snd kv)"
  by (induction ps arbitrary: q)
    (auto split: if_splits option.splits dest!: parse_query_pair_no_NUL)

lemma hex_val_plain: "hex_val h = Some v \<Longrightarrow> \<not> iscntrl h"
  by (auto simp: hex_val_def iscntrl_def split: if_splits)

text \<open>Raw control bytes are refused; they can only be written percent-encoded.\<close>

lemma percent_decode_raw: "percent_decode s = Some t \<Longrightarrow> \<forall>c \<in> set s. \<not> iscntrl c"
proof (induction s arbitrary: t rule: percent_decode.induct)
  case (2 c cs)
  consider "c = CHR ''+''" | "c = CHR ''%''" | "c \<noteq> CHR ''+''" "c \<noteq> CHR ''%''" by blast
  then show ?case
  proof cases
    case 1
    with "2.prems" "2.IH"(1) show ?thesis by (auto simp: iscntrl_def)
  next
    case 2
    with "2.prems" obtain h l rest hi lo where cs: "cs = h # l # rest" and h: "hex_val h = Some hi" "hex_val l = Some lo"
      by (auto split: list.splits option.splits)
    with 2 "2.prems" obtain u where "percent_decode rest = Some u" "char_of ((push_bit 4 hi) OR lo) \<noteq> NUL"
      by (auto simp: Let_def split: if_splits)
    with "2.IH"(2) [OF _ 2 cs refl refl h refl] 2 have "\<forall>c \<in> set rest. \<not> iscntrl c" by auto
    with 2 cs hex_val_plain [OF h(1)] hex_val_plain [OF h(2)] show ?thesis by (simp add: iscntrl_def)
  next
    case 3
    with "2.prems" obtain u where u: "percent_decode cs = Some u" and c: "\<not> (byte c < 32 \<or> byte c = 127)"
      by (auto split: if_splits)
    have "\<forall>c \<in> set cs. \<not> iscntrl c" by (rule "2.IH"(3) [OF 3 c u])
    with c show ?thesis by (simp add: iscntrl_def)
  qed
qed simp

lemma parse_query_pair_raw:
  assumes "parse_query_pair p = Some kv"
  shows "\<forall>c \<in> set p. \<not> iscntrl c"
proof (cases "find_char (CHR ''='') p")
  case None
  with assms show ?thesis by (auto simp: parse_query_pair_def split: option.splits dest!: percent_decode_raw)
next
  case (Some i)
  then obtain xs ys where "p = xs @ CHR ''='' # ys" "length xs = i" by (auto simp: find_char_split)
  with assms Some show ?thesis
    by (auto simp: parse_query_pair_def substr_from_def iscntrl_def split: option.splits dest!: percent_decode_raw)
qed

lemma decode_pairs_raw: "decode_pairs ps = Some q \<Longrightarrow> p \<in> set ps \<Longrightarrow> \<forall>c \<in> set p. \<not> iscntrl c"
  by (induction ps arbitrary: q) (auto split: if_splits option.splits dest!: parse_query_pair_raw)

lemma split_on_set: "x \<in> set s \<Longrightarrow> x = c \<or> (\<exists>l \<in> set (split_on c s). x \<in> set l)"
  by (induction s) (auto split: list.splits)

lemma parse_target_raw:
  assumes "parse_target t = Some (p, q)"
  shows "\<forall>c \<in> set t. \<not> iscntrl c"
proof -
  have query: "\<forall>c \<in> set e. \<not> iscntrl c" if "parse_query e 0 [] = Some q" for e
    using that split_on_set [of _ e "CHR ''&''"] decode_pairs_raw [of "split_on (CHR ''&'') e" q]
    by (fastforce simp: parse_query_all iscntrl_def split: if_splits)
  show ?thesis
  proof (cases "find_char (CHR ''?'') t")
    case None
    with assms show ?thesis by (auto simp: parse_target_def Let_def split: option.splits dest!: percent_decode_raw)
  next
    case (Some i)
    then obtain xs ys where "t = xs @ CHR ''?'' # ys" "length xs = i" by (auto simp: find_char_split)
    with assms Some query [of ys] show ?thesis
      by (auto simp: parse_target_def substr_from_def Let_def iscntrl_def split: option.splits dest!: percent_decode_raw)
  qed
qed

lemma parse_request_line_split:
  assumes "parse_request_line l = Some (m, t)"
  shows "\<exists>v. l = m @ SP # t @ SP # v \<and> v \<in> {''HTTP/1.1'', ''HTTP/1.0''}"
proof -
  obtain sp1 where 1: "find_char SP l = Some sp1" using assms by (auto simp: parse_request_line_def split: option.splits)
  then obtain xs ys where l: "l = xs @ SP # ys" "length xs = sp1" by (auto simp: find_char_split)
  obtain sp2 where 2: "find_char_from SP l (sp1 + 1) = Some sp2"
    using assms 1 by (auto simp: parse_request_line_def split: option.splits)
  then obtain j where j: "find_char SP ys = Some j" "sp2 = sp1 + 1 + j" using l by (auto simp: find_char_from_def)
  then obtain us vs where ys: "ys = us @ SP # vs" "length us = j" by (auto simp: find_char_split)
  from assms 1 2 l j ys show ?thesis
    by (auto simp: parse_request_line_def substr_def substr_from_def Let_def split: if_splits)
qed

lemma parse_request_line_wf:
  "parse_request_line l = Some (m, t) \<Longrightarrow> m \<noteq> [] \<and> list_all isupper m \<and> t \<noteq> [] \<and> hd t = CHR ''/''"
  by (auto simp: parse_request_line_def Let_def split: option.splits if_splits)

lemma request_line_raw:
  assumes "parse_request_line l = Some (m, t)" "parse_target t = Some (p, q)"
  shows "\<forall>c \<in> set l. \<not> iscntrl c"
proof -
  obtain v where "l = m @ SP # t @ SP # v" "v \<in> {''HTTP/1.1'', ''HTTP/1.0''}" using parse_request_line_split [OF assms(1)] by blast
  moreover have "\<forall>c \<in> set m. \<not> iscntrl c"
    using parse_request_line_wf [OF assms(1)] by (auto simp: list_all_iff isupper_def iscntrl_def)
  moreover have "\<forall>c \<in> set t. \<not> iscntrl c" using parse_target_raw [OF assms(2)] .
  ultimately show ?thesis by (auto simp: iscntrl_def)
qed

lemma percent_decode_slash:
  "percent_decode (CHR ''/'' # s) = Some t \<Longrightarrow> t \<noteq> [] \<and> hd t = CHR ''/''"
  by auto

lemma parse_target_wf:
  assumes "parse_target t = Some (p, q)" "t \<noteq> []" "hd t = CHR ''/''"
  shows "p \<noteq> [] \<and> hd p = CHR ''/'' \<and> NUL \<notin> set p
    \<and> (\<forall>kv \<in> set q. NUL \<notin> set (fst kv) \<and> NUL \<notin> set (snd kv))"
proof -
  let ?enc = "case find_char (CHR ''?'') t of None \<Rightarrow> t | Some n \<Rightarrow> substr t 0 n"
  from assms(1) obtain qe where p: "percent_decode ?enc = Some p" and q: "parse_query qe 0 [] = Some q"
    by (auto simp: parse_target_def Let_def split: option.splits)
  from assms(2,3) obtain u where t: "t = CHR ''/'' # u" by (cases t) auto
  have "\<exists>v. ?enc = CHR ''/'' # v" by (auto simp: t split: option.split)
  with p have "p \<noteq> [] \<and> hd p = CHR ''/''" using percent_decode_slash by auto
  moreover have "NUL \<notin> set p" using p by (rule percent_decode_no_NUL)
  moreover have "\<forall>kv \<in> set q. NUL \<notin> set (fst kv) \<and> NUL \<notin> set (snd kv)"
    using q decode_pairs_no_NUL by (auto simp: parse_query_all split: if_splits)
  ultimately show ?thesis by blast
qed

lemma parse_http_request_cases:
  assumes "parse_http_request raw = Some req"
  obtains n m t p q where "find_str CRLF raw = Some n" "parse_request_line (take n raw) = Some (m, t)"
    "parse_target t = Some (p, q)"
    "req = \<lparr>req_method = m, req_path = p, req_query = q, req_accept = scan_tail (drop (n + 2) raw) []\<rparr>"
proof -
  from assms obtain n m t p q where n: "find_str CRLF raw = Some n"
    and "parse_request_line (take n raw) = Some (m, t)" "parse_target t = Some (p, q)"
    "req = \<lparr>req_method = m, req_path = p, req_query = q, req_accept = scan_headers raw (n + 2) []\<rparr>"
    by (auto simp: parse_http_request_def Let_def split: option.splits prod.splits)
  moreover have "scan_headers raw (n + 2) [] = scan_tail (drop (n + 2) raw) []"
    using find_str_Some_bound [OF n] by (intro scan_headers_tail) simp
  ultimately show ?thesis using that by simp
qed

lemma find_query_param_in_Some: "find_query_param_in q k = Some v \<Longrightarrow> (k, v) \<in> set q"
  by (induction q) (auto split: if_splits)

lemma find_query_param_in_map_of: "find_query_param_in q k = map_of q k"
  by (induction q) auto

lemma parsed_param_no_NUL:
  assumes "parse_http_request raw = Some req" "find_query_param req k = Some v"
  shows "NUL \<notin> set k \<and> NUL \<notin> set v"
  using assms(1)
proof (rule parse_http_request_cases)
  fix n m t p q
  assume "parse_request_line (take n raw) = Some (m, t)" "parse_target t = Some (p, q)"
    and req: "req = \<lparr>req_method = m, req_path = p, req_query = q,
      req_accept = scan_tail (drop (n + 2) raw) []\<rparr>"
  then have "\<forall>kv \<in> set q. NUL \<notin> set (fst kv) \<and> NUL \<notin> set (snd kv)"
    using parse_request_line_wf parse_target_wf by blast
  moreover have "(k, v) \<in> set q"
    using assms(2) by (simp add: req find_query_param_def find_query_param_in_Some)
  ultimately show ?thesis by auto
qed

lemma render_request_blank: "find_str blank_line (render_request req hdrs) \<noteq> None"
proof -
  have ends: "\<exists>ys. x @ CRLF @ concat (map (\<lambda>h. h @ CRLF) hs) = ys @ CRLF" for x hs
    by (induction hs arbitrary: x) (auto, metis append.assoc append_Cons append_Nil)
  obtain ys where "render_request req hdrs = ys @ blank_line @ []"
  proof (cases "req_accept req = []")
    case True
    from ends [of "req_method req @ SP # render_target (req_path req) (req_query req) @ SP # ''HTTP/1.1''" hdrs]
    obtain ys where "render_request req hdrs = (ys @ CRLF) @ CRLF"
      using True by (auto simp: render_request_def)
    then show ?thesis using that by simp
  next
    case False
    have "render_request req hdrs =
      (req_method req @ SP # render_target (req_path req) (req_query req) @ SP # ''HTTP/1.1'' @ CRLF
       @ concat (map (\<lambda>h. h @ CRLF) hdrs) @ ''Accept: '' @ req_accept req) @ blank_line @ []"
      using False by (simp add: render_request_def)
    then show ?thesis by (rule that)
  qed
  from find_str_first [OF this] show ?thesis by auto
qed

section \<open>Properties\<close>



text \<open>C16: how the kernel splits the bytes of a connection into reads does not matter: two runs of
  \<^verbatim>\<open>read_http_head\<close> that receive parts of the same byte stream and both succeed hand the parser
  buffers that parse to the same result.\<close>

theorem request_independent_of_segmentation:
  assumes "prefix (received (s1 + t1 * 1000000000) es1) stream"
    and "prefix (received (s2 + t2 * 1000000000) es2) stream"
    and "read_http_head m1 t1 s1 es1 = Some (Ok, raw1)"
    and "read_http_head m2 t2 s2 es2 = Some (Ok, raw2)"
  shows "parse_http_request raw1 = parse_http_request raw2"
proof -
  have "prefix raw1 stream" "prefix raw2 stream"
    using assms by (auto simp: read_http_head_def dest!: read_head_prefix intro: prefix_order.trans)
  then consider t where "raw2 = raw1 @ t" | t where "raw1 = raw2 @ t"
    by (metis prefix_same_cases prefix_def)
  moreover have "find_str blank_line raw1 \<noteq> None" "find_str blank_line raw2 \<noteq> None"
    using assms(3,4) by (auto simp: read_http_head_def dest!: read_head_Ok)
  ultimately show ?thesis by cases (simp_all add: parse_http_request_extra)
qed

definition one_shot :: "int \<Rightarrow> string \<Rightarrow> head_env" where
  "one_shot t buf = \<lparr>clock_now = t, poll_answer = \<lambda>_. PollReady, recv_answer = RecvData buf\<rparr>"

theorem request_independent_of_segmentation_witness:
  "read_http_head 8192 5 0 [one_shot 0 (''GET /a HTTP/1.1'' @ [CR, LF, CR, LF])]
     = Some (Ok, ''GET /a HTTP/1.1'' @ [CR, LF, CR, LF])
   \<and> read_http_head 8192 5 7 [one_shot 7 ''GET /a'', one_shot 9 ('' HTTP/1.1'' @ [CR, LF, CR, LF, CHR ''x''])]
     = Some (Ok, ''GET /a HTTP/1.1'' @ [CR, LF, CR, LF, CHR ''x''])
   \<and> parse_http_request (''GET /a HTTP/1.1'' @ [CR, LF, CR, LF])
     = parse_http_request (''GET /a HTTP/1.1'' @ [CR, LF, CR, LF, CHR ''x''])"
proof -
  let ?a = "[one_shot 0 (''GET /a HTTP/1.1'' @ [CR, LF, CR, LF])]"
  let ?b = "[one_shot 7 ''GET /a'', one_shot 9 ('' HTTP/1.1'' @ [CR, LF, CR, LF, CHR ''x''])]"
  have a: "read_http_head 8192 5 0 ?a = Some (Ok, ''GET /a HTTP/1.1'' @ [CR, LF, CR, LF])"
    by (simp add: read_http_head_def one_shot_def Let_def)
  have b: "read_http_head 8192 5 7 ?b = Some (Ok, ''GET /a HTTP/1.1'' @ [CR, LF, CR, LF, CHR ''x''])"
    by (simp add: read_http_head_def one_shot_def Let_def)
  have "prefix (received (0 + 5 * 1000000000) ?a) (''GET /a HTTP/1.1'' @ [CR, LF, CR, LF, CHR ''x''])"
    "prefix (received (7 + 5 * 1000000000) ?b) (''GET /a HTTP/1.1'' @ [CR, LF, CR, LF, CHR ''x''])"
    by (simp_all add: delivered_def one_shot_def)
  from request_independent_of_segmentation [OF this a b] a b show ?thesis by blast
qed

text \<open>C17: reading a request head always ends and never holds more than \<^verbatim>\<open>max_bytes\<close> plus one 4096-byte
  buffer: once the clock has reached the deadline the loop has returned, the buffer is a prefix of the
  bytes received, and a result \<^verbatim>\<open>Ok\<close> means that at most \<^verbatim>\<open>max_bytes\<close> bytes were read and that they contain
  the blank line.\<close>

theorem read_http_head_total:
  assumes "\<exists>e \<in> set es. start + timeout * 1000000000 \<le> clock_now e" "list_all recv_fits es"
  shows "\<exists>r out. read_http_head max_bytes timeout start es = Some (r, out)
    \<and> length out \<le> max_bytes + 4096
    \<and> prefix out (received (start + timeout * 1000000000) es)
    \<and> (r = Ok \<longrightarrow> length out \<le> max_bytes \<and> find_str blank_line out \<noteq> None)"
proof -
  from read_head_returns [OF assms(1)] obtain r out
    where "read_head_loop max_bytes (start + timeout * 1000000000) [] es = Some (r, out)" by force
  then show ?thesis
    using read_head_size [OF _ assms(2)] read_head_prefix read_head_Ok
    by (fastforce simp: read_http_head_def)
qed

theorem read_http_head_total_witness:
  "\<exists>r out. read_http_head 256 5 0 [one_shot 0 ''GET'', one_shot 5000000000 []] = Some (r, out)
    \<and> length out \<le> 256 + 4096
    \<and> prefix out (received (0 + 5 * 1000000000) [one_shot 0 ''GET'', one_shot 5000000000 []])
    \<and> (r = Ok \<longrightarrow> length out \<le> 256 \<and> find_str blank_line out \<noteq> None)"
  by (rule read_http_head_total) (simp_all add: one_shot_def recv_fits_def)

text \<open>A client that delivers its request before the deadline is served: if every pass brings bytes or
  is merely interrupted, all bytes together fit \<^verbatim>\<open>max_bytes\<close> and contain the blank line, the
  result is \<^verbatim>\<open>Ok\<close>.\<close>

theorem read_http_head_accepts:
  assumes "list_all (undisturbed (start + timeout * 1000000000)) es"
    and "length (received (start + timeout * 1000000000) es) \<le> max_bytes"
    and "find_str blank_line (received (start + timeout * 1000000000) es) \<noteq> None"
  shows "\<exists>out. read_http_head max_bytes timeout start es = Some (Ok, out)"
  using read_head_complete [of _ es "[]" max_bytes] assms by (simp add: read_http_head_def)

theorem read_http_head_accepts_witness:
  "\<exists>out. read_http_head 256 5 0 [one_shot 0 ''GET / HTTP/1.1'', one_shot 1 [CR, LF, CR, LF]] = Some (Ok, out)"
  by (rule read_http_head_accepts)
    (simp_all add: one_shot_def undisturbed_def delivered_def)

text \<open>C24: whatever bytes arrive, an accepted request has a non-empty upper-case method, an absolute path, no NUL byte in its path
  or in the name or value of any parameter, and an Accept value without surrounding spaces; and its request line contains no raw control byte, so
  that a control byte in the path or a parameter can only come from a percent escape other than \<^verbatim>\<open>%00\<close>.\<close>

theorem parsed_request_well_formed:
  assumes "parse_http_request raw = Some req"
  shows "req_method req \<noteq> [] \<and> list_all isupper (req_method req)
    \<and> req_path req \<noteq> [] \<and> hd (req_path req) = CHR ''/'' \<and> NUL \<notin> set (req_path req)
    \<and> (\<forall>(k, v) \<in> set (req_query req). NUL \<notin> set k \<and> NUL \<notin> set v)
    \<and> trimmed (req_accept req)
    \<and> (\<exists>line rest. raw = line @ CRLF @ rest \<and> (\<forall>c \<in> set line. 32 \<le> byte c \<and> byte c \<noteq> 127))"
  using assms
proof (rule parse_http_request_cases)
  fix n m t p q
  assume n: "find_str CRLF raw = Some n" and l: "parse_request_line (take n raw) = Some (m, t)" and t: "parse_target t = Some (p, q)"
    and req: "req = \<lparr>req_method = m, req_path = p, req_query = q,
      req_accept = scan_tail (drop (n + 2) raw) []\<rparr>"
  have "m \<noteq> [] \<and> list_all isupper m" "p \<noteq> [] \<and> hd p = CHR ''/'' \<and> NUL \<notin> set p"
    "\<forall>kv \<in> set q. NUL \<notin> set (fst kv) \<and> NUL \<notin> set (snd kv)"
    using parse_request_line_wf [OF l] parse_target_wf [OF t] by blast+
  moreover have "trimmed (scan_tail (drop (n + 2) raw) [])"
    by (rule trimmed_scan_tail) (simp add: trimmed_def)
  moreover obtain xs ys where "raw = xs @ CRLF @ ys" "length xs = n" using find_str_Some_split [OF n] by blast
  moreover from this have "\<forall>c \<in> set xs. 32 \<le> byte c \<and> byte c \<noteq> 127"
    using request_line_raw [OF l t] by (simp add: iscntrl_def not_less)
  ultimately show ?thesis by (fastforce simp: req)
qed

theorem parsed_request_well_formed_witness:
  "\<exists>req. parse_http_request (''GET /lookup?ip=::1 HTTP/1.0'' @ [CR, LF, CR, LF]) = Some req
    \<and> req_query req = [(''ip'', ''::1'')] \<and> NUL \<notin> set ''::1'' \<and> req_path req \<noteq> []"
proof -
  have p: "parse_http_request (''GET /lookup?ip=::1 HTTP/1.0'' @ [CR, LF, CR, LF]) =
    Some \<lparr>req_method = ''GET'', req_path = ''/lookup'', req_query = [(''ip'', ''::1'')], req_accept = []\<rparr>"
    by code_simp
  from parsed_request_well_formed [OF p] p show ?thesis by simp
qed

end
