(* ===== verification/Ip_Addr.thy ===== *)
theory Ip_Addr
  imports Http_Request
begin

text \<open>
  \<^verbatim>\<open>src/src/ip_addr.cpp\<close> and \<^verbatim>\<open>ip_addr.h\<close>: parsing an address literal into socket-address storage.

  \<^verbatim>\<open>inet_pton\<close> belongs to the C library and is a parameter of the model, one function per address
  family: \<open>pton4\<close> and \<open>pton6\<close> return the binary address in network order, or \<^const>\<open>None\<close> where the C
  function does not return 1.  \<open>pton_documented\<close> states the only fact about them that the code relies on:
  no presentation form is longer than the 45 bytes of the longest IPv6 literal (\<^verbatim>\<open>INET6_ADDRSTRLEN\<close>
  counts the terminator too), and the empty string is not an address.
\<close>

type_synonym pton4_fun = "string \<Rightarrow> 32 word option"
type_synonym pton6_fun = "string \<Rightarrow> 128 word option"

datatype address_family = AF_UNSPEC | AF_INET | AF_INET6

text \<open>
  The typed views of \<^verbatim>\<open>sockaddr_storage\<close> the program uses.  Port and address fields hold the number whose big-endian bytes are stored, so \<^verbatim>\<open>htons\<close>,
  \<^verbatim>\<open>htonl\<close> and \<^verbatim>\<open>ntohs\<close>, which convert between a number and its network representation, do not appear: a field is the number itself.
\<close>

datatype sockaddr =
    SockaddrZero
  | SockaddrIn (sin_port: "16 word") (sin_addr: "32 word")
  | SockaddrIn6 (sin6_port: "16 word") (sin6_addr: "128 word")

record ParsedAddr =
  addr_storage :: sockaddr
  addr_len :: nat
  addr_family :: address_family

definition empty_addr :: ParsedAddr where
  "empty_addr = \<lparr>addr_storage = SockaddrZero, addr_len = 0, addr_family = AF_UNSPEC\<rparr>"

definition kMaxAddrTextLen :: nat where
  "kMaxAddrTextLen = 45"

definition sizeof_sockaddr_in :: nat where "sizeof_sockaddr_in = 16"
definition sizeof_sockaddr_in6 :: nat where "sizeof_sockaddr_in6 = 28"

text \<open>The result pairs the returned flag with the out parameter.\<close>

definition parse_ip_address ::
    "pton4_fun \<Rightarrow> pton6_fun \<Rightarrow> string \<Rightarrow> ParsedAddr \<Rightarrow> bool \<times> ParsedAddr" where
  "parse_ip_address pton4 pton6 text out =
     (if text = [] \<or> length text > kMaxAddrTextLen then (False, out)
      else
        (case pton4 (c_str text) of
           Some addr4 \<Rightarrow>
             (True, out\<lparr>addr_storage := SockaddrIn 0 addr4, addr_len := sizeof_sockaddr_in,
                        addr_family := AF_INET\<rparr>)
         | None \<Rightarrow>
             (case pton6 (c_str text) of
                Some addr6 \<Rightarrow>
                  (True, out\<lparr>addr_storage := SockaddrIn6 0 addr6, addr_len := sizeof_sockaddr_in6,
                             addr_family := AF_INET6\<rparr>)
              | None \<Rightarrow> (False, out))))"

section \<open>Contract\<close>

text \<open>What callers may assume of a filled \<^verbatim>\<open>ParsedAddr\<close>: length and family agree with the storage.\<close>

fun addr_consistent :: "ParsedAddr \<Rightarrow> bool" where
  "addr_consistent a =
     (case addr_storage a of
        SockaddrZero \<Rightarrow> addr_len a = 0 \<and> addr_family a = AF_UNSPEC
      | SockaddrIn _ _ \<Rightarrow> addr_len a = sizeof_sockaddr_in \<and> addr_family a = AF_INET
      | SockaddrIn6 _ _ \<Rightarrow> addr_len a = sizeof_sockaddr_in6 \<and> addr_family a = AF_INET6)"

definition pton_documented :: "pton4_fun \<Rightarrow> pton6_fun \<Rightarrow> bool" where
  "pton_documented pton4 pton6 \<longleftrightarrow>
     (\<forall>t. pton4 t \<noteq> None \<or> pton6 t \<noteq> None \<longrightarrow> t \<noteq> [] \<and> length t \<le> 45)"

lemma parse_ip_address_False: "parse_ip_address p4 p6 t out = (False, a) \<Longrightarrow> a = out"
  by (auto simp: parse_ip_address_def split: if_splits option.splits)

lemma parse_ip_address_True:
  "parse_ip_address p4 p6 t out = (True, a) \<Longrightarrow>
     t \<noteq> [] \<and> length t \<le> 45 \<and> addr_consistent a \<and> addr_family a \<noteq> AF_UNSPEC"
  by (auto simp: parse_ip_address_def kMaxAddrTextLen_def split: if_splits option.splits)

text \<open>
  A concrete instance for examples: strict dotted quads (one to three digits per part, at most 255)
  and the loopback literal of IPv6.
\<close>

definition octet :: "string \<Rightarrow> nat option" where
  "octet s =
     (if s \<noteq> [] \<and> length s \<le> 3 \<and> list_all isdigit s \<and> nat_of_digits s \<le> 255
      then Some (nat_of_digits s) else None)"

definition dotted_quad :: pton4_fun where
  "dotted_quad t =
     (case map octet (split_on (CHR ''.'') t) of
        [Some a, Some b, Some c, Some d] \<Rightarrow> Some (of_nat (((a * 256 + b) * 256 + c) * 256 + d))
      | _ \<Rightarrow> None)"

definition loopback6 :: pton6_fun where
  "loopback6 t = (if t = ''::1'' then Some 1 else None)"

lemma split_on_four: "split_on c t = [w, x, y, z] \<Longrightarrow> length t = length w + length x + length y + length z + 3"
proof -
  have "length (concat (split_on c t)) + length (split_on c t) = length t + 1"
    by (induction t) (auto split: list.splits)
  then show "split_on c t = [w, x, y, z] \<Longrightarrow> ?thesis" by simp
qed

lemma example_pton_documented: "pton_documented dotted_quad loopback6"
proof -
  have "t \<noteq> [] \<and> length t \<le> 45" if "dotted_quad t \<noteq> None" for t
  proof -
    from that obtain w x y z where s: "split_on (CHR ''.'') t = [w, x, y, z]"
      and "octet w \<noteq> None" "octet x \<noteq> None" "octet y \<noteq> None" "octet z \<noteq> None"
      by (auto simp: dotted_quad_def split: list.splits option.splits)
    then have "length w \<le> 3 \<and> length x \<le> 3 \<and> length y \<le> 3 \<and> length z \<le> 3"
      by (auto simp: octet_def split: if_splits)
    with split_on_four [OF s] show ?thesis by auto
  qed
  moreover have "t \<noteq> [] \<and> length t \<le> 45" if "loopback6 t \<noteq> None" for t
    using that by (auto simp: loopback6_def split: if_splits)
  ultimately show ?thesis by (auto simp: pton_documented_def)
qed

section \<open>Properties\<close>

text \<open>For the \<^verbatim>\<open>ip\<close> parameter of any request the parser accepted, address parsing is exactly
  \<^verbatim>\<open>inet_pton\<close> on the whole text, IPv4 first, then IPv6: the length guard rejects no valid literal, no byte
  behind a NUL is ignored, and the storage, length and family agree.\<close>

theorem parse_ip_address_is_inet_pton:
  assumes "pton_documented pton4 pton6"
    and "parse_http_request raw = Some req" "find_query_param req ''ip'' = Some text"
  shows "parse_ip_address pton4 pton6 text empty_addr =
    (case pton4 text of
       Some a \<Rightarrow> (True, \<lparr>addr_storage = SockaddrIn 0 a, addr_len = 16, addr_family = AF_INET\<rparr>)
     | None \<Rightarrow>
         (case pton6 text of
            Some a \<Rightarrow> (True, \<lparr>addr_storage = SockaddrIn6 0 a, addr_len = 28, addr_family = AF_INET6\<rparr>)
          | None \<Rightarrow> (False, empty_addr)))"
proof -
  have "NUL \<notin> set text" using parsed_param_no_NUL [OF assms(2,3)] by simp
  moreover have "pton4 text = None \<and> pton6 text = None" if "text = [] \<or> length text > 45"
    using assms(1) that unfolding pton_documented_def by (metis linorder_not_less option.discI)
  ultimately show ?thesis
    by (auto simp: parse_ip_address_def kMaxAddrTextLen_def empty_addr_def sizeof_sockaddr_in_def
        sizeof_sockaddr_in6_def split: option.split)
qed

theorem parse_ip_address_is_inet_pton_witness:
  "parse_ip_address dotted_quad loopback6 ''8.8.4.4'' empty_addr =
     (True, \<lparr>addr_storage = SockaddrIn 0 0x08080404, addr_len = 16, addr_family = AF_INET\<rparr>)"
proof -
  have req: "parse_http_request (''GET /lookup?ip=8.8.4.4 HTTP/1.1'' @ [CR, LF, CR, LF]) = Some \<lparr>
    req_method = ''GET'', req_path = ''/lookup'', req_query = [(''ip'', ''8.8.4.4'')], req_accept = []\<rparr>"
    by code_simp
  have quad: "dotted_quad ''8.8.4.4'' = Some 0x08080404"
    by (simp add: dotted_quad_def octet_def isdigit_def nat_of_digits_def)
  show ?thesis
    using parse_ip_address_is_inet_pton [OF example_pton_documented req, of "''8.8.4.4''"] quad
    by (simp add: find_query_param_def)
qed

end
