(* ===== verification/Config.thy ===== *)
theory Config
  imports Nsh_Prelude
begin

text \<open>
  Configuration: \<^verbatim>\<open>src/src/config.cpp\<close> and \<^verbatim>\<open>src/src/config.h\<close>.

  The configuration file, the environment and the file system are arguments: the bytes of the file
  (\<^const>\<open>None\<close> when it cannot be opened), \<^verbatim>\<open>getenv\<close> as a function, and a predicate telling which paths
  \<^verbatim>\<open>stat\<close> reports as regular files.  A stage that can fail returns the error text (\<^const>\<open>None\<close> for
  \<^verbatim>\<open>return true\<close>) beside the configuration it leaves behind, since the C++ code assigns fields in
  place before it meets an invalid value.  \<^verbatim>\<open>strtol\<close> is modelled with its white space, sign,
  64-bit range and end pointer.
\<close>

section \<open>Model\<close>

text \<open>\<^verbatim>\<open>unsigned int\<close> to \<^verbatim>\<open>int\<close> keeps the bit pattern, so a count above \<open>2 ^ 31 - 1\<close> turns negative.\<close>

definition default_thread_count :: "32 word \<Rightarrow> int" where
  "default_thread_count detected =
     (if detected = 0 then 8
      else let n = sint detected in
        if n < 4 then 4 else if n > 20 then 20 else n)"

record Config =
  country_db :: string
  asn_db :: string
  city_db :: string
  socket_path :: string
  socket_mode :: nat
  threads :: int
  max_request_bytes :: nat
  debug_log :: bool
  tcp_port :: int
  tcp_address :: string
  metrics_file :: string
  metrics_interval_seconds :: int

definition default_config :: "32 word \<Rightarrow> Config" where
  "default_config detected = \<lparr>country_db = [], asn_db = [], city_db = [],
     socket_path = ''/run/nshgeoip/nshgeoip.sock'', socket_mode = 432,
     threads = default_thread_count detected, max_request_bytes = 8192, debug_log = False,
     tcp_port = 0, tcp_address = [], metrics_file = [], metrics_interval_seconds = 60\<rparr>"

definition trim :: "string \<Rightarrow> string" where
  "trim s = rev (dropWhile isspace (rev (dropWhile isspace s)))"

text \<open>
  \<^verbatim>\<open>strtol\<close> on a NUL-terminated string in base 8 or 10: the value, the text \<^verbatim>\<open>end\<close> points to, and
  whether \<^verbatim>\<open>errno\<close> is set.  Without any digit \<^verbatim>\<open>end\<close> is the start of the text.
\<close>

definition base_digit :: "nat \<Rightarrow> char \<Rightarrow> bool" where
  "base_digit b c \<longleftrightarrow> 48 \<le> byte c \<and> byte c < 48 + b"

definition base_value :: "nat \<Rightarrow> string \<Rightarrow> nat" where
  "base_value b s = foldl (\<lambda>n c. b * n + (byte c - 48)) 0 s"

definition strtol_sign :: "string \<Rightarrow> bool \<times> string" where
  "strtol_sign s =
     (case s of
        [] \<Rightarrow> (False, [])
      | c # r \<Rightarrow> if c = CHR ''-'' then (True, r) else if c = CHR ''+'' then (False, r) else (False, s))"

definition strtol :: "nat \<Rightarrow> string \<Rightarrow> int \<times> string \<times> bool" where
  "strtol b s =
     (let (neg, r) = strtol_sign (dropWhile isspace s);
          ds = takeWhile (base_digit b) r;
          v = (if neg then - int (base_value b ds) else int (base_value b ds))
      in if ds = [] then (0, s, False)
         else if v < - (2 ^ 63) then (- (2 ^ 63), dropWhile (base_digit b) r, True)
         else if v > 2 ^ 63 - 1 then (2 ^ 63 - 1, dropWhile (base_digit b) r, True)
         else (v, dropWhile (base_digit b) r, False))"

text \<open>\<^const>\<open>None\<close> is \<^verbatim>\<open>return false\<close>, which leaves \<^verbatim>\<open>out\<close> alone.\<close>

definition parse_long :: "string \<Rightarrow> nat \<Rightarrow> int option" where
  "parse_long value b =
     (if value = [] then None
      else let (v, rest, erange) = strtol b (c_str value) in
        if erange \<or> rest = c_str value \<or> rest \<noteq> [] then None else Some v)"

definition parse_bool :: "string \<Rightarrow> bool option" where
  "parse_bool value =
     (let v = map tolower value in
      if v = ''1'' \<or> v = ''true'' \<or> v = ''yes'' \<or> v = ''on'' then Some True
      else if v = ''0'' \<or> v = ''false'' \<or> v = ''no'' \<or> v = ''off'' then Some False
      else None)"

text \<open>The test \<^verbatim>\<open>!parse_long(value, v, b) || v < lo || v > hi\<close> that guards every numeric setting.\<close>

definition parse_ranged :: "nat \<Rightarrow> int \<Rightarrow> int \<Rightarrow> string \<Rightarrow> int option" where
  "parse_ranged b lo hi value =
     (case parse_long value b of
        None \<Rightarrow> None
      | Some v \<Rightarrow> if v < lo \<or> v > hi then None else Some v)"

definition parse_port :: "string \<Rightarrow> int option" where
  "parse_port text = parse_ranged 10 1 65535 text"

abbreviation (input) APOS :: char where "APOS \<equiv> CHR 0x27"

text \<open>One \<^verbatim>\<open>key=value\<close> line: the key is unknown, the value is refused with a message, or a field is set.\<close>

datatype key_result = Accepted Config | Rejected string | UnknownKey

definition accept_value :: "'a option \<Rightarrow> string \<Rightarrow> ('a \<Rightarrow> Config) \<Rightarrow> key_result" where
  "accept_value parsed msg upd = (case parsed of None \<Rightarrow> Rejected msg | Some v \<Rightarrow> Accepted (upd v))"

definition apply_key :: "string \<Rightarrow> string \<Rightarrow> Config \<Rightarrow> key_result" where
  "apply_key key value cfg =
     (if key = ''country_db'' then Accepted (cfg\<lparr>country_db := value\<rparr>)
      else if key = ''asn_db'' then Accepted (cfg\<lparr>asn_db := value\<rparr>)
      else if key = ''city_db'' then Accepted (cfg\<lparr>city_db := value\<rparr>)
      else if key = ''socket'' then Accepted (cfg\<lparr>socket_path := value\<rparr>)
      else if key = ''socket_mode'' then
        accept_value (parse_ranged 8 0 4095 value) ''invalid socket_mode (expected octal, e.g. 0660)''
          (\<lambda>mode. cfg\<lparr>socket_mode := nat mode\<rparr>)
      else if key = ''threads'' then
        accept_value (parse_ranged 10 1 256 value) ''invalid threads (expected 1-256)''
          (\<lambda>n. cfg\<lparr>threads := n\<rparr>)
      else if key = ''max_request_bytes'' then
        accept_value (parse_ranged 10 256 1048576 value) ''invalid max_request_bytes (expected 256-1048576)''
          (\<lambda>n. cfg\<lparr>max_request_bytes := nat n\<rparr>)
      else if key = ''debug_log'' then
        accept_value (parse_bool value) ''invalid debug_log (expected true/false)''
          (\<lambda>b. cfg\<lparr>debug_log := b\<rparr>)
      else if key = ''tcp_port'' then
        accept_value (parse_port value) ''invalid tcp_port (expected 1-65535)''
          (\<lambda>n. cfg\<lparr>tcp_port := n\<rparr>)
      else if key = ''tcp_address'' then Accepted (cfg\<lparr>tcp_address := value\<rparr>)
      else if key = ''metrics_file'' then Accepted (cfg\<lparr>metrics_file := value\<rparr>)
      else if key = ''metrics_interval_seconds'' then
        accept_value (parse_ranged 10 1 86400 value) ''invalid metrics_interval_seconds (expected 1-86400)''
          (\<lambda>n. cfg\<lparr>metrics_interval_seconds := n\<rparr>)
      else UnknownKey)"

text \<open>The body of the loop on one line: an error text or the new configuration and warnings.\<close>

definition config_line :: "string \<Rightarrow> Config \<Rightarrow> (string + Config \<times> string list)" where
  "config_line line cfg =
     (let trimmed = trim line in
      if trimmed = [] \<or> hd trimmed = CHR ''#'' then Inr (cfg, [])
      else
        (case find_char (CHR ''='') trimmed of
           None \<Rightarrow> Inl ''expected key=value''
         | Some eq \<Rightarrow>
             let key = trim (substr trimmed 0 eq);
                 value = trim (substr_from trimmed (eq + 1))
             in (case apply_key key value cfg of
                   Accepted cfg' \<Rightarrow> Inr (cfg', [])
                 | Rejected msg \<Rightarrow> Inl msg
                 | UnknownKey \<Rightarrow> Inr (cfg, [''unknown config key '' @ [APOS] @ key @ [APOS]]))))"

text \<open>The lines \<^verbatim>\<open>std::getline\<close> delivers: cut at newlines, without an empty piece at the end of the file.\<close>

definition getlines :: "string \<Rightarrow> string list" where
  "getlines s = (let ls = split_on LF s in if last ls = [] then butlast ls else ls)"

definition at_line :: "string \<Rightarrow> nat \<Rightarrow> string \<Rightarrow> string" where
  "at_line path line_no msg = path @ '':'' @ nat_to_string line_no @ '': '' @ msg"

fun load_lines ::
  "string \<Rightarrow> nat \<Rightarrow> string list \<Rightarrow> Config \<Rightarrow> string list \<Rightarrow> string option \<times> Config \<times> string list" where
  "load_lines path line_no [] cfg warnings = (None, cfg, warnings)"
| "load_lines path line_no (line # ls) cfg warnings =
     (case config_line line cfg of
        Inl msg \<Rightarrow> (Some (at_line path (line_no + 1) msg), cfg, warnings)
      | Inr (cfg', ws) \<Rightarrow>
          load_lines path (line_no + 1) ls cfg' (warnings @ map (at_line path (line_no + 1)) ws))"

definition load_config ::
  "string \<Rightarrow> string option \<Rightarrow> Config \<Rightarrow> string list \<Rightarrow> string option \<times> Config \<times> string list" where
  "load_config path content cfg warnings =
     (case content of
        None \<Rightarrow> (Some (''cannot open config file: '' @ path), cfg, warnings)
      | Some text \<Rightarrow> load_lines path 0 (getlines text) cfg warnings)"

text \<open>
  The environment.  \<open>env_set\<close> is \<^verbatim>\<open>if (env_value(name, value)) cfg.field = value;\<close> and \<open>env_parse\<close> the
  same with a check; \<open>and_then\<close> is the early \<^verbatim>\<open>return false\<close>.
\<close>

type_synonym getenv_fun = "string \<Rightarrow> string option"
type_synonym config_stage = "Config \<Rightarrow> string option \<times> Config"

definition env_set :: "getenv_fun \<Rightarrow> string \<Rightarrow> (string \<Rightarrow> Config \<Rightarrow> Config) \<Rightarrow> config_stage" where
  "env_set env name upd cfg =
     (case env name of None \<Rightarrow> (None, cfg) | Some value \<Rightarrow> (None, upd value cfg))"

definition env_parse ::
  "getenv_fun \<Rightarrow> string \<Rightarrow> (string \<Rightarrow> 'a option) \<Rightarrow> string \<Rightarrow> ('a \<Rightarrow> Config \<Rightarrow> Config) \<Rightarrow> config_stage" where
  "env_parse env name parse expected upd cfg =
     (case env name of
        None \<Rightarrow> (None, cfg)
      | Some value \<Rightarrow>
          (case parse value of
             None \<Rightarrow> (Some (name @ '': invalid value (expected '' @ expected @ '')''), cfg)
           | Some v \<Rightarrow> (None, upd v cfg)))"

definition and_then :: "config_stage \<Rightarrow> config_stage \<Rightarrow> config_stage" where
  "and_then f g cfg = (case f cfg of (None, cfg') \<Rightarrow> g cfg' | (Some err, cfg') \<Rightarrow> (Some err, cfg'))"

fun run_stages :: "config_stage list \<Rightarrow> config_stage" where
  "run_stages [] = (\<lambda>cfg. (None, cfg))"
| "run_stages (f # fs) = and_then f (run_stages fs)"

definition apply_env_overrides :: "getenv_fun \<Rightarrow> config_stage" where
  "apply_env_overrides env = run_stages
     [env_set env ''NSHGEOIP_COUNTRY_DB'' (\<lambda>v. country_db_update (\<lambda>_. v)),
      env_set env ''NSHGEOIP_ASN_DB'' (\<lambda>v. asn_db_update (\<lambda>_. v)),
      env_set env ''NSHGEOIP_CITY_DB'' (\<lambda>v. city_db_update (\<lambda>_. v)),
      env_set env ''NSHGEOIP_SOCKET'' (\<lambda>v. socket_path_update (\<lambda>_. v)),
      env_parse env ''NSHGEOIP_SOCKET_MODE'' (parse_ranged 8 0 4095) ''octal, e.g. 0660''
        (\<lambda>v. socket_mode_update (\<lambda>_. nat v)),
      env_parse env ''NSHGEOIP_THREADS'' (parse_ranged 10 1 256) ''1-256'' (\<lambda>v. threads_update (\<lambda>_. v)),
      env_parse env ''NSHGEOIP_MAX_REQUEST_BYTES'' (parse_ranged 10 256 1048576) ''256-1048576''
        (\<lambda>v. max_request_bytes_update (\<lambda>_. nat v)),
      env_parse env ''NSHGEOIP_DEBUG_LOG'' parse_bool ''true/false'' (\<lambda>v. debug_log_update (\<lambda>_. v)),
      env_parse env ''NSHGEOIP_TCP_PORT'' parse_port ''1-65535'' (\<lambda>v. tcp_port_update (\<lambda>_. v)),
      env_set env ''NSHGEOIP_TCP_ADDRESS'' (\<lambda>v. tcp_address_update (\<lambda>_. v)),
      env_set env ''NSHGEOIP_METRICS_FILE'' (\<lambda>v. metrics_file_update (\<lambda>_. v)),
      env_parse env ''NSHGEOIP_METRICS_INTERVAL_SECONDS'' (parse_ranged 10 1 86400) ''1-86400''
        (\<lambda>v. metrics_interval_seconds_update (\<lambda>_. v))]"

text \<open>
  Default database paths.  \<open>regular\<close> is \<^verbatim>\<open>regular_file_exists\<close>: whether \<^verbatim>\<open>stat\<close> on the path, read as a
  C string, reports a regular file.
\<close>

definition regular_file_exists :: "(string \<Rightarrow> bool) \<Rightarrow> string \<Rightarrow> bool" where
  "regular_file_exists regular path = regular (c_str path)"

fun resolve_db_slot ::
  "(string \<Rightarrow> bool) \<Rightarrow> string \<Rightarrow> string \<Rightarrow> string \<Rightarrow> string list \<Rightarrow> string list \<Rightarrow> string \<times> string list" where
  "resolve_db_slot regular field key filename [] notes = (field, notes)"
| "resolve_db_slot regular field key filename (dir # dirs) notes =
     (if field \<noteq> [] then (field, notes)
      else let candidate = dir @ ''/'' @ filename in
        if regular_file_exists regular candidate
        then (candidate, notes @ [key @ '' not set, using '' @ candidate @ '' (auto-detected)''])
        else resolve_db_slot regular field key filename dirs notes)"

definition apply_default_db_paths ::
  "(string \<Rightarrow> bool) \<Rightarrow> string list \<Rightarrow> Config \<Rightarrow> string list \<Rightarrow> Config \<times> string list" where
  "apply_default_db_paths regular dirs cfg notes =
     (let (city, notes1) = resolve_db_slot regular (city_db cfg) ''city_db'' ''GeoLite2-City.mmdb'' dirs notes;
          (asn, notes2) = resolve_db_slot regular (asn_db cfg) ''asn_db'' ''GeoLite2-ASN.mmdb'' dirs notes1;
          cfg' = cfg\<lparr>city_db := city, asn_db := asn\<rparr>
      in if city_db cfg' \<noteq> [] then
           (cfg', notes2 @ (if country_db cfg' = [] then
              [''country_db not set, skipping auto-detect: city_db already supplies country/continent data'']
              else []))
         else
           let (country, notes3) =
             resolve_db_slot regular (country_db cfg') ''country_db'' ''GeoLite2-Country.mmdb'' dirs notes2
           in (cfg'\<lparr>country_db := country\<rparr>, notes3))"

section \<open>Trimming\<close>

definition rtrim :: "string \<Rightarrow> string" where
  "rtrim s = rev (dropWhile isspace (rev s))"

lemma trim_rtrim: "trim s = rtrim (dropWhile isspace s)"
  by (simp add: trim_def rtrim_def)

lemma rtrim_Cons: "\<not> isspace c \<Longrightarrow> rtrim (a @ c # s) = a @ c # rtrim s"
  by (simp add: rtrim_def dropWhile_append)

lemma rtrim_rtrim [simp]: "rtrim (rtrim s) = rtrim s"
  by (simp add: rtrim_def)

lemma rtrim_id: "list_all (\<lambda>c. \<not> isspace c) s \<Longrightarrow> rtrim s = s"
  by (cases s rule: rev_cases) (auto simp: rtrim_def)

lemma rtrim_spaces: "list_all isspace w \<Longrightarrow> rtrim (s @ w) = rtrim s"
  by (simp add: rtrim_def list_all_iff dropWhile_append)

lemma dropWhile_rtrim_commute: "dropWhile isspace (rtrim s) = rtrim (dropWhile isspace s)"
proof (induction s)
  case Nil
  then show ?case by (simp add: rtrim_def)
next
  case (Cons c s)
  show ?case
  proof (cases "isspace c")
    case True
    then have "rtrim (c # s) = (if rtrim s = [] then [] else c # rtrim s)"
      by (auto simp: rtrim_def dropWhile_append)
    with True Cons show ?thesis by (auto simp: rtrim_def dest: set_dropWhileD)
  next
    case False
    then show ?thesis using rtrim_Cons [of c "[]" s] by simp
  qed
qed

lemma trim_of_rtrim [simp]: "trim (rtrim s) = trim s"
  by (simp add: trim_rtrim dropWhile_rtrim_commute)

lemma trim_no_space: "list_all (\<lambda>c. \<not> isspace c) s \<Longrightarrow> trim s = s"
  by (cases s) (auto simp: trim_rtrim rtrim_id)

lemma trim_idem: "trim (trim s) = trim s"
proof -
  have "dropWhile isspace (trim s) = trim s"
    by (simp add: trim_rtrim dropWhile_rtrim_commute)
  then show ?thesis by (simp add: trim_rtrim)
qed

section \<open>Numbers\<close>

lemma base_value_snoc: "base_value b (s @ [c]) = b * base_value b s + (byte c - 48)"
  by (simp add: base_value_def)

lemma nat_base_digits:
  assumes "2 \<le> b" "b \<le> 10"
  shows "nat_base b n \<noteq> [] \<and> list_all (base_digit b) (nat_base b n) \<and> base_value b (nat_base b n) = n"
proof (induction n rule: less_induct)
  case (less n)
  show ?case
  proof (cases "n < b")
    case True
    with assms show ?thesis
      by (subst (1 2 3) nat_base.simps) (simp add: base_digit_def base_value_def byte_digit_char)
  next
    case False
    with assms have *: "nat_base b n = nat_base b (n div b) @ [digit_char (n mod b)]"
      by (subst nat_base.simps) simp
    have "n mod b < b" "n mod b < 10" using assms by (auto intro: order.strict_trans2 [OF mod_less_divisor])
    then have d: "byte (digit_char (n mod b)) = 48 + n mod b" by (simp add: byte_digit_char)
    from False assms have "n div b < n" by (intro div_less_dividend) auto
    with less d \<open>n mod b < b\<close> show ?thesis by (simp add: * base_value_snoc base_digit_def)
  qed
qed

lemma base_digit_plain:
  "b \<le> 10 \<Longrightarrow> base_digit b c \<Longrightarrow> \<not> isspace c \<and> c \<noteq> NUL \<and> c \<noteq> LF \<and> c \<noteq> CHR ''-'' \<and> c \<noteq> CHR ''+''"
  by (auto simp: base_digit_def isspace_def)

lemma strtol_digits:
  assumes "b \<le> 10" "ds \<noteq> []" "list_all (base_digit b) ds" "int (base_value b ds) \<le> 2 ^ 63 - 1"
  shows "strtol b ds = (int (base_value b ds), [], False)"
proof -
  obtain c cs where ds: "ds = c # cs" using assms(2) by (cases ds) auto
  with assms have c: "\<not> isspace c \<and> c \<noteq> CHR ''-'' \<and> c \<noteq> CHR ''+''"
    using base_digit_plain [of b c] by simp
  have w: "takeWhile (base_digit b) ds = ds" "dropWhile (base_digit b) ds = []"
    using assms(3) by (auto simp: list_all_iff takeWhile_eq_all_conv)
  have "strtol_sign (dropWhile isspace ds) = (False, ds)"
    using c by (simp add: ds strtol_sign_def)
  with assms(2,4) show ?thesis by (simp add: strtol_def Let_def w)
qed

lemma parse_long_digits:
  assumes "b \<le> 10" "ds \<noteq> []" "list_all (base_digit b) ds" "int (base_value b ds) \<le> 2 ^ 63 - 1"
  shows "parse_long ds b = Some (int (base_value b ds))"
proof -
  have "NUL \<notin> set ds" using assms(1,3) base_digit_plain by (auto simp: list_all_iff)
  with assms show ?thesis by (simp add: parse_long_def strtol_digits)
qed

lemma parse_ranged_nat_base:
  assumes "2 \<le> b" "b \<le> 10" "0 \<le> lo" "lo \<le> int n" "int n \<le> hi" "hi \<le> 2 ^ 63 - 1"
  shows "parse_ranged b lo hi (nat_base b n) = Some (int n)"
proof -
  have "parse_long (nat_base b n) b = Some (int n)"
    using nat_base_digits [OF assms(1,2), of n] assms parse_long_digits [of b "nat_base b n"] by simp
  with assms show ?thesis by (simp add: parse_ranged_def)
qed

lemma parse_ranged_range: "parse_ranged b lo hi s = Some v \<Longrightarrow> lo \<le> v \<and> v \<le> hi"
  by (auto simp: parse_ranged_def split: option.splits if_splits)

lemma nat_base_no_space:
  assumes "2 \<le> b" "b \<le> 10"
  shows "list_all (\<lambda>c. \<not> isspace c) (nat_base b n)" "LF \<notin> set (nat_base b n)"
  using nat_base_digits [OF assms, of n] base_digit_plain [OF assms(2)] by (auto simp: list_all_iff)

text \<open>
  What a numeric setting may look like: white space, a sign, and digits to the end of the C string, with the value the
  digits denote in the base.
\<close>

definition numeral_of :: "nat \<Rightarrow> string \<Rightarrow> int \<Rightarrow> bool" where
  "numeral_of b s n \<longleftrightarrow> (\<exists>w sg ds. c_str s = w @ sg @ ds \<and> list_all isspace w \<and> sg \<in> {[], ''+'', ''-''} \<and> ds \<noteq> []
     \<and> (\<forall>c \<in> set ds. 48 \<le> byte c \<and> byte c < 48 + b)
     \<and> n = (if sg = ''-'' then - 1 else 1) * int (horner_sum (\<lambda>c. byte c - 48) b (rev ds)))"

lemma base_value_horner: "base_value b ds = horner_sum (\<lambda>c. byte c - 48) b (rev ds)"
  by (simp add: base_value_def horner_sum_foldr foldr_conv_foldl add.commute)

lemma strtol_sign_split:
  assumes "sg \<in> {[], ''+'', ''-''}" "ds \<noteq> []" "\<forall>c \<in> set ds. base_digit b c"
  shows "dropWhile isspace (sg @ ds) = sg @ ds" "strtol_sign (sg @ ds) = (sg = ''-'', ds)"
proof -
  obtain c cs where ds: "ds = c # cs" using assms(2) by (cases ds) auto
  with assms(3) have "48 \<le> byte c" by (simp add: base_digit_def)
  then have "\<not> isspace c" "c \<noteq> CHR ''+''" "c \<noteq> CHR ''-''" by (auto simp: isspace_def)
  with assms(1) show "dropWhile isspace (sg @ ds) = sg @ ds" "strtol_sign (sg @ ds) = (sg = ''-'', ds)"
    by (auto simp: ds isspace_def strtol_sign_def)
qed

lemma parse_long_numeral:
  assumes "- (2 ^ 63) \<le> n" "n \<le> 2 ^ 63 - 1"
  shows "parse_long s b = Some n \<longleftrightarrow> numeral_of b s n"
proof
  assume "numeral_of b s n"
  then obtain w sg ds where d: "c_str s = w @ sg @ ds" "list_all isspace w" "sg \<in> {[], ''+'', ''-''}" "ds \<noteq> []"
    "\<forall>c \<in> set ds. base_digit b c" "n = (if sg = ''-'' then - 1 else 1) * int (base_value b ds)"
    unfolding numeral_of_def base_value_horner base_digit_def by blast
  have "dropWhile isspace (c_str s) = sg @ ds"
    using d(1,2) strtol_sign_split(1) [OF d(3-5)] by (simp add: list_all_iff)
  moreover have w: "takeWhile (base_digit b) ds = ds" "dropWhile (base_digit b) ds = []"
    using d(5) by (simp_all add: takeWhile_eq_all_conv)
  ultimately have "strtol b (c_str s) = (n, [], False)"
    using d(4,6) assms strtol_sign_split(2) [OF d(3-5)] by (auto simp: strtol_def Let_def w split: if_splits)
  moreover have "s \<noteq> []" "c_str s \<noteq> []" using d(1,4) by (auto simp: c_str_def)
  ultimately show "parse_long s b = Some n" by (simp add: parse_long_def)
next
  assume p: "parse_long s b = Some n"
  obtain neg r where r: "strtol_sign (dropWhile isspace (c_str s)) = (neg, r)" by force
  let ?ds = "takeWhile (base_digit b) r" and ?v = "(if neg then - 1 else 1) * int (base_value b (takeWhile (base_digit b) r))"
  from p r have ds: "?ds \<noteq> []" "dropWhile (base_digit b) r = []" "n = ?v"
    by (auto simp: parse_long_def strtol_def Let_def split: if_splits)
  then have r_digits: "?ds = r" "\<forall>c \<in> set r. base_digit b c" by (auto simp: takeWhile_eq_all_conv)
  have "\<exists>sg \<in> {[], ''+'', ''-''}. dropWhile isspace (c_str s) = sg @ r \<and> neg = (sg = ''-'')"
    using r by (auto simp: strtol_sign_def split: list.splits if_splits)
  then obtain sg where sg: "sg \<in> {[], ''+'', ''-''}" "dropWhile isspace (c_str s) = sg @ r" "neg = (sg = ''-'')" by blast
  then have "c_str s = takeWhile isspace (c_str s) @ sg @ r" by (metis takeWhile_dropWhile_id)
  moreover have "list_all isspace (takeWhile isspace (c_str s))" by (auto simp: list_all_iff dest: set_takeWhileD)
  ultimately show "numeral_of b s n"
    unfolding numeral_of_def base_value_horner [symmetric] base_digit_def [symmetric]
    using sg ds r_digits by (intro exI [of _ "takeWhile isspace (c_str s)"] exI [of _ sg] exI [of _ r]) simp
qed

lemma parse_ranged_numeral:
  assumes "- (2 ^ 63) \<le> lo" "hi \<le> 2 ^ 63 - 1"
  shows "parse_ranged b lo hi s = Some n \<longleftrightarrow> numeral_of b s n \<and> lo \<le> n \<and> n \<le> hi"
proof (cases "lo \<le> n \<and> n \<le> hi")
  case True
  with assms have "parse_long s b = Some n \<longleftrightarrow> numeral_of b s n" by (intro parse_long_numeral) simp_all
  with True show ?thesis by (auto simp: parse_ranged_def split: option.splits)
next
  case False
  then show ?thesis by (auto dest: parse_ranged_range)
qed

lemma parse_bool_word:
  "parse_bool s = Some v \<longleftrightarrow> map tolower s \<in> (if v then {''1'', ''true'', ''yes'', ''on''} else {''0'', ''false'', ''no'', ''off''})"
  by (auto simp: parse_bool_def Let_def)

section \<open>The invariant of a configuration\<close>

definition config_valid :: "Config \<Rightarrow> bool" where
  "config_valid c \<longleftrightarrow> socket_mode c \<le> 4095 \<and> 1 \<le> threads c \<and> threads c \<le> 256
     \<and> 256 \<le> max_request_bytes c \<and> max_request_bytes c \<le> 1048576
     \<and> 0 \<le> tcp_port c \<and> tcp_port c \<le> 65535
     \<and> 1 \<le> metrics_interval_seconds c \<and> metrics_interval_seconds c \<le> 86400"

lemma default_thread_count_bounds: "4 \<le> default_thread_count n \<and> default_thread_count n \<le> 20"
  by (simp add: default_thread_count_def Let_def)

lemma default_config_valid: "config_valid (default_config n)"
  using default_thread_count_bounds [of n] by (simp add: config_valid_def default_config_def)

lemma apply_key_valid:
  assumes "config_valid cfg" "apply_key key value cfg = Accepted c"
  shows "config_valid c"
  using assms
  by (auto simp: apply_key_def config_valid_def accept_value_def parse_port_def
      dest!: parse_ranged_range split: if_splits option.splits)

lemma config_line_valid:
  "config_line line cfg = Inr (cfg', ws) \<Longrightarrow> config_valid cfg \<Longrightarrow> config_valid cfg'"
  by (auto simp: config_line_def Let_def intro: apply_key_valid
      split: if_splits option.splits key_result.splits)

lemma load_lines_valid: "config_valid cfg \<Longrightarrow> config_valid (fst (snd (load_lines path n ls cfg ws)))"
  by (induction ls arbitrary: n cfg ws) (auto dest: config_line_valid split: sum.split prod.split)

lemma load_config_valid: "config_valid cfg \<Longrightarrow> config_valid (fst (snd (load_config path content cfg ws)))"
  by (simp add: load_config_def load_lines_valid split: option.split)

text \<open>The stages of \<^verbatim>\<open>apply_env_overrides\<close> in closed form.\<close>

definition apply_opt :: "'a option \<Rightarrow> ('a \<Rightarrow> Config \<Rightarrow> Config) \<Rightarrow> Config \<Rightarrow> Config" where
  "apply_opt v upd c = (case v of None \<Rightarrow> c | Some x \<Rightarrow> upd x c)"

definition env_checked :: "getenv_fun \<Rightarrow> string \<Rightarrow> (string \<Rightarrow> 'a option) \<Rightarrow> bool" where
  "env_checked env name parse \<longleftrightarrow> env name = None \<or> Option.bind (env name) parse \<noteq> None"

lemma and_then_None:
  "and_then f g c = (None, c') \<longleftrightarrow> (\<exists>c1. f c = (None, c1) \<and> g c1 = (None, c'))"
  by (auto simp: and_then_def split: prod.splits option.splits)

lemma env_set_None: "env_set env name upd c = (None, c') \<longleftrightarrow> c' = apply_opt (env name) upd c"
  by (auto simp: env_set_def apply_opt_def split: option.splits)

lemma env_parse_None:
  "env_parse env name parse e upd c = (None, c') \<longleftrightarrow>
     env_checked env name parse \<and> c' = apply_opt (Option.bind (env name) parse) upd c"
  by (auto simp: env_parse_def apply_opt_def env_checked_def split: option.splits)

text \<open>What a variable contributes to its field.\<close>

definition override :: "'a \<Rightarrow> 'a option \<Rightarrow> 'a" where
  "override old v = (case v of None \<Rightarrow> old | Some x \<Rightarrow> x)"

definition env_or :: "getenv_fun \<Rightarrow> string \<Rightarrow> (string \<Rightarrow> 'a option) \<Rightarrow> 'a \<Rightarrow> 'a" where
  "env_or env name parse old = override old (Option.bind (env name) parse)"

definition env_accepted :: "getenv_fun \<Rightarrow> bool" where
  "env_accepted env \<longleftrightarrow> env_checked env ''NSHGEOIP_SOCKET_MODE'' (parse_ranged 8 0 4095)
     \<and> env_checked env ''NSHGEOIP_THREADS'' (parse_ranged 10 1 256)
     \<and> env_checked env ''NSHGEOIP_MAX_REQUEST_BYTES'' (parse_ranged 10 256 1048576)
     \<and> env_checked env ''NSHGEOIP_DEBUG_LOG'' parse_bool
     \<and> env_checked env ''NSHGEOIP_TCP_PORT'' parse_port
     \<and> env_checked env ''NSHGEOIP_METRICS_INTERVAL_SECONDS'' (parse_ranged 10 1 86400)"

definition env_config :: "getenv_fun \<Rightarrow> Config \<Rightarrow> Config" where
  "env_config env c = \<lparr>
     country_db = env_or env ''NSHGEOIP_COUNTRY_DB'' Some (country_db c),
     asn_db = env_or env ''NSHGEOIP_ASN_DB'' Some (asn_db c),
     city_db = env_or env ''NSHGEOIP_CITY_DB'' Some (city_db c),
     socket_path = env_or env ''NSHGEOIP_SOCKET'' Some (socket_path c),
     socket_mode = nat (env_or env ''NSHGEOIP_SOCKET_MODE'' (parse_ranged 8 0 4095) (int (socket_mode c))),
     threads = env_or env ''NSHGEOIP_THREADS'' (parse_ranged 10 1 256) (threads c),
     max_request_bytes = nat (env_or env ''NSHGEOIP_MAX_REQUEST_BYTES'' (parse_ranged 10 256 1048576)
       (int (max_request_bytes c))),
     debug_log = env_or env ''NSHGEOIP_DEBUG_LOG'' parse_bool (debug_log c),
     tcp_port = env_or env ''NSHGEOIP_TCP_PORT'' parse_port (tcp_port c),
     tcp_address = env_or env ''NSHGEOIP_TCP_ADDRESS'' Some (tcp_address c),
     metrics_file = env_or env ''NSHGEOIP_METRICS_FILE'' Some (metrics_file c),
     metrics_interval_seconds = env_or env ''NSHGEOIP_METRICS_INTERVAL_SECONDS'' (parse_ranged 10 1 86400)
       (metrics_interval_seconds c)\<rparr>"

lemma apply_opt_upd:
  "apply_opt v (\<lambda>x. country_db_update (\<lambda>_. x)) c = c\<lparr>country_db := override (country_db c) v\<rparr>"
  "apply_opt v (\<lambda>x. asn_db_update (\<lambda>_. x)) c = c\<lparr>asn_db := override (asn_db c) v\<rparr>"
  "apply_opt v (\<lambda>x. city_db_update (\<lambda>_. x)) c = c\<lparr>city_db := override (city_db c) v\<rparr>"
  "apply_opt v (\<lambda>x. socket_path_update (\<lambda>_. x)) c = c\<lparr>socket_path := override (socket_path c) v\<rparr>"
  "apply_opt i (\<lambda>x. socket_mode_update (\<lambda>_. nat x)) c =
     c\<lparr>socket_mode := nat (override (int (socket_mode c)) i)\<rparr>"
  "apply_opt i (\<lambda>x. threads_update (\<lambda>_. x)) c = c\<lparr>threads := override (threads c) i\<rparr>"
  "apply_opt i (\<lambda>x. max_request_bytes_update (\<lambda>_. nat x)) c =
     c\<lparr>max_request_bytes := nat (override (int (max_request_bytes c)) i)\<rparr>"
  "apply_opt b (\<lambda>x. debug_log_update (\<lambda>_. x)) c = c\<lparr>debug_log := override (debug_log c) b\<rparr>"
  "apply_opt i (\<lambda>x. tcp_port_update (\<lambda>_. x)) c = c\<lparr>tcp_port := override (tcp_port c) i\<rparr>"
  "apply_opt v (\<lambda>x. tcp_address_update (\<lambda>_. x)) c = c\<lparr>tcp_address := override (tcp_address c) v\<rparr>"
  "apply_opt v (\<lambda>x. metrics_file_update (\<lambda>_. x)) c = c\<lparr>metrics_file := override (metrics_file c) v\<rparr>"
  "apply_opt i (\<lambda>x. metrics_interval_seconds_update (\<lambda>_. x)) c =
     c\<lparr>metrics_interval_seconds := override (metrics_interval_seconds c) i\<rparr>"
  by (simp_all add: apply_opt_def override_def split: option.split)

lemma bind_Some_right [simp]: "Option.bind v Some = v"
  by (cases v) auto

lemma apply_env_overrides_closed:
  "apply_env_overrides env c = (None, c') \<longleftrightarrow> env_accepted env \<and> c' = env_config env c"
proof -
  have "apply_env_overrides env c = (None, c') \<longleftrightarrow> env_accepted env \<and>
    c' = apply_opt (Option.bind (env ''NSHGEOIP_METRICS_INTERVAL_SECONDS'') (parse_ranged 10 1 86400))
      (\<lambda>v. metrics_interval_seconds_update (\<lambda>_. v))
     (apply_opt (env ''NSHGEOIP_METRICS_FILE'') (\<lambda>v. metrics_file_update (\<lambda>_. v))
     (apply_opt (env ''NSHGEOIP_TCP_ADDRESS'') (\<lambda>v. tcp_address_update (\<lambda>_. v))
     (apply_opt (Option.bind (env ''NSHGEOIP_TCP_PORT'') parse_port) (\<lambda>v. tcp_port_update (\<lambda>_. v))
     (apply_opt (Option.bind (env ''NSHGEOIP_DEBUG_LOG'') parse_bool) (\<lambda>v. debug_log_update (\<lambda>_. v))
     (apply_opt (Option.bind (env ''NSHGEOIP_MAX_REQUEST_BYTES'') (parse_ranged 10 256 1048576))
        (\<lambda>v. max_request_bytes_update (\<lambda>_. nat v))
     (apply_opt (Option.bind (env ''NSHGEOIP_THREADS'') (parse_ranged 10 1 256)) (\<lambda>v. threads_update (\<lambda>_. v))
     (apply_opt (Option.bind (env ''NSHGEOIP_SOCKET_MODE'') (parse_ranged 8 0 4095))
        (\<lambda>v. socket_mode_update (\<lambda>_. nat v))
     (apply_opt (env ''NSHGEOIP_SOCKET'') (\<lambda>v. socket_path_update (\<lambda>_. v))
     (apply_opt (env ''NSHGEOIP_CITY_DB'') (\<lambda>v. city_db_update (\<lambda>_. v))
     (apply_opt (env ''NSHGEOIP_ASN_DB'') (\<lambda>v. asn_db_update (\<lambda>_. v))
     (apply_opt (env ''NSHGEOIP_COUNTRY_DB'') (\<lambda>v. country_db_update (\<lambda>_. v)) c)))))))))))"
    unfolding apply_env_overrides_def run_stages.simps and_then_None env_set_None env_parse_None
      env_accepted_def
    by auto
  then show ?thesis
    by (cases c) (simp add: apply_opt_upd env_config_def env_or_def)
qed

text \<open>The same, variable by variable, without the parsers: what the new value of a field may be.\<close>

definition env_string :: "getenv_fun \<Rightarrow> string \<Rightarrow> string \<Rightarrow> string \<Rightarrow> bool" where
  "env_string env name old new \<longleftrightarrow> new = (case env name of None \<Rightarrow> old | Some s \<Rightarrow> s)"

definition env_number :: "getenv_fun \<Rightarrow> string \<Rightarrow> nat \<Rightarrow> int \<Rightarrow> int \<Rightarrow> int \<Rightarrow> int \<Rightarrow> bool" where
  "env_number env name b lo hi old new \<longleftrightarrow>
     (case env name of None \<Rightarrow> new = old | Some s \<Rightarrow> numeral_of b s new \<and> lo \<le> new \<and> new \<le> hi)"

definition env_flag :: "getenv_fun \<Rightarrow> string \<Rightarrow> bool \<Rightarrow> bool \<Rightarrow> bool" where
  "env_flag env name old new \<longleftrightarrow>
     (case env name of
        None \<Rightarrow> new = old
      | Some s \<Rightarrow> map tolower s \<in> (if new then {''1'', ''true'', ''yes'', ''on''} else {''0'', ''false'', ''no'', ''off''}))"

lemma env_string_or: "env_string env name old new \<longleftrightarrow> new = env_or env name Some old"
  by (simp add: env_string_def env_or_def override_def split: option.split)

lemma env_checked_or:
  "env_checked env name parse \<and> new = env_or env name parse old \<longleftrightarrow>
     (case env name of None \<Rightarrow> new = old | Some s \<Rightarrow> parse s = Some new)"
  by (auto simp: env_checked_def env_or_def override_def split: option.split)

lemma env_number_or:
  assumes "- (2 ^ 63) \<le> lo" "hi \<le> 2 ^ 63 - 1"
  shows "env_number env name b lo hi old new \<longleftrightarrow>
    env_checked env name (parse_ranged b lo hi) \<and> new = env_or env name (parse_ranged b lo hi) old"
  unfolding env_checked_or by (simp add: env_number_def parse_ranged_numeral [OF assms] split: option.split)

lemma env_flag_or: "env_flag env name old new \<longleftrightarrow> env_checked env name parse_bool \<and> new = env_or env name parse_bool old"
  unfolding env_checked_or by (simp add: env_flag_def parse_bool_word split: option.split)

lemma env_or_keeps: "P old \<Longrightarrow> (\<And>s v. parse s = Some v \<Longrightarrow> P v) \<Longrightarrow> P (env_or env name parse old)"
  by (auto simp: env_or_def override_def bind_eq_Some_conv split: option.split)

lemma env_config_valid: "config_valid c \<Longrightarrow> config_valid (env_config env c)"
proof -
  assume c: "config_valid c"
  have keeps: "lo \<le> env_or env n (parse_ranged b lo hi) old \<and> env_or env n (parse_ranged b lo hi) old \<le> hi"
    if "lo \<le> old \<and> old \<le> hi" for b lo hi old n
    by (rule env_or_keeps [where P = "\<lambda>v. lo \<le> v \<and> v \<le> hi", OF that]) (rule parse_ranged_range)
  have port: "0 \<le> env_or env n parse_port old \<and> env_or env n parse_port old \<le> 65535"
    if "0 \<le> old \<and> old \<le> 65535" for old n
    by (rule env_or_keeps [where P = "\<lambda>v. 0 \<le> v \<and> v \<le> 65535", OF that])
      (auto simp: parse_port_def dest: parse_ranged_range)
  show ?thesis
    using c keeps [of 0 "int (socket_mode c)" 4095 "''NSHGEOIP_SOCKET_MODE''" 8]
      keeps [of 1 "threads c" 256 "''NSHGEOIP_THREADS''" 10]
      keeps [of 256 "int (max_request_bytes c)" 1048576 "''NSHGEOIP_MAX_REQUEST_BYTES''" 10]
      keeps [of 1 "metrics_interval_seconds c" 86400 "''NSHGEOIP_METRICS_INTERVAL_SECONDS''" 10]
      port [of "tcp_port c" "''NSHGEOIP_TCP_PORT''"]
    by (simp add: config_valid_def env_config_def nat_le_iff le_nat_iff)
qed

section \<open>Default database paths\<close>

text \<open>The specification: the first directory that holds the file, if the slot is empty.\<close>

definition first_match :: "(string \<Rightarrow> bool) \<Rightarrow> string list \<Rightarrow> string \<Rightarrow> string" where
  "first_match regular dirs filename =
     (case List.find (regular_file_exists regular) (map (\<lambda>d. d @ ''/'' @ filename) dirs) of
        None \<Rightarrow> [] | Some path \<Rightarrow> path)"

lemma resolve_db_slot_field:
  "fst (resolve_db_slot regular field key filename dirs ns) =
     (if field \<noteq> [] then field else first_match regular dirs filename)"
  by (induction regular field key filename dirs ns rule: resolve_db_slot.induct)
    (auto simp: first_match_def Let_def)

lemma resolve_db_slot_notes: "prefix ns (snd (resolve_db_slot regular field key filename dirs ns))"
  by (induction regular field key filename dirs ns rule: resolve_db_slot.induct) (auto simp: Let_def)

lemma apply_default_db_paths_fields:
  "fst (apply_default_db_paths regular dirs c ns) =
     (let city = (if city_db c \<noteq> [] then city_db c else first_match regular dirs ''GeoLite2-City.mmdb'') in
      c\<lparr>city_db := city,
        asn_db := if asn_db c \<noteq> [] then asn_db c else first_match regular dirs ''GeoLite2-ASN.mmdb'',
        country_db := if country_db c = [] \<and> city = []
          then first_match regular dirs ''GeoLite2-Country.mmdb'' else country_db c\<rparr>)"
  by (cases c) (simp add: apply_default_db_paths_def Let_def case_prod_unfold resolve_db_slot_field)

lemma apply_default_db_paths_valid:
  "config_valid c \<Longrightarrow> config_valid (fst (apply_default_db_paths regular dirs c ns))"
  by (simp add: apply_default_db_paths_fields config_valid_def Let_def)

section \<open>Settings\<close>

text \<open>
  The interface between the file format and a setting: how its key dispatches, and that what is
  printed for an admissible value is read back.  The lemmas on assignment lines are proved once and
  hold for each of the twelve keys.
\<close>

definition key_text :: "string \<Rightarrow> bool" where
  "key_text k \<longleftrightarrow> k \<noteq> [] \<and> list_all (\<lambda>c. \<not> isspace c \<and> c \<noteq> CHR ''='' \<and> c \<noteq> CHR ''#'') k"

lemma trim_assignment:
  assumes "key_text k" "list_all isspace w1"
  shows "trim (w1 @ k @ w2 @ CHR ''='' # s) = k @ w2 @ CHR ''='' # rtrim s"
proof -
  obtain c cs where k: "k = c # cs" "\<not> isspace c" using assms(1) by (cases k) (auto simp: key_text_def)
  have "dropWhile isspace (w1 @ k @ w2 @ CHR ''='' # s) = k @ w2 @ CHR ''='' # s"
    using assms(2) k by (simp add: list_all_iff dropWhile_append)
  moreover have "\<not> isspace (CHR ''='')" by (simp add: isspace_def)
  ultimately show ?thesis using rtrim_Cons [of "CHR ''=''" "k @ w2" s] by (simp add: trim_rtrim)
qed

lemma config_line_assignment:
  assumes "key_text k" "list_all isspace w1" "list_all isspace w2"
  shows "config_line (w1 @ k @ w2 @ CHR ''='' # s) cfg =
    (case apply_key k (trim s) cfg of
       Accepted cfg' \<Rightarrow> Inr (cfg', [])
     | Rejected msg \<Rightarrow> Inl msg
     | UnknownKey \<Rightarrow> Inr (cfg, [''unknown config key '' @ [APOS] @ k @ [APOS]]))"
proof -
  let ?e = "CHR ''=''"
  have "?e \<notin> set k" "?e \<notin> set w2" "k \<noteq> []" "hd k \<noteq> CHR ''#''"
    using assms by (auto simp: key_text_def list_all_iff isspace_def)
  moreover have "find_char ?e (k @ w2 @ ?e # rtrim s) = Some (length (k @ w2))"
    using calculation by (auto simp: find_char_split intro: exI [of _ "k @ w2"])
  moreover have "trim (k @ w2) = k"
  proof -
    have "list_all (\<lambda>c. \<not> isspace c) k" using assms(1) by (auto simp: key_text_def list_all_iff)
    moreover have "dropWhile isspace (k @ w2) = k @ w2"
      using calculation \<open>k \<noteq> []\<close> by (cases k) auto
    ultimately show ?thesis by (simp add: trim_rtrim rtrim_spaces [OF assms(3)] rtrim_id)
  qed
  ultimately show ?thesis
    by (simp add: config_line_def trim_assignment [OF assms(1,2)] Let_def substr_from_def)
qed

locale setting =
  fixes key :: string
    and msg :: string
    and parse :: "string \<Rightarrow> 'a option"
    and print :: "'a \<Rightarrow> string"
    and upd :: "'a \<Rightarrow> Config \<Rightarrow> Config"
    and ok :: "'a \<Rightarrow> bool"
  assumes key_plain: "key_text key"
    and dispatch: "apply_key key s cfg = accept_value (parse s) msg (\<lambda>v. upd v cfg)"
    and parse_print: "ok v \<Longrightarrow> parse (trim (print v)) = Some v"
    and print_line: "ok v \<Longrightarrow> LF \<notin> set (print v)"
begin

definition line :: "'a \<Rightarrow> string" where
  "line v = key @ CHR ''='' # print v"

lemma assign_line:
  assumes "list_all isspace w1" "list_all isspace w2"
  shows "config_line (w1 @ key @ w2 @ CHR ''='' # s) cfg =
    (case parse (trim s) of None \<Rightarrow> Inl msg | Some v \<Rightarrow> Inr (upd v cfg, []))"
  by (simp add: config_line_assignment [OF key_plain assms] dispatch accept_value_def split: option.split)

lemma print_read: "ok v \<Longrightarrow> config_line (line v) cfg = Inr (upd v cfg, [])"
  using assign_line [of "[]" "[]"] by (simp add: line_def parse_print)

lemma line_no_LF:
  assumes "ok v"
  shows "LF \<notin> set (line v)"
proof -
  have "isspace LF" by (simp add: isspace_def)
  then have "LF \<notin> set key" using key_plain by (auto simp only: key_text_def list_all_iff)
  with print_line [OF assms] show ?thesis by (simp add: line_def)
qed

end

text \<open>Printed forms: a path or address must survive \<open>trim\<close> and stay on its line.\<close>

definition text_value :: "string \<Rightarrow> bool" where
  "text_value s \<longleftrightarrow> trim s = s \<and> LF \<notin> set s"

definition print_bool :: "bool \<Rightarrow> string" where
  "print_bool b = (if b then ''true'' else ''false'')"

definition in_range :: "int \<Rightarrow> int \<Rightarrow> int \<Rightarrow> bool" where
  "in_range lo hi v \<longleftrightarrow> lo \<le> v \<and> v \<le> hi"

definition print_base :: "nat \<Rightarrow> int \<Rightarrow> string" where
  "print_base b v = nat_base b (nat v)"

lemma print_base_reads:
  assumes "2 \<le> b" "b \<le> 10" "0 \<le> lo" "hi \<le> 2 ^ 63 - 1" "in_range lo hi v"
  shows "parse_ranged b lo hi (trim (print_base b v)) = Some v"
  using assms parse_ranged_nat_base [of b lo "nat v" hi] nat_base_no_space [of b "nat v"]
  by (simp add: print_base_def in_range_def trim_no_space)

lemma print_base_line: "2 \<le> b \<Longrightarrow> b \<le> 10 \<Longrightarrow> LF \<notin> set (print_base b v)"
  by (simp add: print_base_def nat_base_no_space)

lemma print_bool_reads: "parse_bool (trim (print_bool b)) = Some b" "LF \<notin> set (print_bool b)"
proof -
  have t: "map tolower ''true'' = ''true''" "map tolower ''false'' = ''false''" by code_simp+
  have "trim (print_bool b) = print_bool b"
    by (rule trim_no_space) (simp add: print_bool_def isspace_def)
  with t show "parse_bool (trim (print_bool b)) = Some b"
    by (simp add: parse_bool_def print_bool_def Let_def del: list.map)
  show "LF \<notin> set (print_bool b)" by (simp add: print_bool_def)
qed

lemmas setting_intros = print_base_reads print_base_line print_bool_reads

interpretation country: setting "''country_db''" "[]" Some id "\<lambda>v. country_db_update (\<lambda>_. v)" text_value
  by unfold_locales (simp_all add: key_text_def isspace_def apply_key_def accept_value_def text_value_def)

interpretation asn: setting "''asn_db''" "[]" Some id "\<lambda>v. asn_db_update (\<lambda>_. v)" text_value
  by unfold_locales (simp_all add: key_text_def isspace_def apply_key_def accept_value_def text_value_def)

interpretation city: setting "''city_db''" "[]" Some id "\<lambda>v. city_db_update (\<lambda>_. v)" text_value
  by unfold_locales (simp_all add: key_text_def isspace_def apply_key_def accept_value_def text_value_def)

interpretation socket: setting "''socket''" "[]" Some id "\<lambda>v. socket_path_update (\<lambda>_. v)" text_value
  by unfold_locales (simp_all add: key_text_def isspace_def apply_key_def accept_value_def text_value_def)

interpretation mode: setting "''socket_mode''" "''invalid socket_mode (expected octal, e.g. 0660)''"
  "parse_ranged 8 0 4095" "print_base 8" "\<lambda>v. socket_mode_update (\<lambda>_. nat v)" "in_range 0 4095"
  by unfold_locales (simp_all add: key_text_def isspace_def apply_key_def setting_intros)

interpretation workers: setting "''threads''" "''invalid threads (expected 1-256)''"
  "parse_ranged 10 1 256" "print_base 10" "\<lambda>v. threads_update (\<lambda>_. v)" "in_range 1 256"
  by unfold_locales (simp_all add: key_text_def isspace_def apply_key_def setting_intros)

interpretation bytes: setting "''max_request_bytes''" "''invalid max_request_bytes (expected 256-1048576)''"
  "parse_ranged 10 256 1048576" "print_base 10" "\<lambda>v. max_request_bytes_update (\<lambda>_. nat v)"
  "in_range 256 1048576"
  by unfold_locales (simp_all add: key_text_def isspace_def apply_key_def setting_intros)

interpretation debug: setting "''debug_log''" "''invalid debug_log (expected true/false)''"
  parse_bool print_bool "\<lambda>v. debug_log_update (\<lambda>_. v)" "\<lambda>_. True"
  by unfold_locales (simp_all add: key_text_def isspace_def apply_key_def setting_intros)

interpretation port: setting "''tcp_port''" "''invalid tcp_port (expected 1-65535)''"
  parse_port "print_base 10" "\<lambda>v. tcp_port_update (\<lambda>_. v)" "in_range 1 65535"
  by unfold_locales (simp_all add: key_text_def isspace_def apply_key_def parse_port_def setting_intros)

interpretation address: setting "''tcp_address''" "[]" Some id "\<lambda>v. tcp_address_update (\<lambda>_. v)" text_value
  by unfold_locales (simp_all add: key_text_def isspace_def apply_key_def accept_value_def text_value_def)

interpretation metrics: setting "''metrics_file''" "[]" Some id "\<lambda>v. metrics_file_update (\<lambda>_. v)" text_value
  by unfold_locales (simp_all add: key_text_def isspace_def apply_key_def accept_value_def text_value_def)

interpretation interval: setting "''metrics_interval_seconds''"
  "''invalid metrics_interval_seconds (expected 1-86400)''"
  "parse_ranged 10 1 86400" "print_base 10" "\<lambda>v. metrics_interval_seconds_update (\<lambda>_. v)"
  "in_range 1 86400"
  by unfold_locales (simp_all add: key_text_def isspace_def apply_key_def setting_intros)

section \<open>Whole files\<close>

lemma load_lines_append:
  "load_lines path n (ls1 @ ls2) cfg ws =
     (case load_lines path n ls1 cfg ws of
        (None, cfg', ws') \<Rightarrow> load_lines path (n + length ls1) ls2 cfg' ws'
      | (Some e, cfg', ws') \<Rightarrow> (Some e, cfg', ws'))"
  by (induction ls1 arbitrary: n cfg ws) (auto split: sum.split prod.split option.split)

lemma load_lines_error:
  "load_lines path n ls cfg ws = (Some e, cfg', ws') \<longleftrightarrow>
     (\<exists>pre line post msg. ls = pre @ line # post \<and> load_lines path n pre cfg ws = (None, cfg', ws')
        \<and> config_line line cfg' = Inl msg \<and> e = at_line path (n + length pre + 1) msg)"
    (is "?L ls n cfg ws \<longleftrightarrow> ?R ls n cfg ws")
proof
  show "?L ls n cfg ws \<Longrightarrow> ?R ls n cfg ws"
  proof (induction ls arbitrary: n cfg ws)
    case Nil
    then show ?case by simp
  next
    case (Cons l ls)
    show ?case
    proof (cases "config_line l cfg")
      case (Inl msg)
      with Cons.prems show ?thesis by (intro exI [of _ "[]"] exI [of _ l] exI [of _ ls] exI [of _ msg]) auto
    next
      case (Inr p)
      obtain c1 w1 where p: "p = (c1, w1)" by force
      with Cons.prems Inr
      have "load_lines path (n + 1) ls c1 (ws @ map (at_line path (n + 1)) w1) = (Some e, cfg', ws')" by simp
      from Cons.IH [OF this] obtain pre line post msg where
        "ls = pre @ line # post"
        "load_lines path (n + 1) pre c1 (ws @ map (at_line path (n + 1)) w1) = (None, cfg', ws')"
        "config_line line cfg' = Inl msg" "e = at_line path (n + 1 + length pre + 1) msg" by blast
      with Inr p show ?thesis
        by (intro exI [of _ "l # pre"] exI [of _ line] exI [of _ post] exI [of _ msg]) simp
    qed
  qed
  show "?R ls n cfg ws \<Longrightarrow> ?L ls n cfg ws"
    by (auto simp: load_lines_append)
qed

lemma getlines_terminated:
  "(\<forall>l \<in> set ls. LF \<notin> set l) \<Longrightarrow> getlines (concat (map (\<lambda>l. l @ [LF]) ls)) = ls"
  by (simp add: getlines_def split_on_terminated_lines)

text \<open>A text of lines, the last one terminated or not.\<close>

definition unlines :: "string list \<Rightarrow> string" where
  "unlines ls = concat (map (\<lambda>l. l @ [LF]) ls)"

lemma getlines_unlines:
  assumes "\<forall>l \<in> set (rest # ls). LF \<notin> set l"
  shows "getlines (unlines ls @ rest) = ls @ (if rest = [] then [] else [rest])"
proof -
  have "split_on LF rest = [rest]" using assms by simp
  moreover have "split_on LF (unlines ls @ rest) = ls @ split_on LF rest"
    using assms by (induction ls) (auto simp: unlines_def)
  ultimately show ?thesis by (simp add: getlines_def)
qed

section \<open>What is wrong with a line\<close>

text \<open>
  The specification of the error messages: a line is an assignment at its first equals sign; surrounding white space does not count.
\<close>

definition stripped :: "string \<Rightarrow> string" where
  "stripped s = rev (dropWhile isspace (rev (dropWhile isspace s)))"

definition setting_of :: "string \<Rightarrow> string \<times> string" where
  "setting_of line = (stripped (takeWhile (\<lambda>c. c \<noteq> CHR ''='') (stripped line)),
     stripped (tl (dropWhile (\<lambda>c. c \<noteq> CHR ''='') (stripped line))))"

definition number_in :: "nat \<Rightarrow> int \<Rightarrow> int \<Rightarrow> string \<Rightarrow> bool" where
  "number_in b lo hi s \<longleftrightarrow> (\<exists>n. numeral_of b s n \<and> lo \<le> n \<and> n \<le> hi)"

definition value_ok :: "string \<Rightarrow> string \<Rightarrow> bool" where
  "value_ok key v \<longleftrightarrow>
     (key = ''socket_mode'' \<longrightarrow> number_in 8 0 4095 v) \<and> (key = ''threads'' \<longrightarrow> number_in 10 1 256 v)
     \<and> (key = ''max_request_bytes'' \<longrightarrow> number_in 10 256 1048576 v) \<and> (key = ''tcp_port'' \<longrightarrow> number_in 10 1 65535 v)
     \<and> (key = ''metrics_interval_seconds'' \<longrightarrow> number_in 10 1 86400 v)
     \<and> (key = ''debug_log'' \<longrightarrow> map tolower v \<in> {''1'', ''true'', ''yes'', ''on'', ''0'', ''false'', ''no'', ''off''})"

definition expected_text :: "string \<Rightarrow> string" where
  "expected_text key =
     (if key = ''socket_mode'' then ''octal, e.g. 0660'' else if key = ''threads'' then ''1-256''
      else if key = ''max_request_bytes'' then ''256-1048576'' else if key = ''tcp_port'' then ''1-65535''
      else if key = ''debug_log'' then ''true/false'' else ''1-86400'')"

definition line_error :: "string \<Rightarrow> string option" where
  "line_error line =
     (if stripped line = [] \<or> hd (stripped line) = CHR ''#'' then None
      else if CHR ''='' \<notin> set (stripped line) then Some ''expected key=value''
      else case setting_of line of (key, v) \<Rightarrow>
        if value_ok key v then None else Some (''invalid '' @ key @ '' (expected '' @ expected_text key @ '')''))"

text \<open>The two forms of a port on which the documentation and the code disagree: 0, and a comment behind it.\<close>

definition disputed_port :: "string \<Rightarrow> bool" where
  "disputed_port line \<longleftrightarrow> fst (setting_of line) = ''tcp_port''
     \<and> (numeral_of 10 (snd (setting_of line)) 0 \<or> CHR ''#'' \<in> set (snd (setting_of line)))"

lemma number_in_parse:
  assumes "- (2 ^ 63) \<le> lo" "hi \<le> 2 ^ 63 - 1"
  shows "number_in b lo hi s \<longleftrightarrow> parse_ranged b lo hi s \<noteq> None"
  using parse_ranged_numeral [OF assms, of b s] by (auto simp: number_in_def)

lemma parse_bool_words:
  "parse_bool s \<noteq> None \<longleftrightarrow> map tolower s \<in> {''1'', ''true'', ''yes'', ''on'', ''0'', ''false'', ''no'', ''off''}"
  by (auto simp: parse_bool_def Let_def)

lemma accept_value_Rejected: "accept_value p msg upd = Rejected m \<longleftrightarrow> p = None \<and> m = msg"
  by (auto simp: accept_value_def split: option.split)

lemma apply_key_Rejected:
  "apply_key key v cfg = Rejected msg \<longleftrightarrow> \<not> value_ok key v \<and> msg = ''invalid '' @ key @ '' (expected '' @ expected_text key @ '')''"
  unfolding apply_key_def value_ok_def parse_bool_words [symmetric] parse_port_def
  by (auto simp: accept_value_Rejected number_in_parse expected_text_def)

lemma line_error_exact: "config_line line cfg = Inl msg \<longleftrightarrow> line_error line = Some msg"
proof (cases "find_char (CHR ''='') (trim line)")
  case None
  then show ?thesis by (auto simp: config_line_def line_error_def trim_def stripped_def Let_def)
next
  case (Some i)
  then obtain xs ys where t: "trim line = xs @ CHR ''='' # ys" "length xs = i" "CHR ''='' \<notin> set xs" by (auto simp: find_char_split)
  have st: "stripped = trim" by (rule ext) (simp add: stripped_def trim_def)
  have w: "takeWhile (\<lambda>c. c \<noteq> CHR ''='') (trim line) = xs" "dropWhile (\<lambda>c. c \<noteq> CHR ''='') (trim line) = CHR ''='' # ys"
    using t by (auto simp: takeWhile_append dropWhile_append)
  have "config_line line cfg = Inl msg \<longleftrightarrow> \<not> (trim line = [] \<or> hd (trim line) = CHR ''#'') \<and> apply_key (trim xs) (trim ys) cfg = Rejected msg"
    using Some t by (auto simp: config_line_def substr_from_def Let_def split: key_result.splits)
  moreover have "CHR ''='' \<in> set (trim line)" by (simp add: t)
  ultimately show ?thesis
    unfolding apply_key_Rejected line_error_def setting_of_def st w by auto
qed

lemma load_lines_accepts:
  "load_lines path n ls cfg ws = (None, cfg', ws') \<Longrightarrow> list_all (\<lambda>l. line_error l = None) ls"
proof (induction ls arbitrary: n cfg ws)
  case (Cons l ls)
  then have "config_line l cfg \<noteq> Inl msg" for msg by auto
  then have "line_error l = None" by (auto simp: line_error_exact simp flip: not_Some_eq)
  with Cons show ?case by (auto split: sum.splits prod.splits)
qed simp

text \<open>The file a configuration is written as; a port of 0 has no line, since the reader refuses it.\<close>

definition config_lines :: "Config \<Rightarrow> string list" where
  "config_lines c =
     [country.line (country_db c), asn.line (asn_db c), city.line (city_db c), socket.line (socket_path c),
      mode.line (int (socket_mode c)), workers.line (threads c), bytes.line (int (max_request_bytes c)),
      debug.line (debug_log c)]
     @ (if tcp_port c = 0 then [] else [port.line (tcp_port c)])
     @ [address.line (tcp_address c), metrics.line (metrics_file c),
        interval.line (metrics_interval_seconds c)]"

definition render_config :: "Config \<Rightarrow> string" where
  "render_config c = concat (map (\<lambda>l. l @ [LF]) (config_lines c))"

definition config_writable :: "Config \<Rightarrow> bool" where
  "config_writable c \<longleftrightarrow> config_valid c \<and> list_all text_value
     [country_db c, asn_db c, city_db c, socket_path c, tcp_address c, metrics_file c]"

lemmas setting_print_read = country.print_read asn.print_read city.print_read socket.print_read
  mode.print_read workers.print_read bytes.print_read debug.print_read port.print_read
  address.print_read metrics.print_read interval.print_read

lemmas setting_line_no_LF = country.line_no_LF asn.line_no_LF city.line_no_LF socket.line_no_LF
  mode.line_no_LF workers.line_no_LF bytes.line_no_LF debug.line_no_LF port.line_no_LF
  address.line_no_LF metrics.line_no_LF interval.line_no_LF

lemma writable_fields:
  assumes "config_writable c"
  shows "text_value (country_db c)" "text_value (asn_db c)" "text_value (city_db c)"
    "text_value (socket_path c)" "text_value (tcp_address c)" "text_value (metrics_file c)"
    "in_range 0 4095 (int (socket_mode c))" "in_range 1 256 (threads c)"
    "in_range 256 1048576 (int (max_request_bytes c))" "in_range 1 86400 (metrics_interval_seconds c)"
    "tcp_port c \<noteq> 0 \<Longrightarrow> in_range 1 65535 (tcp_port c)"
  using assms by (auto simp: config_writable_def config_valid_def in_range_def)

lemma config_lines_no_LF:
  assumes "config_writable c"
  shows "\<forall>l \<in> set (config_lines c). LF \<notin> set l"
  by (simp add: config_lines_def setting_line_no_LF writable_fields [OF assms])

lemma load_config_lines:
  assumes "config_writable c" "tcp_port d = 0"
  shows "load_lines path n (config_lines c) d ws = (None, c, ws)"
  using assms(2)
  by (auto simp: config_lines_def setting_print_read writable_fields [OF assms(1)] intro!: Config.equality)

section \<open>Properties\<close>

text \<open>Whatever the configuration file and the environment contain, the configuration the daemon
  starts with is in range: between 1 and 256 worker threads, a request limit of 256 to 1048576 bytes, a socket mode
  of at most 07777, a port of at most 65535 and a metrics interval of 1 to 86400 seconds.\<close>

theorem startup_config_valid:
  assumes "load_config path content (default_config cores) [] = (None, c1, warnings)"
    and "apply_env_overrides env c1 = (None, c2)"
  shows "config_valid (fst (apply_default_db_paths regular dirs c2 notes'))"
proof -
  have "config_valid c1"
    using load_config_valid [OF default_config_valid, of path content cores "[]"] assms(1) by simp
  with assms(2) show ?thesis
    by (simp add: apply_env_overrides_closed env_config_valid apply_default_db_paths_valid)
qed

theorem startup_config_valid_witness:
  "config_valid (fst (apply_default_db_paths (\<lambda>_. False) []
     (env_config [''NSHGEOIP_THREADS'' \<mapsto> ''9''] ((default_config 2)\<lparr>tcp_port := 443\<rparr>)) []))"
proof (rule startup_config_valid)
  have "config_line ''tcp_port = 443'' (default_config 2) = Inr ((default_config 2)\<lparr>tcp_port := 443\<rparr>, [])"
    by code_simp
  then show "load_config ''c'' (Some ''tcp_port = 443'') (default_config 2) [] =
      (None, (default_config 2)\<lparr>tcp_port := 443\<rparr>, [])"
    by (simp add: load_config_def getlines_def)
  have "parse_ranged 10 1 256 ''9'' = Some 9" by code_simp
  then show "apply_env_overrides [''NSHGEOIP_THREADS'' \<mapsto> ''9''] ((default_config 2)\<lparr>tcp_port := 443\<rparr>) =
      (None, env_config [''NSHGEOIP_THREADS'' \<mapsto> ''9''] ((default_config 2)\<lparr>tcp_port := 443\<rparr>))"
    by (simp add: apply_env_overrides_closed env_accepted_def env_checked_def)
qed

text \<open>C25: a configuration written as \<^verbatim>\<open>key=value\<close> lines is loaded back exactly, without warnings.\<close>

theorem load_config_roundtrip:
  assumes "config_writable c"
  shows "load_config path (Some (render_config c)) (default_config cores) ws = (None, c, ws)"
  using load_config_lines [OF assms, of "default_config cores"] config_lines_no_LF [OF assms]
  by (simp add: load_config_def render_config_def getlines_terminated default_config_def)

theorem load_config_roundtrip_witness:
  "load_config ''c'' (Some (render_config ((default_config 2)\<lparr>tcp_port := 8080, city_db := ''/db/c.mmdb''\<rparr>)))
     (default_config 0) [] = (None, (default_config 2)\<lparr>tcp_port := 8080, city_db := ''/db/c.mmdb''\<rparr>, [])"
proof (rule load_config_roundtrip)
  have "text_value ''/run/nshgeoip/nshgeoip.sock''" "text_value ''/db/c.mmdb''" "text_value []"
    by code_simp+
  then show "config_writable ((default_config 2)\<lparr>tcp_port := 8080, city_db := ''/db/c.mmdb''\<rparr>)"
    by (simp add: config_writable_def config_valid_def default_config_def default_thread_count_def)
qed



text \<open>C27: the environment takes precedence over the file, variable by variable: overriding succeeds with a configuration exactly if each of
  its fields is the old one where the variable is unset, the string of the variable for a text field, the number it denotes (octal for the socket mode) for a
  numeric field, within the documented range, and the truth value of one of the eight words for the debug flag.  The port 0 is left out: the
  help text documents it, the code refuses it.\<close>

theorem env_overrides_exact:
  assumes "\<forall>s. env ''NSHGEOIP_TCP_PORT'' = Some s \<longrightarrow> \<not> numeral_of 10 s 0"
  shows "apply_env_overrides env c = (None, c') \<longleftrightarrow>
    env_string env ''NSHGEOIP_COUNTRY_DB'' (country_db c) (country_db c')
    \<and> env_string env ''NSHGEOIP_ASN_DB'' (asn_db c) (asn_db c')
    \<and> env_string env ''NSHGEOIP_CITY_DB'' (city_db c) (city_db c')
    \<and> env_string env ''NSHGEOIP_SOCKET'' (socket_path c) (socket_path c')
    \<and> env_number env ''NSHGEOIP_SOCKET_MODE'' 8 0 4095 (int (socket_mode c)) (int (socket_mode c'))
    \<and> env_number env ''NSHGEOIP_THREADS'' 10 1 256 (threads c) (threads c')
    \<and> env_number env ''NSHGEOIP_MAX_REQUEST_BYTES'' 10 256 1048576 (int (max_request_bytes c)) (int (max_request_bytes c'))
    \<and> env_flag env ''NSHGEOIP_DEBUG_LOG'' (debug_log c) (debug_log c')
    \<and> env_number env ''NSHGEOIP_TCP_PORT'' 10 1 65535 (tcp_port c) (tcp_port c')
    \<and> env_string env ''NSHGEOIP_TCP_ADDRESS'' (tcp_address c) (tcp_address c')
    \<and> env_string env ''NSHGEOIP_METRICS_FILE'' (metrics_file c) (metrics_file c')
    \<and> env_number env ''NSHGEOIP_METRICS_INTERVAL_SECONDS'' 10 1 86400 (metrics_interval_seconds c) (metrics_interval_seconds c')"
proof -
  have mode: "0 \<le> env_or env ''NSHGEOIP_SOCKET_MODE'' (parse_ranged 8 0 4095) (int (socket_mode c))"
    "0 \<le> env_or env ''NSHGEOIP_MAX_REQUEST_BYTES'' (parse_ranged 10 256 1048576) (int (max_request_bytes c))"
    by (rule env_or_keeps; force dest: parse_ranged_range)+
  have nat: "x = nat y \<longleftrightarrow> int x = y" if "0 \<le> y" for x y using that by auto
  show ?thesis
    unfolding apply_env_overrides_closed
    by (cases c') (auto simp: env_accepted_def env_config_def env_string_or env_number_or env_flag_or parse_port_def [abs_def] nat mode)
qed

theorem env_overrides_exact_witness:
  "apply_env_overrides [''NSHGEOIP_TCP_PORT'' \<mapsto> ''8080''] (default_config 4) = (None, (default_config 4)\<lparr>tcp_port := 8080\<rparr>)"
proof -
  have "parse_ranged 10 0 0 ''8080'' \<noteq> Some 0" "parse_ranged 10 1 65535 ''8080'' = Some 8080" by code_simp+
  then have "\<not> numeral_of 10 ''8080'' 0" "numeral_of 10 ''8080'' 8080" by (simp_all add: parse_ranged_numeral)
  then show ?thesis
    by (subst env_overrides_exact) (simp_all add: env_string_def env_number_def env_flag_def)
qed

text \<open>C40: auto-detection never replaces a configured database, takes the first directory that holds
  the file, looks for a country database only when no city database is in use, and changes no other field.\<close>

theorem default_db_paths_exact:
  "fst (apply_default_db_paths regular dirs c ns) =
     (let city = (if city_db c \<noteq> [] then city_db c else first_match regular dirs ''GeoLite2-City.mmdb'') in
      c\<lparr>city_db := city,
        asn_db := if asn_db c \<noteq> [] then asn_db c else first_match regular dirs ''GeoLite2-ASN.mmdb'',
        country_db := if country_db c = [] \<and> city = []
          then first_match regular dirs ''GeoLite2-Country.mmdb'' else country_db c\<rparr>)"
  by (rule apply_default_db_paths_fields)

end
