(* ===== verification/Http_Response.thy ===== *)
theory Http_Response
  imports Text_Util Http_Request
begin

text \<open>
  The response half of \<^verbatim>\<open>src/src/http.cpp\<close>: \<^verbatim>\<open>build_http_response\<close> and \<^verbatim>\<open>make_error_response\<close>.  The
  specification is a client: it cuts the bytes into head lines at CRLF up to the blank line, splits each
  header at its colon and takes the rest as the body.
\<close>

section \<open>Model\<close>

record HttpResponse =
  resp_status :: int
  resp_format :: ResponseFormat
  resp_headers :: "(string \<times> string) list"
  resp_body :: string

definition empty_response :: HttpResponse where
  "empty_response = \<lparr>resp_status = 200, resp_format = Json, resp_headers = [], resp_body = []\<rparr>"

definition reason_phrase :: "int \<Rightarrow> string" where
  "reason_phrase status =
     (if status = 200 then ''OK''
      else if status = 400 then ''Bad Request''
      else if status = 404 then ''Not Found''
      else if status = 405 then ''Method Not Allowed''
      else if status = 500 then ''Internal Server Error''
      else ''Unknown'')"

fun content_type :: "ResponseFormat \<Rightarrow> string" where
  "content_type Json = ''application/json''"
| "content_type Text = ''text/plain; charset=utf-8''"
| "content_type Prometheus = ''text/plain; version=0.0.4; charset=utf-8''"

definition build_http_response :: "HttpResponse \<Rightarrow> bool \<Rightarrow> string" where
  "build_http_response resp include_body =
     ''HTTP/1.1 '' @ int_to_string (resp_status resp) @ '' '' @ reason_phrase (resp_status resp) @ CRLF
     @ (if include_body then ''Content-Type: '' @ content_type (resp_format resp) @ CRLF else [])
     @ ''Content-Length: '' @ nat_to_string (length (resp_body resp)) @ CRLF
     @ ''Connection: close'' @ CRLF
     @ concat (map (\<lambda>(name, value). name @ '': '' @ value @ CRLF) (resp_headers resp))
     @ CRLF
     @ (if include_body then resp_body resp else [])"

definition make_error_response :: "int \<Rightarrow> string \<Rightarrow> ResponseFormat \<Rightarrow> HttpResponse" where
  "make_error_response status message format =
     empty_response\<lparr>resp_status := status, resp_format := format,
       resp_body := (if format = Json
         then ''{'' @ [DQ] @ ''error'' @ [DQ] @ '':'' @ [DQ] @ json_escape message @ [DQ] @ ''}''
         else ''error='' @ message @ [LF])\<rparr>"

section \<open>A client\<close>

function head_lines :: "string \<Rightarrow> (string list \<times> string) option" where
  "head_lines s =
     (case find_str CRLF s of
        None \<Rightarrow> None
      | Some n \<Rightarrow>
          if n = 0 then Some ([], drop 2 s)
          else map_option (\<lambda>(ls, rest). (take n s # ls, rest)) (head_lines (drop (n + 2) s)))"
  by pat_completeness auto
termination
  by (relation "measure length") (auto dest!: find_str_Some_bound)

declare head_lines.simps [simp del]

definition split_header :: "string \<Rightarrow> (string \<times> string) option" where
  "split_header l =
     (case find_char (CHR '':'') l of None \<Rightarrow> None | Some i \<Rightarrow> Some (take i l, drop (i + 2) l))"

fun split_headers :: "string list \<Rightarrow> (string \<times> string) list option" where
  "split_headers [] = Some []"
| "split_headers (l # ls) =
     (case split_header l of
        None \<Rightarrow> None
      | Some h \<Rightarrow> map_option (\<lambda>hs. h # hs) (split_headers ls))"

text \<open>Status code, headers and body as a client sees them.\<close>

definition read_response :: "string \<Rightarrow> (string \<times> (string \<times> string) list \<times> string) option" where
  "read_response s =
     (case head_lines s of
        Some (status_line # ls, body) \<Rightarrow>
          (case split_headers ls of
             Some hs \<Rightarrow> Some (split_on SP status_line ! 1, hs, body)
           | None \<Rightarrow> None)
      | _ \<Rightarrow> None)"

definition line_text :: "string \<Rightarrow> bool" where
  "line_text s \<longleftrightarrow> CR \<notin> set s \<and> LF \<notin> set s"

definition header_ok :: "string \<times> string \<Rightarrow> bool" where
  "header_ok h \<longleftrightarrow> line_text (fst h) \<and> CHR '':'' \<notin> set (fst h) \<and> line_text (snd h)"

definition header_line :: "string \<times> string \<Rightarrow> string" where
  "header_line h = fst h @ '': '' @ snd h"

lemma head_lines_blank: "head_lines (CRLF @ body) = Some ([], body)"
  by (simp add: head_lines.simps)

lemma head_lines_Cons:
  assumes "line_text l" "l \<noteq> []"
  shows "head_lines (l @ CRLF @ s) = map_option (\<lambda>(ls, rest). (l # ls, rest)) (head_lines s)"
proof -
  have "find_str CRLF (l @ CRLF @ s) = Some (length l)"
    using assms(1) by (simp add: line_text_def find_str_crlf)
  with assms(2) show ?thesis by (subst head_lines.simps) simp
qed

lemma head_lines_concat:
  assumes "\<forall>l \<in> set ls. line_text l \<and> l \<noteq> []"
  shows "head_lines (concat (map (\<lambda>l. l @ CRLF) ls) @ CRLF @ body) = Some (ls, body)"
  using assms
proof (induction ls)
  case Nil
  then show ?case using head_lines_blank by simp
next
  case (Cons l ls)
  then show ?case
    using head_lines_Cons [of l "concat (map (\<lambda>l. l @ CRLF) ls) @ CRLF @ body"] by simp
qed

lemma split_header_line: "header_ok h \<Longrightarrow> split_header (header_line h) = Some h"
proof -
  assume "header_ok h"
  then have "find_char (CHR '':'') (header_line h) = Some (length (fst h))"
    by (auto simp: header_ok_def header_line_def find_char_split)
  then show ?thesis by (simp add: split_header_def header_line_def)
qed

lemma split_headers_lines: "list_all header_ok hs \<Longrightarrow> split_headers (map header_line hs) = Some hs"
  by (induction hs) (simp_all add: split_header_line)

lemma header_line_text: "header_ok h \<Longrightarrow> line_text (header_line h) \<and> header_line h \<noteq> []"
  by (simp add: header_ok_def header_line_def line_text_def)

lemma header_lines_text:
  "list_all header_ok hs \<Longrightarrow> l \<in> set (map header_line hs) \<Longrightarrow> line_text l \<and> l \<noteq> []"
  using header_line_text by (auto simp: list_all_iff)

section \<open>The response as lines\<close>

definition automatic_headers :: "HttpResponse \<Rightarrow> bool \<Rightarrow> (string \<times> string) list" where
  "automatic_headers resp include_body =
     (if include_body then [(''Content-Type'', content_type (resp_format resp))] else [])
     @ [(''Content-Length'', nat_to_string (length (resp_body resp))), (''Connection'', ''close'')]"

definition status_line :: "int \<Rightarrow> string" where
  "status_line status = ''HTTP/1.1 '' @ int_to_string status @ '' '' @ reason_phrase status"

lemma build_http_response_lines:
  "build_http_response resp include_body =
     concat (map (\<lambda>l. l @ CRLF)
       (status_line (resp_status resp) #
        map header_line (automatic_headers resp include_body @ resp_headers resp)))
     @ CRLF @ (if include_body then resp_body resp else [])"
  by (simp add: build_http_response_def status_line_def automatic_headers_def header_line_def
      comp_def case_prod_unfold)

lemma line_text_number: "line_text (nat_to_string n)" "line_text (int_to_string i)"
  using nat_to_string_no_cntrl [of CR] nat_to_string_no_cntrl [of LF]
  by (auto simp: line_text_def int_to_string_def byte_simps)

lemma automatic_headers_ok: "list_all header_ok (automatic_headers resp b)"
  using line_text_number(1) [of "length (resp_body resp)"]
  by (cases "resp_format resp") (simp_all add: automatic_headers_def header_ok_def line_text_def)

lemma status_line_text: "line_text (status_line s) \<and> status_line s \<noteq> []"
  using line_text_number(2) [of s] by (simp add: status_line_def line_text_def reason_phrase_def)

lemma status_line_code: "split_on SP (status_line s) ! 1 = int_to_string s"
proof -
  have "SP \<notin> set (nat_to_string n)" for n
    using nat_to_string_digits [of n] by (auto simp: list_all_iff isdigit_def)
  then have "SP \<notin> set (int_to_string s)" by (simp add: int_to_string_def)
  then show ?thesis by (simp add: status_line_def)
qed

lemma read_built_response:
  assumes "list_all header_ok (resp_headers resp)"
  shows "read_response (build_http_response resp include_body) =
    Some (int_to_string (resp_status resp), automatic_headers resp include_body @ resp_headers resp,
      if include_body then resp_body resp else [])"
proof -
  let ?hs = "automatic_headers resp include_body @ resp_headers resp"
  have ok: "list_all header_ok ?hs" using assms automatic_headers_ok by simp
  have "\<forall>l \<in> set (status_line (resp_status resp) # map header_line ?hs). line_text l \<and> l \<noteq> []"
    using status_line_text header_lines_text [OF ok] by (metis set_ConsD)
  from head_lines_concat [OF this]
  have "head_lines (build_http_response resp include_body) =
      Some (status_line (resp_status resp) # map header_line ?hs, if include_body then resp_body resp else [])"
    by (simp only: build_http_response_lines)
  then show ?thesis
    using split_headers_lines [OF ok] by (simp add: read_response_def status_line_code [simplified] del: map_append)
qed


section \<open>Properties\<close>

text \<open>C22: a client reads back from the bytes of a response exactly its status, the automatic headers followed by the
  response's own headers in order, and the body; nothing in the body can be taken for a header.  Without a
  body (HEAD) the Content-Type line and the body are absent, and Content-Length still is the size the body has.\<close>

theorem response_roundtrip:
  assumes "list_all header_ok (resp_headers resp)"
  shows "read_response (build_http_response resp include_body) =
    Some (int_to_string (resp_status resp),
      (if include_body then [(''Content-Type'', content_type (resp_format resp))] else [])
        @ [(''Content-Length'', nat_to_string (length (resp_body resp))), (''Connection'', ''close'')]
        @ resp_headers resp,
      if include_body then resp_body resp else [])"
  using read_built_response [OF assms] by (simp add: automatic_headers_def)

theorem response_roundtrip_witness:
  "read_response (build_http_response (empty_response\<lparr>resp_headers := [(''Allow'', ''GET'')], resp_body := ''x''\<rparr>) False)
   = Some (''200'', [(''Content-Length'', ''1''), (''Connection'', ''close''), (''Allow'', ''GET'')], [])"
proof -
  have "nat_to_string 200 = ''200''" "nat_to_string 1 = ''1''" by code_simp+
  then show ?thesis
    using response_roundtrip [of "empty_response\<lparr>resp_headers := [(''Allow'', ''GET'')], resp_body := ''x''\<rparr>" False]
    by (simp add: empty_response_def header_ok_def line_text_def int_to_string_def)
qed

end
