(* ===== verification/Doubles.thy ===== *)
theory Doubles
  imports Nsh_Prelude
begin

text \<open>
  The parts of \<^verbatim>\<open>double\<close> the daemon uses: the values a database or an age computation can deliver, the
  conversions \<^verbatim>\<open>%.<p>f\<close> (\<^verbatim>\<open>std::fixed << std::setprecision(p)\<close>) and \<^verbatim>\<open>%.<p>g\<close> (\<^verbatim>\<open>std::setprecision(p)\<close> alone)
  with exact round-half-to-even decimal rounding as in glibc, and IEEE rounding of quotients to 53 bits.  One
  function, \<open>round_sig\<close>, rounds a positive fraction to a number of significant digits in any base and
  serves both the decimal output (base 10) and the arithmetic (base 2).  The exponent range of IEEE
  numbers is not modelled: the computed values lie between \<open>1 / 86400\<close> and \<open>2 ^ 94\<close>.
\<close>

section \<open>Model\<close>

text \<open>\<open>Finite s m e\<close> is \<open>(-1) ^ s * m * 2 ^ e\<close>.\<close>

datatype double = Finite bool nat int | Infinite bool | NotANumber bool

text \<open>Magnitude as a fraction.\<close>

definition numer :: "nat \<Rightarrow> int \<Rightarrow> nat" where
  "numer m e = (if 0 \<le> e then m * 2 ^ nat e else m)"

definition denom :: "int \<Rightarrow> nat" where
  "denom e = (if 0 \<le> e then 1 else 2 ^ nat (- e))"

definition round_half_even :: "nat \<Rightarrow> nat \<Rightarrow> nat" where
  "round_half_even a b =
     (let q = a div b; r = a mod b in
      if 2 * r < b then q else if b < 2 * r then q + 1 else if even q then q else q + 1)"

text \<open>The least number of factors \<open>b\<close> that lifts \<open>n / d\<close> to at least 1.\<close>

function lift_steps :: "nat \<Rightarrow> nat \<Rightarrow> nat \<Rightarrow> nat" where
  "lift_steps b n d = (if b < 2 \<or> n = 0 \<or> d \<le> n then 0 else Suc (lift_steps b (b * n) d))"
  by pat_completeness auto
termination
proof (relation "measure (\<lambda>(b, n, d). d - n)")
  fix b n d :: nat
  assume "\<not> (b < 2 \<or> n = 0 \<or> d \<le> n)"
  then have "n < b * n" "n < d" by simp_all
  then have "d - b * n < d - n" by (intro diff_less_mono2)
  then show "((b, b * n, d), b, n, d) \<in> measure (\<lambda>(b, n, d). d - n)" by simp
qed simp

declare lift_steps.simps [simp del]

text \<open>The exponent \<open>X\<close> with \<open>b ^ X \<le> n / d < b ^ (X + 1)\<close>.\<close>

definition scale_of :: "nat \<Rightarrow> nat \<Rightarrow> nat \<Rightarrow> int" where
  "scale_of b n d =
     (if d \<le> n then int (length (nat_base b (n div d))) - 1 else - int (lift_steps b n d))"

definition round_sig :: "nat \<Rightarrow> nat \<Rightarrow> nat \<Rightarrow> nat \<Rightarrow> nat \<times> int" where
  "round_sig b p n d =
     (let x = scale_of b n d;
          k = int p - 1 - x;
          m = (if 0 \<le> k then round_half_even (n * b ^ nat k) d else round_half_even n (d * b ^ nat (- k)))
      in if m = b ^ p then (b ^ (p - 1), x + 1) else (m, x))"

definition sign_text :: "bool \<Rightarrow> string" where
  "sign_text s = (if s then ''-'' else [])"

text \<open>The decimal numeral of \<open>m / 10 ^ p\<close>: integer part, and the fraction in \<open>p\<close> digits.\<close>

definition point_digits :: "nat \<Rightarrow> nat \<Rightarrow> string" where
  "point_digits p m = pad_zero p (nat_to_string (m mod 10 ^ p))"

definition fixed_digits :: "nat \<Rightarrow> nat \<Rightarrow> string" where
  "fixed_digits p m =
     nat_to_string (m div 10 ^ p) @ (if p = 0 then [] else CHR ''.'' # point_digits p m)"

text \<open>\<^verbatim>\<open>%.<p>f\<close>.\<close>

fun format_fixed :: "nat \<Rightarrow> double \<Rightarrow> string" where
  "format_fixed p (Finite s m e) =
     sign_text s @ fixed_digits p (round_half_even (numer m e * 10 ^ p) (denom e))"
| "format_fixed p (Infinite s) = sign_text s @ ''inf''"
| "format_fixed p (NotANumber s) = sign_text s @ ''nan''"

text \<open>\<^verbatim>\<open>%.<p>g\<close>, without trailing zeros and without a bare point.\<close>

definition strip_zeros :: "string \<Rightarrow> string" where
  "strip_zeros s = rev (dropWhile (\<lambda>c. c = CHR ''0'') (rev s))"

definition stripped_digits :: "nat \<Rightarrow> nat \<Rightarrow> string" where
  "stripped_digits p m =
     (let f = strip_zeros (if p = 0 then [] else point_digits p m) in
      nat_to_string (m div 10 ^ p) @ (if f = [] then [] else CHR ''.'' # f))"

definition exponent_text :: "int \<Rightarrow> string" where
  "exponent_text x = ''e'' @ (if x < 0 then ''-'' else ''+'') @ pad_zero 2 (nat_to_string (nat \<bar>x\<bar>))"

fun format_general :: "nat \<Rightarrow> double \<Rightarrow> string" where
  "format_general p (Finite s m e) =
     (if m = 0 then sign_text s @ ''0''
      else let (d, x) = round_sig 10 p (numer m e) (denom e) in
        if - 4 \<le> x \<and> x < int p then sign_text s @ stripped_digits (nat (int p - 1 - x)) d
        else sign_text s @ stripped_digits (p - 1) d @ exponent_text x)"
| "format_general p (Infinite s) = sign_text s @ ''inf''"
| "format_general p (NotANumber s) = sign_text s @ ''nan''"

text \<open>IEEE arithmetic on the values the daemon computes with: the nearest double to \<open>n / d\<close>.\<close>

definition round_double :: "bool \<Rightarrow> nat \<Rightarrow> nat \<Rightarrow> double" where
  "round_double s n d =
     (if n = 0 then Finite s 0 0 else let (m, x) = round_sig 2 53 n d in Finite s m (x - 52))"

fun double_scale :: "nat \<Rightarrow> nat \<Rightarrow> double \<Rightarrow> double" where
  "double_scale p q (Finite s m e) = round_double s (numer m e * p) (denom e * q)"
| "double_scale p q (Infinite s) = Infinite s"
| "double_scale p q (NotANumber s) = NotANumber s"

definition double_of_int :: "int \<Rightarrow> double" where
  "double_of_int i = round_double (i < 0) (nat \<bar>i\<bar>) 1"

text \<open>
  \<^verbatim>\<open>static_cast<std::uint64_t>\<close>: truncation.  C++ leaves the conversion of a value outside the target range undefined;
  \<open>ub\<close> stands for whatever the compiled code does then.
\<close>

fun double_to_uint64 :: "(double \<Rightarrow> 64 word) \<Rightarrow> double \<Rightarrow> 64 word" where
  "double_to_uint64 ub (Finite s m e) =
     (let t = numer m e div denom e in
      if (s \<and> 0 < t) \<or> 2 ^ 64 \<le> t then ub (Finite s m e) else of_nat t)"
| "double_to_uint64 ub d = ub d"

section \<open>The printed text\<close>

definition number_char :: "char \<Rightarrow> bool" where
  "number_char c \<longleftrightarrow> isdigit c \<or> c \<in> set ''+-.einfa''"

lemma number_char_plain: "number_char c \<Longrightarrow> \<not> iscntrl c"
  by (auto simp: number_char_def isdigit_def iscntrl_def)

lemma digits_number_chars: "list_all isdigit s \<Longrightarrow> list_all number_char s"
  by (auto simp: list_all_iff number_char_def)

lemma nat_to_string_number [simp]: "list_all number_char (nat_to_string n)"
  by (rule digits_number_chars) (rule nat_to_string_digits)

lemma pad_zero_digits: "list_all isdigit s \<Longrightarrow> list_all isdigit (pad_zero w s)"
  by (auto simp: pad_zero_def list_all_iff isdigit_def)

lemma point_digits_digits: "list_all isdigit (point_digits p m)"
  by (simp add: point_digits_def pad_zero_digits nat_to_string_digits)

lemma strip_zeros_set: "set (strip_zeros s) \<subseteq> set s"
  by (auto simp: strip_zeros_def dest: set_dropWhileD)

lemma fixed_digits_number: "list_all number_char (fixed_digits p m)"
  using digits_number_chars [OF point_digits_digits]
  by (simp add: fixed_digits_def) (simp add: number_char_def)

lemma strip_zeros_digits: "list_all isdigit s \<Longrightarrow> list_all isdigit (strip_zeros s)"
  using strip_zeros_set by (auto simp: list_all_iff)

lemma number_char_point [simp]: "number_char (CHR ''.'')"
  by (simp add: number_char_def)

lemma stripped_digits_number: "list_all number_char (stripped_digits p m)"
proof -
  have "list_all isdigit (strip_zeros (if p = 0 then [] else point_digits p m))"
    by (rule strip_zeros_digits) (simp add: point_digits_digits)
  then show ?thesis by (simp add: stripped_digits_def Let_def digits_number_chars)
qed

lemma exponent_text_number: "list_all number_char (exponent_text x)"
  using digits_number_chars [OF pad_zero_digits [OF nat_to_string_digits]]
  by (simp add: exponent_text_def) (simp add: number_char_def)

lemma sign_text_number: "list_all number_char (sign_text s)"
  by (simp add: sign_text_def number_char_def)

lemma format_general_number: "list_all number_char (format_general p d)"
proof (cases d)
  case (Finite s m e)
  have "list_all number_char ''0''" by (simp add: number_char_def isdigit_def)
  with Finite show ?thesis
    by (simp add: stripped_digits_number exponent_text_number sign_text_number split: prod.split)
qed (auto simp: sign_text_number number_char_def)

lemma format_fixed_number: "list_all number_char (format_fixed p d)"
  by (cases d) (auto simp: fixed_digits_number sign_text_number number_char_def)

lemma format_general_plain: "c \<in> set (format_general p d) \<Longrightarrow> \<not> iscntrl c"
  using format_general_number [of p d] number_char_plain by (auto simp: list_all_iff)

lemma format_fixed_plain: "c \<in> set (format_fixed p d) \<Longrightarrow> \<not> iscntrl c"
  using format_fixed_number [of p d] number_char_plain by (auto simp: list_all_iff)

section \<open>Exact results\<close>

lemma round_half_even_exact [simp]: "0 < b \<Longrightarrow> round_half_even (a * b) b = a"
  by (simp add: round_half_even_def Let_def)

lemma nat_base_length_upper: "2 \<le> b \<Longrightarrow> n < b ^ length (nat_base b n)"
proof (induction n rule: less_induct)
  case (less n)
  show ?case
  proof (cases "n < b")
    case True
    then show ?thesis by (subst nat_base.simps) simp
  next
    case False
    with less have "n div b < b ^ length (nat_base b (n div b))" by (intro less) auto
    then have "n < b * b ^ length (nat_base b (n div b))"
      using less.prems by (simp add: div_less_iff_less_mult mult.commute)
    with False less.prems show ?thesis by (subst nat_base.simps) simp
  qed
qed

lemma nat_base_length_lower: "2 \<le> b \<Longrightarrow> 0 < n \<Longrightarrow> b ^ (length (nat_base b n) - 1) \<le> n"
proof (induction n rule: less_induct)
  case (less n)
  show ?case
  proof (cases "n < b")
    case True
    with less.prems show ?thesis by (subst nat_base.simps) simp
  next
    case False
    with less.prems have "0 < n div b" by (simp add: div_greater_zero_iff)
    with False less have IH: "b ^ (length (nat_base b (n div b)) - 1) \<le> n div b" by (intro less) auto
    have "length (nat_base b (n div b)) \<noteq> 0" by (subst nat_base.simps) simp
    then obtain k where k: "length (nat_base b (n div b)) = Suc k" by (cases "length (nat_base b (n div b))") auto
    from IH k have "b * b ^ k \<le> b * (n div b)" by simp
    also have "\<dots> \<le> n" by simp
    finally show ?thesis using False less.prems k by (subst nat_base.simps) simp
  qed
qed

lemma round_sig_exact:
  assumes "0 < v" "0 < d" "2 ^ j dvd v" "v < 2 ^ (53 + j)"
  obtains m x where "round_sig 2 53 (v * d) d = (m, x)" "numer m (x - 52) = v * denom (x - 52)"
proof -
  define L where "L = length (nat_base 2 v)"
  have L0: "L \<noteq> 0" unfolding L_def by (subst nat_base.simps) simp
  have up: "v < 2 ^ L" and lo: "2 ^ (L - 1) \<le> v"
    using nat_base_length_upper [of 2 v] nat_base_length_lower [of 2 v] assms(1) by (simp_all add: L_def)
  have x: "scale_of 2 (v * d) d = int L - 1" using assms by (simp add: scale_of_def L_def)
  show thesis
  proof (cases "L \<le> 53")
    case True
    have "(v * 2 ^ (53 - L)) < 2 ^ L * 2 ^ (53 - L)" using up by simp
    also have "\<dots> = 2 ^ 53" using True by (simp flip: power_add)
    finally have ne: "v * 2 ^ (53 - L) \<noteq> 2 ^ 53" by simp
    have "round_half_even (v * d * 2 ^ (53 - L)) d = v * 2 ^ (53 - L)"
      using round_half_even_exact [of d "v * 2 ^ (53 - L)"] assms(2) by (simp add: ac_simps)
    with ne True have "round_sig 2 53 (v * d) d = (v * 2 ^ (53 - L), int L - 1)"
      by (simp add: round_sig_def x Let_def nat_diff_distrib' of_nat_diff [symmetric] del: of_nat_diff)
    then show thesis
    proof (rule that)
      show "numer (v * 2 ^ (53 - L)) (int L - 1 - 52) = v * denom (int L - 1 - 52)"
        using True by (cases "L = 53") (auto simp: numer_def denom_def nat_diff_distrib')
    qed
  next
    case False
    have "2 ^ (L - 1) < (2 :: nat) ^ (53 + j)" using lo assms(4) by (rule le_less_trans)
    then have "L - 1 < 53 + j" by simp
    then have "(2 :: nat) ^ (L - 53) dvd 2 ^ j" by (intro le_imp_power_dvd) simp
    then obtain u where u: "v = u * 2 ^ (L - 53)"
      using assms(3) by (metis dvd_def dvd_trans mult.commute)
    have "(2 :: nat) ^ L = 2 ^ 53 * 2 ^ (L - 53)" using False by (simp only: power_add [symmetric]) simp
    with up u have "u * 2 ^ (L - 53) < 2 ^ 53 * 2 ^ (L - 53)" by simp
    then have ne: "u \<noteq> 2 ^ 53" by simp
    have "round_half_even (v * d) (d * 2 ^ (L - 53)) = u"
      using round_half_even_exact [of "d * 2 ^ (L - 53)" u] assms(2) by (simp add: u ac_simps)
    with ne False have "round_sig 2 53 (v * d) d = (u, int L - 1)"
      by (simp add: round_sig_def x Let_def nat_diff_distrib')
    then show thesis
    proof (rule that)
      show "numer u (int L - 1 - 52) = v * denom (int L - 1 - 52)"
        using False by (simp add: numer_def denom_def u nat_diff_distrib')
    qed
  qed
qed

lemma round_double_exact:
  assumes "0 < d" "2 ^ j dvd v" "v < 2 ^ (53 + j)"
  obtains m e where "round_double s (v * d) d = Finite s m e" "numer m e = v * denom e"
proof (cases "v = 0")
  case True
  then show thesis by (intro that [of 0 0]) (simp_all add: round_double_def numer_def denom_def)
next
  case False
  with assms obtain m x where "round_sig 2 53 (v * d) d = (m, x)" "numer m (x - 52) = v * denom (x - 52)"
    by (auto elim: round_sig_exact)
  with False assms(1) show thesis by (intro that [of m "x - 52"]) (simp_all add: round_double_def)
qed

lemma denom_pos [simp]: "0 < denom e"
  by (simp add: denom_def)

text \<open>An integer below \<open>2 ^ 53\<close> scaled by an integer factor whose product needs at most 53 bits.\<close>

lemma scaled_int_exact:
  assumes "n < 2 ^ 53" "2 ^ j dvd n * p" "n * p < 2 ^ (53 + j)"
  obtains m e where "double_scale p 1 (double_of_int (int n)) = Finite False m e" "numer m e = n * p * denom e"
proof -
  obtain m e where "round_double False (n * 1) 1 = Finite False m e" "numer m e = n * denom e"
    using assms(1) by (auto intro: round_double_exact [of 1 0 n False])
  then obtain m e where 1: "double_of_int (int n) = Finite False m e" "numer m e = n * denom e"
    by (auto simp: double_of_int_def)
  obtain m' e' where "round_double False (n * p * denom e) (denom e) = Finite False m' e'"
      "numer m' e' = n * p * denom e'"
    using round_double_exact [OF denom_pos assms(2,3)] .
  with 1 show thesis using that by (auto simp: ac_simps)
qed

lemma scaled_int_to_uint64:
  assumes "n < 2 ^ 53" "2 ^ j dvd n * p" "n * p < 2 ^ (53 + j)" "n * p < 2 ^ 64"
  shows "double_to_uint64 ub (double_scale p 1 (double_of_int (int n))) = of_nat (n * p)"
proof -
  obtain m e where "double_scale p 1 (double_of_int (int n)) = Finite False m e" "numer m e = n * p * denom e"
    using scaled_int_exact [OF assms(1-3)] .
  with assms(4) show ?thesis by simp
qed


fun is_finite :: "double \<Rightarrow> bool" where
  "is_finite (Finite s m e) = True"
| "is_finite _ = False"

lemma round_double_finite [simp]: "is_finite (round_double s n d)"
  by (simp add: round_double_def split: prod.split)

lemma double_scale_finite [simp]: "is_finite (double_scale p q d) \<longleftrightarrow> is_finite d"
  by (cases d) simp_all

lemma double_of_int_finite [simp]: "is_finite (double_of_int i)"
  by (simp add: double_of_int_def)

end
