(* ===== verification/Decimal_Spec.thy ===== *)
theory Decimal_Spec
  imports Complex_Main Doubles
begin

text \<open>
  What a printed number means to a reader: the value of a decimal numeral, the value of a \<^verbatim>\<open>double\<close>, and how close the two are for
  the numerals the daemon prints.  The reader knows nothing of the way the digits were produced.
\<close>

section \<open>Reading a numeral\<close>

text \<open>An optional sign and digits behind \<^verbatim>\<open>e\<close>; nothing is the exponent 0.\<close>

definition read_exponent :: "string \<Rightarrow> int option" where
  "read_exponent t =
     (case t of
        [] \<Rightarrow> Some 0
      | c # u \<Rightarrow>
          if c \<noteq> CHR ''e'' \<or> u = [] \<or> tl u = [] \<or> \<not> list_all isdigit (tl u) then None
          else if hd u = CHR ''-'' then Some (- int (nat_of_digits (tl u)))
          else if hd u = CHR ''+'' then Some (int (nat_of_digits (tl u)))
          else None)"

text \<open>Digits, optionally a point and further digits, optionally an exponent.\<close>

definition read_magnitude :: "string \<Rightarrow> rat option" where
  "read_magnitude t =
     (let ip = takeWhile isdigit t; r = dropWhile isdigit t;
          point = (r \<noteq> [] \<and> hd r = CHR ''.'');
          fp = (if point then takeWhile isdigit (tl r) else []);
          ex = (if point then dropWhile isdigit (tl r) else r)
      in if ip = [] then None
         else map_option (\<lambda>x. of_nat (nat_of_digits (ip @ fp)) * 10 powi (x - int (length fp))) (read_exponent ex))"

definition read_decimal :: "string \<Rightarrow> rat option" where
  "read_decimal s =
     (if s \<noteq> [] \<and> hd s = CHR ''-'' then map_option uminus (read_magnitude (tl s)) else read_magnitude s)"

text \<open>The value of a finite \<^verbatim>\<open>double\<close>.\<close>

fun double_value :: "double \<Rightarrow> rat" where
  "double_value (Finite s m e) = (if s then - 1 else 1) * of_nat m * 2 powi e"
| "double_value _ = 0"

text \<open>A relative error of at most half a unit in the ninth significant digit.\<close>

definition within_9_digits :: "rat \<Rightarrow> double \<Rightarrow> bool" where
  "within_9_digits q d \<longleftrightarrow> 200000000 * \<bar>q - double_value d\<bar> \<le> \<bar>double_value d\<bar>"

section \<open>Digits\<close>

lemma nat_of_digits_Nil [simp]: "nat_of_digits [] = 0"
  by (simp add: nat_of_digits_def)

lemma nat_of_digits_append: "nat_of_digits (xs @ ys) = nat_of_digits xs * 10 ^ length ys + nat_of_digits ys"
proof (induction ys rule: rev_induct)
  case Nil
  then show ?case by simp
next
  case (snoc y ys)
  have "nat_of_digits (xs @ ys @ [y]) = 10 * nat_of_digits (xs @ ys) + (byte y - 48)"
    using nat_of_digits_snoc [of "xs @ ys" y] by simp
  with snoc show ?case by (simp add: nat_of_digits_snoc algebra_simps)
qed

lemma nat_of_digits_zeros [simp]: "nat_of_digits (replicate k (CHR ''0'')) = 0"
  by (induction k) (simp_all add: nat_of_digits_def)

lemma nat_of_digits_pad [simp]: "nat_of_digits (pad_zero w s) = nat_of_digits s"
  by (simp add: pad_zero_def nat_of_digits_append)

lemma length_nat_to_string: "n < 10 ^ p \<Longrightarrow> 0 < p \<Longrightarrow> length (nat_to_string n) \<le> p"
proof (cases "n = 0")
  case True
  assume "0 < p"
  with True show ?thesis by (subst nat_to_string_rec) simp
next
  case False
  assume n: "n < 10 ^ p"
  have "10 ^ (length (nat_to_string n) - 1) \<le> n"
    using nat_base_length_lower [of 10 n] False by (simp add: nat_to_string_def)
  then have "(10::nat) ^ (length (nat_to_string n) - 1) < 10 ^ p" using n by (rule le_less_trans)
  then have "length (nat_to_string n) - 1 < p" by (rule power_less_imp_less_exp [rotated]) simp
  then show ?thesis by simp
qed

lemma point_digits_value:
  assumes "0 < p"
  shows "length (point_digits p m) = p" "nat_of_digits (point_digits p m) = m mod 10 ^ p"
  using assms length_nat_to_string [of "m mod 10 ^ p" p] by (simp_all add: point_digits_def pad_zero_def nat_of_digits_append)

lemma strip_zeros_split: "\<exists>k. s = strip_zeros s @ replicate k (CHR ''0'')"
proof -
  have "rev s = takeWhile (\<lambda>c. c = CHR ''0'') (rev s) @ rev (strip_zeros s)" by (simp add: strip_zeros_def)
  moreover have "takeWhile (\<lambda>c. c = CHR ''0'') (rev s) = replicate (length (takeWhile (\<lambda>c. c = CHR ''0'') (rev s))) (CHR ''0'')"
    by (intro replicate_eqI) (auto dest: set_takeWhileD)
  ultimately have "s = strip_zeros s @ replicate (length (takeWhile (\<lambda>c. c = CHR ''0'') (rev s))) (CHR ''0'')"
    by (metis rev_append rev_replicate rev_rev_ident)
  then show ?thesis ..
qed

text \<open>Digits in front of and behind the point, without trailing zeros, have the value \<open>m / 10 ^ p\<close>.\<close>

lemma stripped_value:
  fixes p m
  defines "f \<equiv> strip_zeros (if p = 0 then [] else point_digits p m)"
  shows "of_nat (nat_of_digits (nat_to_string (m div 10 ^ p) @ f)) * 10 powi (x - int (length f)) = (of_nat m * 10 powi (x - int p) :: rat)"
proof -
  obtain k where k: "(if p = 0 then [] else point_digits p m) = f @ replicate k (CHR ''0'')"
    using strip_zeros_split unfolding f_def by blast
  have len: "length f + k = p" using arg_cong [OF k, of length] point_digits_value(1) [of p m] by (simp split: if_splits)
  have "nat_of_digits f * 10 ^ k = m mod 10 ^ p"
    using arg_cong [OF k, of nat_of_digits] point_digits_value(2) [of p m] by (auto simp: nat_of_digits_append split: if_splits)
  then have "nat_of_digits (nat_to_string (m div 10 ^ p) @ f) * 10 ^ k = m div 10 ^ p * 10 ^ (length f + k) + m mod 10 ^ p"
    by (simp add: nat_of_digits_append algebra_simps power_add)
  also have "\<dots> = m" unfolding len by (rule div_mult_mod_eq)
  finally have v: "of_nat m = (of_nat (nat_of_digits (nat_to_string (m div 10 ^ p) @ f)) * 10 ^ k :: rat)"
    by (metis of_nat_mult of_nat_numeral of_nat_power)
  have e: "x - int (length f) = int k + (x - int p)" using len by simp
  have "(10::rat) powi (x - int (length f)) = 10 ^ k * 10 powi (x - int p)"
    unfolding e using power_int_add [of "10::rat" "int k" "x - int p"] by simp
  with v show ?thesis by simp
qed

lemma digit_run:
  assumes "list_all isdigit ds" "r = [] \<or> \<not> isdigit (hd r)"
  shows "takeWhile isdigit (ds @ r) = ds" "dropWhile isdigit (ds @ r) = r"
proof -
  have "takeWhile isdigit r = []" "dropWhile isdigit r = r" using assms(2) by (cases r; simp)+
  then show "takeWhile isdigit (ds @ r) = ds" "dropWhile isdigit (ds @ r) = r"
    using assms(1) by (simp_all add: list_all_iff)
qed

lemma read_stripped:
  assumes "ex = [] \<or> \<not> isdigit (hd ex) \<and> hd ex \<noteq> CHR ''.''" "read_exponent ex = Some x"
  shows "read_magnitude (stripped_digits p m @ ex) = Some (of_nat m * 10 powi (x - int p))"
proof -
  define f where "f = strip_zeros (if p = 0 then [] else point_digits p m)"
  let ?ip = "nat_to_string (m div 10 ^ p)" and ?r = "(if f = [] then [] else CHR ''.'' # f) @ ex"
  have split: "stripped_digits p m @ ex = ?ip @ ?r" by (simp add: stripped_digits_def f_def Let_def)
  have f: "list_all isdigit f" unfolding f_def by (rule strip_zeros_digits) (simp add: point_digits_digits)
  have "?r = [] \<or> \<not> isdigit (hd ?r)" using assms(1) by (auto simp: isdigit_def)
  note ip = digit_run [OF nat_to_string_digits this]
  have "f \<noteq> [] \<Longrightarrow> takeWhile isdigit (f @ ex) = f \<and> dropWhile isdigit (f @ ex) = ex"
    using digit_run [OF f] assms(1) by blast
  then have "read_magnitude (?ip @ ?r) = Some (of_nat (nat_of_digits (?ip @ f)) * 10 powi (x - int (length f)))"
    using assms unfolding read_magnitude_def ip by (cases "f = []") (auto simp: Let_def)
  then show ?thesis unfolding split f_def by (simp only: stripped_value)
qed

lemma read_exponent_text: "read_exponent (exponent_text x) = Some x" "hd (exponent_text x) = CHR ''e''"
  using pad_zero_digits [OF nat_to_string_digits, of 2 "nat \<bar>x\<bar>"]
  by (auto simp: read_exponent_def exponent_text_def pad_zero_def nat_of_digits_append)

section \<open>Rounding\<close>

lemma round_half_even_error:
  assumes "0 < b"
  shows "2 * \<bar>int (round_half_even a b) * int b - int a\<bar> \<le> int b"
proof -
  have a: "int a = int (a div b) * int b + int (a mod b)" by (metis div_mult_mod_eq of_nat_add of_nat_mult)
  have "int (a mod b) < int b" using assms by simp
  then show ?thesis unfolding a by (auto simp: round_half_even_def Let_def algebra_simps)
qed

lemma lift_steps_lifts: "2 \<le> b \<Longrightarrow> 0 < n \<Longrightarrow> d \<le> b ^ lift_steps b n d * n"
proof (induction b n d rule: lift_steps.induct)
  case (1 b n d)
  show ?case
  proof (cases "d \<le> n")
    case True
    with 1 show ?thesis by (simp add: lift_steps.simps [of b n d])
  next
    case False
    with 1 have "d \<le> b ^ lift_steps b (b * n) d * (b * n)" by simp
    with False 1 show ?thesis by (simp add: lift_steps.simps [of b n d] algebra_simps)
  qed
qed

lemma scale_of_lower:
  assumes "2 \<le> b" "0 < n" "0 < d"
  shows "of_nat b powi scale_of b n d \<le> (of_nat n / of_nat d :: rat)"
proof (cases "d \<le> n")
  case True
  define L where "L = length (nat_base b (n div d)) - 1"
  have "nat_base b (n div d) \<noteq> []" by (subst nat_base.simps) simp
  then have s: "scale_of b n d = int L" using True by (cases "nat_base b (n div d)") (simp_all add: scale_of_def L_def)
  have "b ^ L \<le> n div d"
    unfolding L_def using assms True by (intro nat_base_length_lower) (simp_all add: div_greater_zero_iff)
  then have "b ^ L * d \<le> n" by (meson le_trans mult_le_mono1 div_times_less_eq_dividend)
  then have "(of_nat b ^ L * of_nat d :: rat) \<le> of_nat n" by (metis of_nat_le_iff of_nat_mult of_nat_power)
  with assms show ?thesis by (simp add: s pos_le_divide_eq)
next
  case False
  have "(of_nat d :: rat) \<le> of_nat b ^ lift_steps b n d * of_nat n"
    using lift_steps_lifts [OF assms(1,2), of d] by (metis of_nat_le_iff of_nat_mult of_nat_power)
  with False assms show ?thesis by (simp add: scale_of_def power_int_minus field_simps)
qed

lemma round_half_even_rat:
  assumes "0 < b"
  shows "2 * \<bar>of_nat (round_half_even a b) - of_nat a / of_nat b\<bar> \<le> (1 :: rat)"
proof -
  let ?q = "round_half_even a b"
  have "(of_int (2 * \<bar>int ?q * int b - int a\<bar>) :: rat) \<le> of_int (int b)"
    using round_half_even_error [OF assms] by (simp only: of_int_le_iff)
  then have "2 * \<bar>of_nat ?q * of_nat b - of_nat a\<bar> \<le> (of_nat b :: rat)" by simp
  moreover have "of_nat ?q * of_nat b - of_nat a = (of_nat ?q - of_nat a / of_nat b) * (of_nat b :: rat)"
    using assms by (simp add: field_simps)
  ultimately have "2 * \<bar>of_nat ?q - of_nat a / of_nat b\<bar> * of_nat b \<le> (1 :: rat) * of_nat b" by (simp add: abs_mult)
  then show ?thesis using assms by (rule mult_right_le_imp_le [OF _ of_nat_0_less_iff [THEN iffD2]])
qed

text \<open>Rounding to \<open>p\<close> significant digits is off by at most half a unit of the last digit.\<close>

lemma round_sig_error:
  assumes "2 \<le> b" "0 < n" "0 < d" "0 < p" "round_sig b p n d = (m, x)"
  shows "2 * \<bar>of_nat m * of_nat b powi (x - int (p - 1)) - of_nat n / of_nat d\<bar> * of_nat b ^ (p - 1) \<le> (of_nat n / of_nat d :: rat)"
proof -
  define X where "X = scale_of b n d"
  define k where "k = int p - 1 - X"
  define q where "q = (if 0 \<le> k then round_half_even (n * b ^ nat k) d else round_half_even n (d * b ^ nat (- k)))"
  let ?B = "of_nat b :: rat"
  have B: "0 < ?B" "?B \<noteq> 0" using assms(1) by simp_all
  have mx: "(m, x) = (if q = b ^ p then (b ^ (p - 1), X + 1) else (q, X))"
    using assms(5) unfolding round_sig_def Let_def X_def [symmetric] k_def [symmetric] q_def [symmetric] by simp
  have "of_nat (b ^ p) * ?B powi (X - int (p - 1)) = of_nat (b ^ (p - 1)) * ?B powi (X + 1 - int (p - 1))"
    using assms(4) B by (cases p) (simp_all add: power_int_diff power_int_add)
  then have v: "of_nat m * ?B powi (x - int (p - 1)) = of_nat q * ?B powi (- k)"
    using mx assms(4) by (auto simp: k_def of_nat_diff algebra_simps split: if_splits)
  have "2 * \<bar>of_nat q - of_nat n / of_nat d * ?B powi k\<bar> \<le> 1"
  proof (cases "0 \<le> k")
    case True
    then show ?thesis using round_half_even_rat [OF assms(3), of "n * b ^ nat k"] by (simp add: q_def power_int_def)
  next
    case False
    have "0 < d * b ^ nat (- k)" using assms(1,3) by simp
    from round_half_even_rat [OF this, of n] False show ?thesis by (simp add: q_def power_int_def field_simps)
  qed
  then have "2 * \<bar>of_nat q - of_nat n / of_nat d * ?B powi k\<bar> * ?B powi (- k) \<le> ?B powi (- k)"
    using B(1) by (simp add: mult_left_le_one_le zero_less_power_int)
  moreover have "of_nat q * ?B powi (- k) - of_nat n / of_nat d = (of_nat q - of_nat n / of_nat d * ?B powi k) * ?B powi (- k)"
    using B(2) by (simp add: left_diff_distrib power_int_minus)
  ultimately have err: "2 * \<bar>of_nat q * ?B powi (- k) - of_nat n / of_nat d\<bar> \<le> ?B powi (- k)"
    using B(1) by (simp add: abs_mult zero_less_power_int)
  have "?B powi (- k) * ?B ^ (p - 1) = ?B powi X"
    using assms(4) B(2) by (simp add: k_def of_nat_diff flip: power_int_of_nat power_int_add)
  then have "?B powi (- k) * ?B ^ (p - 1) \<le> of_nat n / of_nat d" using scale_of_lower [OF assms(1-3)] by (simp only: X_def)
  then show ?thesis unfolding v using mult_right_mono [OF err, of "?B ^ (p - 1)"] by (rule order_trans [rotated]) simp
qed

section \<open>The printed value\<close>

lemma read_decimal_nat: "read_decimal (nat_to_string n) = Some (of_nat n)"
proof -
  have "nat_to_string n \<noteq> []" "hd (nat_to_string n) \<noteq> CHR ''-''"
    using nat_to_string_digits [of n] by (cases "nat_to_string n"; auto simp: isdigit_def)+
  moreover note run = digit_run [OF nat_to_string_digits disjI1 [OF refl], of n, unfolded append_Nil2]
  have "read_magnitude (nat_to_string n) = Some (of_nat n)" unfolding read_magnitude_def run by (simp add: read_exponent_def)
  ultimately show ?thesis by (simp add: read_decimal_def)
qed

lemma double_value_fraction: "of_nat m * 2 powi e = (of_nat (numer m e) / of_nat (denom e) :: rat)"
  by (simp add: numer_def denom_def power_int_def field_simps)

lemma read_general:
  assumes "0 < p" "m \<noteq> 0" "round_sig 10 p (numer m e) (denom e) = (n, x)"
  shows "read_decimal (format_general p (Finite s m e)) = Some ((if s then - 1 else 1) * (of_nat n * 10 powi (x - int (p - 1))))"
proof -
  have sign: "read_decimal (sign_text s @ t) = map_option (\<lambda>v. (if s then - 1 else 1) * v) (read_magnitude t)"
    if "t \<noteq> []" "hd t \<noteq> CHR ''-''" for t
    using that by (cases "read_magnitude t") (auto simp: read_decimal_def sign_text_def)
  have "stripped_digits q n @ r \<noteq> []" "hd (stripped_digits q n @ r) \<noteq> CHR ''-''" for q r
    using nat_to_string_digits [of "n div 10 ^ q"]
    by (cases "nat_to_string (n div 10 ^ q)"; auto simp: stripped_digits_def Let_def isdigit_def)+
  note front = this this [of _ "[]", simplified]
  have "read_magnitude (stripped_digits q n @ exponent_text x) = Some (of_nat n * 10 powi (x - int q))" for q
    by (rule read_stripped) (simp_all add: read_exponent_text isdigit_def)
  moreover have "read_magnitude (stripped_digits q n) = Some (of_nat n * 10 powi (- int q))" for q
    using read_stripped [of "[]" 0 q n] by (simp add: read_exponent_def)
  ultimately show ?thesis
    using assms by (auto simp: sign front of_nat_diff algebra_simps)
qed

text \<open>Printing with nine significant digits.\<close>

lemma read_format_general_9:
  assumes "is_finite d"
  shows "\<exists>q. read_decimal (format_general 9 d) = Some q \<and> within_9_digits q d"
proof -
  obtain s m e where d: "d = Finite s m e" using assms by (cases d) auto
  show ?thesis
  proof (cases "m = 0")
    case True
    have "read_decimal (sign_text s @ ''0'') = Some 0"
      by (cases s) (simp_all add: read_decimal_def read_magnitude_def read_exponent_def sign_text_def isdigit_def nat_of_digits_def)
    with True d show ?thesis by (simp add: within_9_digits_def)
  next
    case False
    obtain n x where r: "round_sig 10 9 (numer m e) (denom e) = (n, x)" by force
    have "0 < numer m e" using False by (simp add: numer_def)
    from round_sig_error [OF _ this denom_pos _ r]
    have "2 * \<bar>of_nat n * 10 powi (x - 8) - of_nat m * 2 powi e\<bar> * 10 ^ 8 \<le> (of_nat m * 2 powi e :: rat)"
      by (simp flip: double_value_fraction)
    then have "within_9_digits ((if s then - 1 else 1) * (of_nat n * 10 powi (x - 8))) d"
      by (auto simp: within_9_digits_def d abs_mult abs_minus_commute algebra_simps)
    with read_general [OF _ False r, of s] d show ?thesis by (intro exI conjI) simp_all
  qed
qed

end
