(* ===== verification/Json_Spec.thy ===== *)
theory Json_Spec
  imports Text_Util Doubles
begin

text \<open>
  The specification of the JSON bodies: JSON values, their compact text, and a reader for compact JSON
  (RFC 8259 without white space between tokens).  The reader returns the value a text stands
  for; \<open>json_read_print\<close> shows that it inverts the printer.  The components prove that the text
  they assemble is the print of the value they mean, so that this one round trip covers every body.
  Numbers are kept as their lexeme, checked against the number grammar.
\<close>

section \<open>Numbers\<close>

definition exponent_ok :: "string \<Rightarrow> bool" where
  "exponent_ok s \<longleftrightarrow>
     (case s of
        [] \<Rightarrow> True
      | c # r \<Rightarrow> (c = CHR ''e'' \<or> c = CHR ''E'') \<and>
          (let ds = (case r of [] \<Rightarrow> [] | d # t \<Rightarrow> if d = CHR ''+'' \<or> d = CHR ''-'' then t else r)
           in ds \<noteq> [] \<and> list_all isdigit ds))"

definition fraction_ok :: "string \<Rightarrow> bool" where
  "fraction_ok s \<longleftrightarrow>
     (case s of
        [] \<Rightarrow> True
      | c # r \<Rightarrow> if c = CHR ''.'' then takeWhile isdigit r \<noteq> [] \<and> exponent_ok (dropWhile isdigit r)
          else exponent_ok s)"

definition magnitude_ok :: "string \<Rightarrow> bool" where
  "magnitude_ok s \<longleftrightarrow>
     (let ds = takeWhile isdigit s in
      ds \<noteq> [] \<and> (hd ds = CHR ''0'' \<longrightarrow> length ds = 1) \<and> fraction_ok (dropWhile isdigit s))"

definition is_json_number :: "string \<Rightarrow> bool" where
  "is_json_number s \<longleftrightarrow>
     (case s of [] \<Rightarrow> False | c # r \<Rightarrow> if c = CHR ''-'' then magnitude_ok r else magnitude_ok s)"

definition json_number_char :: "char \<Rightarrow> bool" where
  "json_number_char c \<longleftrightarrow> isdigit c \<or> c \<in> set ''+-.eE''"

section \<open>Values, printer and reader\<close>

datatype json = JNull | JBool bool | JNum string | JStr string | JArr "json list" | JObj "(string \<times> json) list"

definition quoted :: "string \<Rightarrow> string" where
  "quoted s = [DQ] @ json_escape s @ [DQ]"

fun json_print :: "json \<Rightarrow> string" where
  "json_print JNull = ''null''"
| "json_print (JBool b) = (if b then ''true'' else ''false'')"
| "json_print (JNum s) = s"
| "json_print (JStr s) = quoted s"
| "json_print (JArr js) = ''['' @ join (CHR '','') (map json_print js) @ '']''"
| "json_print (JObj ms) = ''{'' @ join (CHR '','') (map (\<lambda>(k, j). quoted k @ '':'' @ json_print j) ms) @ ''}''"

fun json_wf :: "json \<Rightarrow> bool" where
  "json_wf (JNum s) = is_json_number s"
| "json_wf (JArr js) = (\<forall>j \<in> set js. json_wf j)"
| "json_wf (JObj ms) = (\<forall>(k, j) \<in> set ms. json_wf j)"
| "json_wf _ = True"

definition expect :: "string \<Rightarrow> 'a \<Rightarrow> string \<Rightarrow> ('a \<times> string) option" where
  "expect w v s = (if prefix w s then Some (v, drop (length w) s) else None)"

text \<open>The reader; the first argument bounds the depth and length of the value read.\<close>

fun json_value :: "nat \<Rightarrow> string \<Rightarrow> (json \<times> string) option"
and json_elements :: "nat \<Rightarrow> string \<Rightarrow> (json list \<times> string) option"
and json_members :: "nat \<Rightarrow> string \<Rightarrow> ((string \<times> json) list \<times> string) option" where
  "json_value 0 s = None"
| "json_value (Suc n) s =
     (case s of
        [] \<Rightarrow> None
      | c # r \<Rightarrow>
          if c = DQ then map_option (\<lambda>(t, u). (JStr t, u)) (json_read_string r)
          else if c = CHR ''['' then
            (case r of d # t \<Rightarrow> if d = CHR '']'' then Some (JArr [], t)
                else map_option (\<lambda>(js, u). (JArr js, u)) (json_elements n r)
             | [] \<Rightarrow> None)
          else if c = CHR ''{'' then
            (case r of d # t \<Rightarrow> if d = CHR ''}'' then Some (JObj [], t)
                else map_option (\<lambda>(ms, u). (JObj ms, u)) (json_members n r)
             | [] \<Rightarrow> None)
          else if c = CHR ''n'' then expect ''null'' JNull s
          else if c = CHR ''t'' then expect ''true'' (JBool True) s
          else if c = CHR ''f'' then expect ''false'' (JBool False) s
          else let t = takeWhile json_number_char s in
            if is_json_number t then Some (JNum t, dropWhile json_number_char s) else None)"
| "json_elements 0 s = None"
| "json_elements (Suc n) s =
     (case json_value n s of
        Some (j, d # t) \<Rightarrow>
          if d = CHR '','' then map_option (\<lambda>(js, u). (j # js, u)) (json_elements n t)
          else if d = CHR '']'' then Some ([j], t) else None
      | _ \<Rightarrow> None)"
| "json_members 0 s = None"
| "json_members (Suc n) s =
     (case s of
        c # r \<Rightarrow>
          if c = DQ then
            (case json_read_string r of
               Some (k, e # t) \<Rightarrow>
                 if e = CHR '':'' then
                   (case json_value n t of
                      Some (j, d # u) \<Rightarrow>
                        if d = CHR '','' then map_option (\<lambda>(ms, w). ((k, j) # ms, w)) (json_members n u)
                        else if d = CHR ''}'' then Some ([(k, j)], u) else None
                    | _ \<Rightarrow> None)
                 else None
             | _ \<Rightarrow> None)
          else None
      | [] \<Rightarrow> None)"

definition json_read :: "string \<Rightarrow> json option" where
  "json_read s = (case json_value (length s) s of Some (j, []) \<Rightarrow> Some j | _ \<Rightarrow> None)"

section \<open>The printer is inverted by the reader\<close>

text \<open>What may follow a value: the end, or a byte that cannot continue a number.\<close>

definition value_end :: "string \<Rightarrow> bool" where
  "value_end s \<longleftrightarrow> s = [] \<or> \<not> json_number_char (hd s)"

lemma read_quoted: "json_read_string (json_escape s @ DQ # rest) = Some (s, rest)"
  by (rule json.read_escape)

lemma list_all_dropWhile: "(\<And>c. P c \<Longrightarrow> Q c) \<Longrightarrow> list_all Q (dropWhile P s) \<Longrightarrow> list_all Q s"
  by (induction s) (auto split: if_splits)

lemma isdigit_number_char: "isdigit c \<Longrightarrow> json_number_char c"
  by (simp add: json_number_char_def)

lemma magnitude_number_chars: "magnitude_ok s \<Longrightarrow> list_all json_number_char s"
proof -
  assume m: "magnitude_ok s"
  have ex: "list_all json_number_char t" if "exponent_ok t" for t
    using that by (auto simp: exponent_ok_def json_number_char_def list_all_iff Let_def split: list.splits if_splits)
  have fr: "list_all json_number_char t" if "fraction_ok t" for t
  proof (cases t)
    case (Cons c r)
    show ?thesis
    proof (cases "c = CHR ''.''")
      case True
      with that Cons have "exponent_ok (dropWhile isdigit r)" by (simp add: fraction_ok_def)
      from list_all_dropWhile [OF isdigit_number_char ex [OF this]] have "list_all json_number_char r" .
      with True Cons show ?thesis by (simp add: json_number_char_def)
    next
      case False
      with that Cons show ?thesis by (intro ex) (simp add: fraction_ok_def)
    qed
  qed simp
  from m have "list_all json_number_char (dropWhile isdigit s)"
    by (intro fr) (simp add: magnitude_ok_def Let_def)
  with isdigit_number_char show ?thesis by (rule list_all_dropWhile)
qed

lemma is_json_number_chars: "is_json_number s \<Longrightarrow> s \<noteq> [] \<and> list_all json_number_char s"
  by (auto simp: is_json_number_def json_number_char_def dest: magnitude_number_chars
      split: list.splits if_splits)

lemma json_number_char_plain:
  "json_number_char c \<Longrightarrow> c \<notin> {DQ, CHR ''['', CHR ''{'', CHR ''n'', CHR ''t'', CHR ''f'', CHR '']'', CHR ''}'', CHR '',''}"
  by (auto simp: json_number_char_def isdigit_def)

lemma takeWhile_value_end:
  assumes "list_all json_number_char s" "value_end rest"
  shows "takeWhile json_number_char (s @ rest) = s" "dropWhile json_number_char (s @ rest) = rest"
proof -
  have all: "\<And>c. c \<in> set s \<Longrightarrow> json_number_char c" using assms(1) by (auto simp: list_all_iff)
  have "takeWhile json_number_char rest = [] \<and> dropWhile json_number_char rest = rest"
    using assms(2) by (cases rest) (auto simp: value_end_def)
  with all show "takeWhile json_number_char (s @ rest) = s" "dropWhile json_number_char (s @ rest) = rest"
    by (simp_all add: takeWhile_append2 dropWhile_append2)
qed

lemma json_value_number:
  assumes "is_json_number s" "value_end rest"
  shows "json_value (Suc n) (s @ rest) = Some (JNum s, rest)"
proof -
  obtain c t where s: "s = c # t" "json_number_char c" and all: "list_all json_number_char s"
    using is_json_number_chars [OF assms(1)] by (cases s) auto
  note tw = takeWhile_value_end [OF all assms(2)]
  have "json_value (Suc n) (s @ rest) =
    (let t = takeWhile json_number_char (s @ rest) in
       if is_json_number t then Some (JNum t, dropWhile json_number_char (s @ rest)) else None)"
    using json_number_char_plain [OF s(2)] by (simp only: s(1) append_Cons json_value.simps list.case) auto
  then show ?thesis using assms(1) by (simp add: tw)
qed


lemma quoted_Cons: "quoted s @ rest = DQ # json_escape s @ DQ # rest"
  by (simp add: quoted_def)

lemma json_value_string: "json_value (Suc n) (quoted s @ rest) = Some (JStr s, rest)"
  by (simp add: quoted_Cons read_quoted)

lemma json_print_start:
  assumes "json_wf j"
  shows "\<exists>c t. json_print j = c # t \<and> c \<noteq> CHR '']'' \<and> c \<noteq> CHR ''}''"
proof (cases j)
  case (JNum s)
  with assms obtain c t where "s = c # t" "json_number_char c"
    using is_json_number_chars [of s] by (cases s) auto
  with JNum json_number_char_plain [of c] show ?thesis by auto
qed (auto simp: quoted_def)

text \<open>Fuel that suffices for a value.\<close>

fun json_fuel :: "json \<Rightarrow> nat" where
  "json_fuel (JArr js) = Suc (sum_list (map (\<lambda>j. Suc (json_fuel j)) js))"
| "json_fuel (JObj ms) = Suc (sum_list (map (\<lambda>(k, j). Suc (json_fuel j)) ms))"
| "json_fuel _ = 1"

lemma json_fuel_pos: "0 < json_fuel j"
  by (cases j) auto

lemma value_end_bracket: "value_end (CHR '']'' # s)" "value_end (CHR ''}'' # s)" "value_end (CHR '','' # s)" "value_end []"
  by (auto simp: value_end_def json_number_char_def isdigit_def)

lemma json_elements_print:
  assumes "\<And>j n rest. j \<in> set js \<Longrightarrow> json_fuel j \<le> n \<Longrightarrow> value_end rest \<Longrightarrow>
      json_value n (json_print j @ rest) = Some (j, rest)"
    and "js \<noteq> []" "sum_list (map (\<lambda>j. Suc (json_fuel j)) js) \<le> n"
  shows "json_elements n (join (CHR '','') (map json_print js) @ CHR '']'' # rest) = Some (js, rest)"
  using assms
proof (induction js arbitrary: n)
  case Nil
  then show ?case by simp
next
  case (Cons j js)
  then obtain n' where n: "n = Suc n'" by (cases n) auto
  have v: "value_end u \<Longrightarrow> json_value n' (json_print j @ u) = Some (j, u)" for u
    using Cons.prems n by simp
  show ?case
  proof (cases js)
    case Nil
    with v [OF value_end_bracket(1)] n show ?thesis by simp
  next
    case (Cons j2 js2)
    with Cons.IH [of n'] Cons.prems n
    have "json_elements n' (join (CHR '','') (map json_print js) @ CHR '']'' # rest) = Some (js, rest)" by simp
    with v [OF value_end_bracket(3)] n Cons show ?thesis by simp
  qed
qed

lemma json_members_print:
  assumes "\<And>k j n rest. (k, j) \<in> set ms \<Longrightarrow> json_fuel j \<le> n \<Longrightarrow> value_end rest \<Longrightarrow>
      json_value n (json_print j @ rest) = Some (j, rest)"
    and "ms \<noteq> []" "sum_list (map (\<lambda>(k, j). Suc (json_fuel j)) ms) \<le> n"
  shows "json_members n (join (CHR '','') (map (\<lambda>(k, j). quoted k @ '':'' @ json_print j) ms) @ CHR ''}'' # rest)
    = Some (ms, rest)"
  using assms
proof (induction ms arbitrary: n)
  case Nil
  then show ?case by simp
next
  case (Cons m ms)
  then obtain n' where n: "n = Suc n'" by (cases n) (auto split: prod.splits)
  obtain k j where m: "m = (k, j)" by force
  have v: "value_end u \<Longrightarrow> json_value n' (json_print j @ u) = Some (j, u)" for u
    using Cons.prems(1) [of k j n' u] Cons.prems(3) n m by simp
  show ?case
  proof (cases ms)
    case Nil
    with v [OF value_end_bracket(2)] n m show ?thesis by (simp add: quoted_def read_quoted)
  next
    case (Cons m2 ms2)
    have "json_members n' (join (CHR '','') (map (\<lambda>(k, j). quoted k @ '':'' @ json_print j) ms) @ CHR ''}'' # rest)
      = Some (ms, rest)"
    proof (rule Cons.IH)
      show "ms \<noteq> []" using Cons by simp
      show "sum_list (map (\<lambda>(k, j). Suc (json_fuel j)) ms) \<le> n'" using Cons.prems(3) n m by simp
      show "json_value n'' (json_print j' @ u) = Some (j', u)"
        if "(k', j') \<in> set ms" "json_fuel j' \<le> n''" "value_end u" for k' j' n'' u
        using Cons.prems(1) [of k' j' n'' u] that by simp
    qed
    with v [OF value_end_bracket(3)] n m Cons show ?thesis
      by (simp add: quoted_def read_quoted case_prod_unfold)
  qed
qed


lemma json_value_array:
  "js \<noteq> [] \<Longrightarrow> \<forall>j \<in> set js. json_wf j \<Longrightarrow>
     json_value (Suc n) (json_print (JArr js) @ rest) =
       map_option (\<lambda>(js, u). (JArr js, u))
         (json_elements n (join (CHR '','') (map json_print js) @ CHR '']'' # rest))"
proof -
  assume js: "js \<noteq> []" "\<forall>j \<in> set js. json_wf j"
  then obtain j js' where js': "js = j # js'" by (cases js) auto
  with js obtain c t where "json_print j = c # t" "c \<noteq> CHR '']''" using json_print_start [of j] by auto
  then have "\<exists>t. join (CHR '','') (map json_print js) = c # t" by (cases js') (auto simp: js')
  with \<open>c \<noteq> CHR '']''\<close> show ?thesis by auto
qed

lemma json_value_object:
  assumes "ms \<noteq> []"
  shows "json_value (Suc n) (json_print (JObj ms) @ rest) =
       map_option (\<lambda>(ms, u). (JObj ms, u))
         (json_members n (join (CHR '','') (map (\<lambda>(k, j). quoted k @ '':'' @ json_print j) ms) @ CHR ''}'' # rest))"
proof -
  from assms obtain m ms' where ms: "ms = m # ms'" by (cases ms) auto
  have "\<exists>t. join (CHR '','') (map (\<lambda>(k, j). quoted k @ '':'' @ json_print j) ms) = DQ # t"
    by (cases ms') (auto simp: ms quoted_def split: prod.split)
  then show ?thesis by auto
qed

lemma json_value_print:
  "json_wf j \<Longrightarrow> json_fuel j \<le> n \<Longrightarrow> value_end rest \<Longrightarrow> json_value n (json_print j @ rest) = Some (j, rest)"
proof (induction j arbitrary: n rest)
  case (JArr js)
  then obtain n' where n: "n = Suc n'" by (cases n) auto
  show ?case
  proof (cases "js = []")
    case False
    then have "json_elements n' (join (CHR '','') (map json_print js) @ CHR '']'' # rest) = Some (js, rest)"
      using JArr n by (intro json_elements_print) auto
    with JArr.prems False n show ?thesis using json_value_array [of js n' rest] by simp
  qed (simp add: n)
next
  case (JObj ms)
  then obtain n' where n: "n = Suc n'" by (cases n) auto
  show ?case
  proof (cases "ms = []")
    case False
    then have "json_members n' (join (CHR '','') (map (\<lambda>(k, j). quoted k @ '':'' @ json_print j) ms) @ CHR ''}'' # rest)
        = Some (ms, rest)"
      using JObj n by (intro json_members_print) (auto simp: case_prod_unfold)
    with False n show ?thesis using json_value_object [of ms n' rest] by simp
  qed (simp add: n)
next
  case (JNum s)
  then show ?case using json_value_number by (cases n) auto
next
  case (JStr s)
  then show ?case using json_value_string by (cases n) (auto simp del: json_value.simps)
next
  case JNull
  then show ?case by (cases n) (auto simp: expect_def)
next
  case (JBool b)
  then show ?case by (cases n) (auto simp: expect_def)
qed

lemma length_join: "sum_list (map (\<lambda>l. Suc (length l)) ls) \<le> Suc (length (join c ls))"
  by (induction c ls rule: join.induct) auto

lemma json_fuel_length: "json_wf j \<Longrightarrow> json_fuel j \<le> length (json_print j)"
proof (induction j)
  case (JArr js)
  then have "sum_list (map (\<lambda>j. Suc (json_fuel j)) js) \<le> sum_list (map (\<lambda>j. Suc (length (json_print j))) js)"
    by (intro sum_list_mono) auto
  also have "\<dots> \<le> Suc (length (join (CHR '','') (map json_print js)))"
    using length_join [of "map json_print js"] by (simp add: comp_def)
  finally show ?case by simp
next
  case (JObj ms)
  let ?p = "\<lambda>(k, j). quoted k @ '':'' @ json_print j"
  have "sum_list (map (\<lambda>(k, j). Suc (json_fuel j)) ms) \<le> sum_list (map (\<lambda>m. Suc (length (?p m))) ms)"
    using JObj by (intro sum_list_mono) (force simp: case_prod_unfold)
  also have "\<dots> \<le> Suc (length (join (CHR '','') (map ?p ms)))"
    using length_join [of "map ?p ms"] by (simp add: comp_def)
  finally show ?case by simp
next
  case (JNum s)
  then show ?case using is_json_number_chars [of s] by (cases s) auto
qed (auto simp: quoted_def)

lemma json_read_print: "json_wf j \<Longrightarrow> json_read (json_print j) = Some j"
  using json_value_print [of j "length (json_print j)" "[]"] json_fuel_length
  by (simp add: json_read_def value_end_bracket)

section \<open>Printed numbers are JSON numbers\<close>

lemma nat_to_string_lead: "hd (nat_to_string n) = CHR ''0'' \<Longrightarrow> n = 0"
proof (induction n rule: less_induct)
  case (less n)
  show ?case
  proof (cases "n < 10")
    case True
    with less.prems have "digit_char n = CHR ''0''" by (subst (asm) nat_to_string_rec) simp
    then have "byte (digit_char n) = 48" by simp
    with True show ?thesis by (simp add: byte_digit_char)
  next
    case False
    with less.prems have "hd (nat_to_string (n div 10)) = CHR ''0''" by (subst (asm) nat_to_string_rec) simp
    with False less.IH [of "n div 10"] show ?thesis by simp
  qed
qed

lemma takeWhile_digits:
  assumes "list_all isdigit ds" "r = [] \<or> \<not> isdigit (hd r)"
  shows "takeWhile isdigit (ds @ r) = ds" "dropWhile isdigit (ds @ r) = r"
proof -
  have "takeWhile isdigit r = [] \<and> dropWhile isdigit r = r" using assms(2) by (cases r) auto
  then show "takeWhile isdigit (ds @ r) = ds" "dropWhile isdigit (ds @ r) = r"
    using assms(1) by (simp_all add: list_all_iff takeWhile_append2 dropWhile_append2)
qed

lemma magnitude_okI:
  assumes "fraction_ok r" "r = [] \<or> \<not> isdigit (hd r)"
  shows "magnitude_ok (nat_to_string n @ r)"
proof -
  have "length (nat_to_string n) = 1" if "hd (nat_to_string n) = CHR ''0''"
    using nat_to_string_lead [OF that] by (simp add: nat_to_string_rec)
  with assms(1) show ?thesis
    by (simp add: magnitude_ok_def Let_def takeWhile_digits [OF nat_to_string_digits assms(2)])
qed

lemma magnitude_not_minus: "magnitude_ok s \<Longrightarrow> s \<noteq> [] \<and> hd s \<noteq> CHR ''-''"
  by (cases s) (auto simp: magnitude_ok_def isdigit_def split: if_splits)

lemma is_json_number_sign: "magnitude_ok s \<Longrightarrow> is_json_number (sign_text b @ s)"
  using magnitude_not_minus [of s] by (cases s) (auto simp: is_json_number_def sign_text_def)

lemma is_json_number_magnitude: "magnitude_ok s \<Longrightarrow> is_json_number s"
  using is_json_number_sign [of s False] by (simp add: sign_text_def)

lemma nat_is_json_number: "is_json_number (nat_to_string n)"
  using magnitude_okI [of "[]" n] by (simp add: fraction_ok_def is_json_number_magnitude)

lemma fraction_okI:
  assumes "ds \<noteq> []" "list_all isdigit ds" "exponent_ok r" "r = [] \<or> \<not> isdigit (hd r)"
  shows "fraction_ok (CHR ''.'' # ds @ r)"
  using assms by (simp add: fraction_ok_def takeWhile_digits)

lemma exponent_text_ok: "exponent_ok (exponent_text x)" "\<not> isdigit (hd (exponent_text x))"
proof -
  have "pad_zero 2 (nat_to_string n) \<noteq> [] \<and> list_all isdigit (pad_zero 2 (nat_to_string n))" for n
    using pad_zero_digits [OF nat_to_string_digits] by (simp add: pad_zero_def)
  then show "exponent_ok (exponent_text x)" by (simp add: exponent_ok_def exponent_text_def)
  show "\<not> isdigit (hd (exponent_text x))" by (simp add: exponent_text_def isdigit_def)
qed

lemma point_not_digit [simp]: "\<not> isdigit (CHR ''.'')"
  by (simp add: isdigit_def)

lemma fixed_is_json_number: "is_json_number (format_fixed p (Finite s m e))"
proof -
  let ?q = "round_half_even (numer m e * 10 ^ p) (denom e)"
  have "p \<noteq> 0 \<Longrightarrow> point_digits p ?q \<noteq> []" by (simp add: point_digits_def pad_zero_def)
  then have "fraction_ok (if p = 0 then [] else CHR ''.'' # point_digits p ?q)"
    using fraction_okI [OF _ point_digits_digits, of p ?q "[]"] by (simp add: fraction_ok_def exponent_ok_def)
  then have "magnitude_ok (fixed_digits p ?q)"
    unfolding fixed_digits_def by (rule magnitude_okI) simp
  then show ?thesis by (simp add: is_json_number_sign)
qed

lemma stripped_magnitude:
  assumes "exponent_ok r" "r = [] \<or> \<not> isdigit (hd r)"
  shows "magnitude_ok (stripped_digits p m @ r)"
proof -
  let ?f = "strip_zeros (if p = 0 then [] else point_digits p m)"
  have d: "list_all isdigit ?f" by (rule strip_zeros_digits) (simp add: point_digits_digits)
  have "fraction_ok r" using assms
    by (cases r) (auto simp: fraction_ok_def exponent_ok_def)
  then have "fraction_ok ((if ?f = [] then [] else CHR ''.'' # ?f) @ r)"
    using fraction_okI [OF _ d assms] by simp
  then have "magnitude_ok (nat_to_string (m div 10 ^ p) @ (if ?f = [] then [] else CHR ''.'' # ?f) @ r)"
    by (rule magnitude_okI) (use assms(2) in simp)
  then show ?thesis by (simp add: stripped_digits_def Let_def)
qed

lemma general_is_json_number: "is_json_number (format_general p (Finite s m e))"
proof -
  have "magnitude_ok ''0''" using magnitude_okI [of "[]" 0] by (simp add: fraction_ok_def nat_to_string_rec)
  moreover have "magnitude_ok (stripped_digits q d)" for q d
    using stripped_magnitude [of "[]"] by (simp add: exponent_ok_def)
  moreover have "magnitude_ok (stripped_digits q d @ exponent_text x)" for q d x
    by (rule stripped_magnitude) (simp_all add: exponent_text_ok)
  ultimately show ?thesis
    by (auto intro: is_json_number_sign split: prod.split)
qed


lemma fixed_number: "is_finite d \<Longrightarrow> is_json_number (format_fixed p d)"
  using fixed_is_json_number by (cases d) simp_all

lemma general_number: "is_finite d \<Longrightarrow> is_json_number (format_general p d)"
  using general_is_json_number by (cases d) (simp_all del: format_general.simps)

section \<open>Assembling bodies\<close>

text \<open>The text \<open>"key":\<close> the sources write as a literal, for the keys they use.\<close>

definition json_field :: "string \<Rightarrow> string" where
  "json_field key = [DQ] @ key @ [DQ] @ '':''"

definition json_keys :: "string list" where
  "json_keys = [''path'', ''libmaxminddb_version'', ''database_type'', ''ip_version'',
     ''binary_format_major_version'', ''binary_format_minor_version'', ''node_count'', ''record_size'',
     ''build_epoch'', ''build_date'', ''age_days'', ''age_ms'', ''age_ns'', ''languages'', ''description'',
     ''description_list'', ''language'', ''status'', ''version'', ''uptime_seconds'', ''databases'', ''open'',
     ''ip'', ''country_code'', ''country_name'', ''continent_code'', ''asn'', ''as_org'', ''city_name'',
     ''postal_code'', ''latitude'', ''longitude'', ''accuracy_radius'', ''error'']"

lemma json_keys_plain: "k \<in> set json_keys \<Longrightarrow> json_escape k = k"
proof -
  have "list_all (\<lambda>k. json_escape k = k) json_keys" by code_simp
  then show "k \<in> set json_keys \<Longrightarrow> json_escape k = k" by (simp add: list_all_iff)
qed

lemma json_member: "k \<in> set json_keys \<Longrightarrow> quoted k @ CHR '':'' # s = json_field k @ s"
  by (simp add: quoted_def json_field_def json_keys_plain)

text \<open>Printed values hold no control byte, so \<^verbatim>\<open>c_str\<close> cuts nothing off.\<close>

lemma json_number_char_32: "json_number_char c \<Longrightarrow> 32 \<le> byte c"
  by (auto simp: json_number_char_def isdigit_def)

lemma quoted_32: "c \<in> set (quoted s) \<Longrightarrow> 32 \<le> byte c"
  using json_escape_clean by (auto simp: quoted_def)

lemma join_set: "set (join c ls) \<subseteq> {c} \<union> (\<Union>l \<in> set ls. set l)"
  by (induction c ls rule: join.induct) auto

lemma json_print_32: "json_wf j \<Longrightarrow> c \<in> set (json_print j) \<Longrightarrow> 32 \<le> byte c"
proof (induction j)
  case (JArr js)
  then have "c \<in> {CHR ''['', CHR '']'', CHR '',''} \<or> (\<exists>j \<in> set js. c \<in> set (json_print j))"
    using join_set [of "CHR '',''" "map json_print js"] by auto
  with JArr show ?case by auto
next
  case (JObj ms)
  then have "c \<in> {CHR ''{'', CHR ''}'', CHR '',''}
      \<or> (\<exists>(k, j) \<in> set ms. c \<in> set (quoted k) \<union> {CHR '':''} \<union> set (json_print j))"
    using join_set [of "CHR '',''" "map (\<lambda>(k, j). quoted k @ '':'' @ json_print j) ms"] by fastforce
  with JObj quoted_32 show ?case by fastforce
next
  case (JNum s)
  then show ?case
    using is_json_number_chars [of s] json_number_char_32 by (auto simp: list_all_iff)
next
  case (JBool b)
  then show ?case by (cases b) auto
qed (auto dest: quoted_32)

lemma json_print_c_str: "json_wf j \<Longrightarrow> c_str (json_print j) = json_print j"
  using json_print_32 [of j NUL] by (intro c_str_id) auto

end
