(* ===== verification/Db_Metadata.thy ===== *)
theory Db_Metadata
  imports Json_Spec Decimal_Spec
begin

text \<open>
  Database metadata: the functions of \<^verbatim>\<open>src/src/geoip.cpp\<close> that read the metadata section of an open
  database (\<^verbatim>\<open>format_build_time\<close>, \<^verbatim>\<open>make_metadata\<close>) and print it (\<^verbatim>\<open>nshgeoip --check-db\<close>).

  The contents of \<^verbatim>\<open>MMDB_metadata_s\<close>, as libmaxminddb fills it, is a record; a null pointer in it is
  \<^const>\<open>None\<close>.  The current time is an argument.  \<^verbatim>\<open>gmtime_r\<close> is the proleptic Gregorian calendar, computed by
  subtracting whole years and months inside a 400-year cycle.  A printer that meets a null
  language or description, which libmaxminddb never delivers, has no result (\<^const>\<open>None\<close>).
\<close>

section \<open>Model\<close>

record MMDB_metadata =
  md_database_type :: "string option"
  md_build_epoch :: "64 word"
  md_ip_version :: "16 word"
  md_format_major :: "16 word"
  md_format_minor :: "16 word"
  md_node_count :: "32 word"
  md_record_size :: "16 word"
  md_languages :: "string list"
  md_descriptions :: "(string option \<times> string option) list"

text \<open>The calendar behind \<^verbatim>\<open>gmtime_r\<close>.\<close>

definition leap_year :: "int \<Rightarrow> bool" where
  "leap_year y \<longleftrightarrow> y mod 4 = 0 \<and> (y mod 100 \<noteq> 0 \<or> y mod 400 = 0)"

definition year_length :: "int \<Rightarrow> nat" where
  "year_length y = (if leap_year y then 366 else 365)"

definition month_length :: "int \<Rightarrow> nat \<Rightarrow> nat" where
  "month_length y m =
     (if m = 2 then (if leap_year y then 29 else 28)
      else if m = 4 \<or> m = 6 \<or> m = 9 \<or> m = 11 then 30 else 31)"

function split_years :: "int \<Rightarrow> nat \<Rightarrow> int \<times> nat" where
  "split_years y d =
     (if d < year_length y then (y, d) else split_years (y + 1) (d - year_length y))"
  by pat_completeness auto
termination
  by (relation "measure snd") (auto simp: year_length_def)

declare split_years.simps [simp del]

function split_months :: "int \<Rightarrow> nat \<Rightarrow> nat \<Rightarrow> nat \<times> nat" where
  "split_months y m d =
     (if 12 \<le> m \<or> d < month_length y m then (m, d) else split_months y (m + 1) (d - month_length y m))"
  by pat_completeness auto
termination
  by (relation "measure (\<lambda>(y, m, d). 12 - m)") auto

declare split_months.simps [simp del]

text \<open>Day 0 is 1970-01-01; 719162 days separate it from 0001-01-01.  The result is year, month and day of month.\<close>

definition civil_date :: "int \<Rightarrow> int \<times> nat \<times> nat" where
  "civil_date days =
     (let z = days + 719162;
          (y, yd) = split_years (400 * (z div 146097) + 1) (nat (z mod 146097));
          (m, md) = split_months y 1 yd
      in (y, m, md + 1))"

definition two_digits :: "nat \<Rightarrow> string" where
  "two_digits n = pad_zero 2 (nat_to_string n)"

record tm =
  tm_sec :: nat
  tm_min :: nat
  tm_hour :: nat
  tm_mday :: nat
  tm_mon :: nat
  tm_year :: int

text \<open>\<^verbatim>\<open>gmtime_r\<close> fails when the year does not fit an \<^verbatim>\<open>int\<close>; the caller's zeroed \<^verbatim>\<open>tm\<close> then stays in place.\<close>

definition gmtime_r :: "int \<Rightarrow> tm option" where
  "gmtime_r t =
     (let (y, m, d) = civil_date (t div 86400); s = nat (t mod 86400) in
      if y - 1900 < - (2 ^ 31) \<or> 2 ^ 31 \<le> y - 1900 then None
      else Some \<lparr>tm_sec = s mod 60, tm_min = s div 60 mod 60, tm_hour = s div 3600, tm_mday = d, tm_mon = m - 1, tm_year = y - 1900\<rparr>)"

definition zero_tm :: tm where
  "zero_tm = \<lparr>tm_sec = 0, tm_min = 0, tm_hour = 0, tm_mday = 0, tm_mon = 0, tm_year = 0\<rparr>"

text \<open>The directives of \<^verbatim>\<open>strftime\<close> that the program uses.\<close>

definition strftime_field :: "char \<Rightarrow> tm \<Rightarrow> string" where
  "strftime_field c t =
     (if c = CHR ''Y'' then int_to_string (tm_year t + 1900)
      else if c = CHR ''m'' then two_digits (tm_mon t + 1)
      else if c = CHR ''d'' then two_digits (tm_mday t)
      else if c = CHR ''H'' then two_digits (tm_hour t)
      else if c = CHR ''M'' then two_digits (tm_min t)
      else if c = CHR ''S'' then two_digits (tm_sec t)
      else [])"

fun strftime :: "string \<Rightarrow> tm \<Rightarrow> string" where
  "strftime [] t = []"
| "strftime (c # f) t =
     (if c \<noteq> CHR ''%'' then c # strftime f t
      else case f of [] \<Rightarrow> [] | x # g \<Rightarrow> strftime_field x t @ strftime g t)"

definition utc_timestamp :: "int \<Rightarrow> string" where
  "utc_timestamp t =
     strftime ''%Y-%m-%dT%H:%M:%SZ'' (case gmtime_r t of None \<Rightarrow> zero_tm | Some tm_buf \<Rightarrow> tm_buf)"

definition format_build_time :: "64 word \<Rightarrow> string" where
  "format_build_time build_epoch = utc_timestamp (sint build_epoch)"

record GeoIpDbMetadata =
  database_type :: string
  build_epoch :: "64 word"
  build_time :: string
  age_days :: double
  age_ms :: "64 word"
  age_ns :: "64 word"

definition make_metadata :: "(double \<Rightarrow> 64 word) \<Rightarrow> int \<Rightarrow> MMDB_metadata \<Rightarrow> GeoIpDbMetadata" where
  "make_metadata ub now meta =
     (let age_seconds = double_of_int (now - sint (md_build_epoch meta)) in
      \<lparr>database_type = (case md_database_type meta of Some t \<Rightarrow> t | None \<Rightarrow> []),
       build_epoch = md_build_epoch meta,
       build_time = format_build_time (md_build_epoch meta),
       age_days = double_scale 1 86400 age_seconds,
       age_ms = double_to_uint64 ub (double_scale 1000 1 age_seconds),
       age_ns = double_to_uint64 ub (double_scale 1000000000 1 age_seconds)\<rparr>)"

definition word_text :: "'a::len word \<Rightarrow> string" where
  "word_text w = nat_to_string (unat w)"

fun join_languages :: "string list \<Rightarrow> string \<Rightarrow> string" where
  "join_languages [] sep = []"
| "join_languages [l] sep = l"
| "join_languages (l # l' # ls) sep = l @ sep @ join_languages (l' # ls) sep"

fun english_description :: "(string option \<times> string option) list \<Rightarrow> string" where
  "english_description [] = []"
| "english_description ((language, description) # ds) =
     (if language = Some ''en'' then (case description of Some t \<Rightarrow> t | None \<Rightarrow> [])
      else english_description ds)"

text \<open>The printers convert every description to \<^verbatim>\<open>std::string\<close>.\<close>

fun description_texts :: "(string option \<times> string option) list \<Rightarrow> (string \<times> string) list option" where
  "description_texts [] = Some []"
| "description_texts ((Some l, Some t) # ds) = map_option (\<lambda>r. (l, t) # r) (description_texts ds)"
| "description_texts (_ # ds) = None"

text \<open>\<^verbatim>\<open>printf("%-16s: %s\n", ...)\<close>.\<close>

definition table_row :: "string \<Rightarrow> string \<Rightarrow> string" where
  "table_row label value =
     c_str label @ replicate (16 - length (c_str label)) SP @ '': '' @ c_str value @ [LF]"

definition print_metadata_table ::
  "string \<Rightarrow> string \<Rightarrow> MMDB_metadata \<Rightarrow> GeoIpDbMetadata \<Rightarrow> string option" where
  "print_metadata_table lib_version path meta info =
     map_option (\<lambda>ds.
       table_row ''Path'' path
       @ table_row ''libmaxminddb'' lib_version
       @ table_row ''Database type'' (database_type info)
       @ table_row ''IP version'' (word_text (md_ip_version meta))
       @ table_row ''Binary format'' (word_text (md_format_major meta) @ ''.'' @ word_text (md_format_minor meta))
       @ table_row ''Node count'' (word_text (md_node_count meta))
       @ table_row ''Record size'' (word_text (md_record_size meta) @ '' bits'')
       @ table_row ''Build epoch'' (word_text (md_build_epoch meta))
       @ table_row ''Build date'' (build_time info)
       @ table_row ''Age'' (format_fixed 1 (age_days info) @ '' days'')
       @ table_row ''Age (ms)'' (word_text (age_ms info))
       @ table_row ''Age (ns)'' (word_text (age_ns info))
       @ (if md_languages meta \<noteq> [] then table_row ''Languages'' (join_languages (md_languages meta) '', '') else [])
       @ concat (map (\<lambda>(l, t). table_row (''Description ['' @ l @ '']'') t) ds))
     (description_texts (md_descriptions meta))"

definition print_metadata_json ::
  "string \<Rightarrow> string \<Rightarrow> MMDB_metadata \<Rightarrow> GeoIpDbMetadata \<Rightarrow> string option" where
  "print_metadata_json lib_version path meta info =
     map_option (\<lambda>ds. c_str (
       ''{'' @ json_field ''path'' @ quoted path
       @ '','' @ json_field ''libmaxminddb_version'' @ quoted lib_version
       @ '','' @ json_field ''database_type'' @ quoted (database_type info)
       @ '','' @ json_field ''ip_version'' @ word_text (md_ip_version meta)
       @ '','' @ json_field ''binary_format_major_version'' @ word_text (md_format_major meta)
       @ '','' @ json_field ''binary_format_minor_version'' @ word_text (md_format_minor meta)
       @ '','' @ json_field ''node_count'' @ word_text (md_node_count meta)
       @ '','' @ json_field ''record_size'' @ word_text (md_record_size meta)
       @ '','' @ json_field ''build_epoch'' @ word_text (md_build_epoch meta)
       @ '','' @ json_field ''build_date'' @ quoted (build_time info)
       @ '','' @ json_field ''age_days'' @ format_fixed 1 (age_days info)
       @ '','' @ json_field ''age_ms'' @ word_text (age_ms info)
       @ '','' @ json_field ''age_ns'' @ word_text (age_ns info)
       @ '','' @ json_field ''languages'' @ ''['' @ join (CHR '','') (map quoted (md_languages meta)) @ '']''
       @ '','' @ json_field ''description'' @ quoted (english_description (md_descriptions meta))
       @ '','' @ json_field ''description_list'' @ ''[''
       @ join (CHR '','') (map (\<lambda>(l, t). ''{'' @ json_field ''language'' @ quoted l @ '',''
            @ json_field ''description'' @ quoted t @ ''}'') ds)
       @ '']'' @ ''}'') @ [LF])
     (description_texts (md_descriptions meta))"

text \<open>Unlike its value, the language of a \<^verbatim>\<open>description_<lang>\<close> line is printed as it is.\<close>

definition ini_line :: "string \<Rightarrow> string \<Rightarrow> string" where
  "ini_line key value = key @ ''='' @ value @ [LF]"

definition print_metadata_ini ::
  "string \<Rightarrow> string \<Rightarrow> MMDB_metadata \<Rightarrow> GeoIpDbMetadata \<Rightarrow> string option" where
  "print_metadata_ini lib_version path meta info =
     map_option (\<lambda>ds.
       ini_line ''path'' (sanitize_header_value path)
       @ ini_line ''libmaxminddb_version'' lib_version
       @ ini_line ''database_type'' (sanitize_header_value (database_type info))
       @ ini_line ''ip_version'' (word_text (md_ip_version meta))
       @ ini_line ''binary_format_major_version'' (word_text (md_format_major meta))
       @ ini_line ''binary_format_minor_version'' (word_text (md_format_minor meta))
       @ ini_line ''node_count'' (word_text (md_node_count meta))
       @ ini_line ''record_size'' (word_text (md_record_size meta))
       @ ini_line ''build_epoch'' (word_text (md_build_epoch meta))
       @ ini_line ''build_date'' (build_time info)
       @ ini_line ''age_days'' (format_fixed 1 (age_days info))
       @ ini_line ''age_ms'' (word_text (age_ms info))
       @ ini_line ''age_ns'' (word_text (age_ns info))
       @ (if md_languages meta \<noteq> []
          then ini_line ''languages'' (sanitize_header_value (join_languages (md_languages meta) '','')) else [])
       @ ini_line ''description'' (sanitize_header_value (english_description (md_descriptions meta)))
       @ concat (map (\<lambda>(l, t). ini_line (''description_'' @ l) (sanitize_header_value t)) ds))
     (description_texts (md_descriptions meta))"


section \<open>The calendar\<close>

definition days_before_year :: "int \<Rightarrow> int" where
  "days_before_year y = 365 * (y - 1) + (y - 1) div 4 - (y - 1) div 100 + (y - 1) div 400"

definition days_before_month :: "int \<Rightarrow> nat \<Rightarrow> nat" where
  "days_before_month y m = sum_list (map (month_length y) [1..<m])"

text \<open>The day number of a date, counted from 1970-01-01: the specification \<open>civil_date\<close> inverts.\<close>

definition day_number :: "int \<Rightarrow> nat \<Rightarrow> nat \<Rightarrow> int" where
  "day_number y m d = days_before_year y + int (days_before_month y m) + int d - 1 - 719162"

definition valid_date :: "int \<Rightarrow> nat \<Rightarrow> nat \<Rightarrow> bool" where
  "valid_date y m d \<longleftrightarrow> 1 \<le> m \<and> m \<le> 12 \<and> 1 \<le> d \<and> d \<le> month_length y m"

lemma div_pred:
  assumes "0 < (k::int)"
  shows "y div k = (y - 1) div k + (if y mod k = 0 then 1 else 0)"
proof -
  have y: "y = k * (y div k) + y mod k" by simp
  show ?thesis
  proof (cases "y mod k = 0")
    case True
    with y have "y - 1 = k * (y div k - 1) + (k - 1)" by (simp add: algebra_simps)
    with assms have "(y - 1) div k = y div k - 1" by (intro int_div_pos_eq [of _ _ _ "k - 1"]) auto
    with True show ?thesis by simp
  next
    case False
    then have "0 < y mod k" "y mod k < k"
      using assms pos_mod_sign [of k y] pos_mod_bound [of k y] by linarith+
    with y have "(y - 1) div k = y div k"
      by (intro int_div_pos_eq [of _ _ _ "y mod k - 1"]) auto
    with False show ?thesis by simp
  qed
qed

lemma days_before_year_Suc: "days_before_year (y + 1) = days_before_year y + int (year_length y)"
proof -
  have "4 dvd y" if "100 dvd y" using that by (rule dvd_trans [rotated]) simp
  moreover have "100 dvd y" if "400 dvd y" using that by (rule dvd_trans [rotated]) simp
  ultimately have "int (year_length y) = 365 + (if y mod 4 = 0 then 1 else 0) - (if y mod 100 = 0 then 1 else 0)
      + (if y mod 400 = 0 then 1 else 0)"
    by (auto simp: year_length_def leap_year_def mod_eq_0_iff_dvd)
  moreover have "days_before_year (y + 1) = 365 * y + y div 4 - y div 100 + y div 400"
    by (simp add: days_before_year_def)
  moreover have "\<dots> = 365 * y + ((y - 1) div 4 + (if y mod 4 = 0 then 1 else 0))
      - ((y - 1) div 100 + (if y mod 100 = 0 then 1 else 0)) + ((y - 1) div 400 + (if y mod 400 = 0 then 1 else 0))"
    by (simp only: div_pred [of 4 y, OF zero_less_numeral] div_pred [of 100 y, OF zero_less_numeral]
        div_pred [of 400 y, OF zero_less_numeral])
  moreover have "d = 365 * (y - 1) + p - q + r + l"
    if "l = 365 + a - b + c" "d = e" "e = 365 * y + (p + a) - (q + b) + (r + c)" for a b c d e l p q r :: int
    using that by simp
  ultimately show ?thesis unfolding days_before_year_def [of y] by blast
qed

lemma days_before_cycle: "days_before_year (400 * k + 1) = 146097 * k"
  by (simp add: days_before_year_def)

lemma split_years_spec:
  "split_years y d = (y', d') \<Longrightarrow> days_before_year y' + int d' = days_before_year y + int d \<and> d' < year_length y'"
proof (induction y d rule: split_years.induct)
  case (1 y d)
  show ?case
  proof (cases "d < year_length y")
    case True
    with 1 show ?thesis by (simp add: split_years.simps [of y d])
  next
    case False
    with 1 have "days_before_year y' + int d' = days_before_year (y + 1) + int (d - year_length y) \<and> d' < year_length y'"
      by (simp add: split_years.simps [of y d])
    with False show ?thesis by (simp add: days_before_year_Suc of_nat_diff)
  qed
qed

lemma days_before_month_Suc: "1 \<le> m \<Longrightarrow> days_before_month y (Suc m) = days_before_month y m + month_length y m"
  by (simp add: days_before_month_def)

lemma days_before_month_1 [simp]: "days_before_month y (Suc 0) = 0"
  by (simp add: days_before_month_def)

lemma year_of_months: "days_before_month y 13 = year_length y"
  by (simp add: days_before_month_def upt_conv_Cons month_length_def year_length_def)

lemma split_months_spec:
  "split_months y m d = (m', d') \<Longrightarrow> 1 \<le> m \<Longrightarrow> m \<le> 12 \<Longrightarrow> days_before_month y m + d < year_length y \<Longrightarrow>
     days_before_month y m' + d' = days_before_month y m + d \<and> d' < month_length y m' \<and> 1 \<le> m' \<and> m' \<le> 12"
proof (induction y m d rule: split_months.induct)
  case (1 y m d)
  consider "d < month_length y m" | "12 \<le> m" "\<not> d < month_length y m" | "m < 12" "\<not> d < month_length y m"
    by linarith
  then show ?case
  proof cases
    case 2
    with 1 have "m = 12" by simp
    with 1 2 year_of_months [of y] days_before_month_Suc [of 12 y] show ?thesis by simp
  next
    case 3
    with 1 show ?thesis by (simp add: split_months.simps [of y m d] days_before_month_Suc)
  qed (use 1 in \<open>simp add: split_months.simps [of y m d]\<close>)
qed

lemma civil_date_spec:
  assumes "civil_date days = (y, m, d)"
  shows "valid_date y m d \<and> day_number y m d = days"
proof -
  let ?z = "days + 719162"
  obtain yd where s: "split_years (400 * (?z div 146097) + 1) (nat (?z mod 146097)) = (y, yd)"
    and mo: "split_months y 1 yd = (m, d - 1)" and d: "1 \<le> d"
    using assms by (auto simp: civil_date_def Let_def split: prod.splits)
  from split_years_spec [OF s] have 1: "days_before_year y + int yd = ?z" and yd: "yd < year_length y"
    by (auto simp: days_before_cycle)
  from split_months_spec [OF mo] yd d 1 show ?thesis
    by (auto simp: valid_date_def day_number_def)
qed

lemma days_before_month_le:
  assumes "1 \<le> m" "m \<le> 13"
  shows "days_before_month y m \<le> year_length y"
proof -
  have "[1..<13] = [1..<m] @ [m..<13]" using assms by (metis le_add_diff_inverse upt_add_eq_append)
  then have "days_before_month y 13 = days_before_month y m + sum_list (map (month_length y) [m..<13])"
    by (simp add: days_before_month_def del: upt_rec_numeral)
  then show ?thesis using year_of_months [of y] by simp
qed

lemma valid_date_day_of_year: "valid_date y m d \<Longrightarrow> days_before_month y m + d \<le> 366"
  using days_before_month_le [of "Suc m" y] days_before_month_Suc [of m y]
  by (auto simp: valid_date_def year_length_def split: if_splits)

lemma days_before_year_bounds:
  "365 * (y - 1) - 1 \<le> days_before_year y \<or> y \<le> 0" "days_before_year y \<le> 365 * (y - 1) + 1 \<or> 1 \<le> y"
  unfolding days_before_year_def by linarith+

lemma day_number_year:
  assumes "valid_date y m d" "\<bar>day_number y m d\<bar> < 700000000000"
  shows "- (2 ^ 31) \<le> y - 1900 \<and> y - 1900 < 2 ^ 31"
  using days_before_year_bounds [of y] valid_date_day_of_year [OF assms(1)] assms(2)
  unfolding day_number_def by auto

lemma time_of_day:
  assumes "s < 86400"
  shows "s div 3600 < 24" "s div 3600 * 3600 + s div 60 mod 60 * 60 + s mod 60 = (s::nat)"
proof -
  show "s div 3600 < 24" using assms by (simp add: div_less_iff_less_mult)
  have "h * 3600 + mi * 60 + r = t" if "t = m * 60 + r" "m = h * 60 + mi" for h mi r m t :: nat
    using that by simp
  moreover have "s div 60 = s div 3600 * 60 + s div 60 mod 60"
    using div_mult_mod_eq [of "s div 60" 60] by (simp add: div_mult2_eq [symmetric])
  ultimately show "s div 3600 * 3600 + s div 60 mod 60 * 60 + s mod 60 = s"
    by (metis div_mult_mod_eq)
qed

lemma days_before_year_mono: "y \<le> z \<Longrightarrow> days_before_year y \<le> days_before_year z"
proof (induction z rule: int_ge_induct)
  case (step z)
  then show ?case using days_before_year_Suc [of z] by simp
qed simp

lemma year_in_range:
  assumes "valid_date y m d" "0 \<le> day_number y m d" "day_number y m d < 2932897"
  shows "1970 \<le> y" "y < 10000"
proof -
  have "days_before_month y m + d \<le> year_length y"
    using assms(1) days_before_month_le [of "Suc m" y] days_before_month_Suc [of m y] by (simp add: valid_date_def)
  then have "719162 < days_before_year (y + 1)" using assms(2) days_before_year_Suc [of y] unfolding day_number_def by linarith
  moreover have "days_before_year 1970 = 719162" "days_before_year 10000 = 3652059" by (simp_all add: days_before_year_def)
  moreover have "days_before_year y < 3652059" using assms(1,3) unfolding day_number_def valid_date_def by linarith
  ultimately show "1970 \<le> y" "y < 10000"
    using days_before_year_mono [of "y + 1" 1970] days_before_year_mono [of 10000 y] by linarith+
qed

section \<open>Reading a timestamp\<close>

text \<open>
  A reader of \<^verbatim>\<open>YYYY-MM-DDTHH:MM:SSZ\<close> with the Gregorian calendar as a table: the days of a common year before each month.  719162 days lie
  between the first of January of the years 1 and 1970.
\<close>

definition month_table :: "nat list" where
  "month_table = [0, 31, 59, 90, 120, 151, 181, 212, 243, 273, 304, 334, 365]"

definition epoch_day :: "nat \<Rightarrow> nat \<Rightarrow> nat \<Rightarrow> int" where
  "epoch_day y m d = int (365 * (y - 1) + (y - 1) div 4 - (y - 1) div 100 + (y - 1) div 400 + month_table ! (m - 1)
     + (if 2 < m \<and> 4 dvd y \<and> (\<not> 100 dvd y \<or> 400 dvd y) then 1 else 0) + d) - 1 - 719162"

definition number_at :: "nat \<Rightarrow> nat \<Rightarrow> string \<Rightarrow> nat" where
  "number_at i k s = nat_of_digits (take k (drop i s))"

definition read_timestamp :: "string \<Rightarrow> int option" where
  "read_timestamp s =
     (let y = number_at 0 4 s; m = number_at 5 2 s; d = number_at 8 2 s;
          h = number_at 11 2 s; mi = number_at 14 2 s; sec = number_at 17 2 s
      in if length s = 20 \<and> list_all isdigit (map ((!) s) [0, 1, 2, 3, 5, 6, 8, 9, 11, 12, 14, 15, 17, 18])
           \<and> map ((!) s) [4, 7, 10, 13, 16, 19] = ''--T::Z''
           \<and> 1 \<le> m \<and> m \<le> 12 \<and> 1 \<le> d \<and> epoch_day y m d < epoch_day y (m + 1) 1 \<and> h < 24 \<and> mi < 60 \<and> sec < 60
         then Some (epoch_day y m d * 86400 + int (h * 3600 + mi * 60 + sec)) else None)"

definition iso_text :: "int \<Rightarrow> nat \<Rightarrow> nat \<Rightarrow> nat \<Rightarrow> nat \<Rightarrow> nat \<Rightarrow> string" where
  "iso_text y m d h mi s = nat_to_string (nat y) @ ''-'' @ two_digits m @ ''-'' @ two_digits d @ ''T''
     @ two_digits h @ '':'' @ two_digits mi @ '':'' @ two_digits s @ ''Z''"

lemma iso_text_strftime:
  "0 \<le> y \<Longrightarrow> 1 \<le> m \<Longrightarrow> strftime ''%Y-%m-%dT%H:%M:%SZ''
     \<lparr>tm_sec = s, tm_min = mi, tm_hour = h, tm_mday = d, tm_mon = m - 1, tm_year = y - 1900\<rparr> = iso_text y m d h mi s"
  by (simp add: strftime_field_def iso_text_def int_to_string_def)

lemma epoch_day_number:
  assumes "1 \<le> m" "m \<le> 13" "1 \<le> y"
  shows "epoch_day (nat y) m d = day_number y m d"
proof -
  have leap: "4 dvd nat y \<and> (\<not> 100 dvd nat y \<or> 400 dvd nat y) \<longleftrightarrow> leap_year y"
  proof -
    obtain k where "y = int k" using assms(3) by (metis zero_le_imp_eq_int order_trans zero_le_one)
    moreover have "int k mod 4 = int (k mod 4)" "int k mod 100 = int (k mod 100)" "int k mod 400 = int (k mod 400)"
      by (simp_all add: zmod_int)
    ultimately show ?thesis by (simp only: leap_year_def dvd_eq_mod_eq_0 nat_int of_nat_eq_0_iff)
  qed
  have m: "m \<in> {1, 2, 3, 4, 5, 6, 7, 8, 9, 10, 11, 12, 13}" using assms(1,2) unfolding insert_iff empty_iff by presburger
  have "int (month_table ! (m - 1) + (if 2 < m \<and> leap_year y then 1 else 0)) = int (days_before_month y m)"
    using m by (elim insertE emptyE) (simp_all add: month_table_def days_before_month_def month_length_def upt_conv_Cons)
  moreover have "int (365 * (nat y - 1) + (nat y - 1) div 4 - (nat y - 1) div 100 + (nat y - 1) div 400) = days_before_year y"
  proof -
    define k where "k = nat y - 1"
    have "k div 100 \<le> 365 * k + k div 4" using div_le_dividend [of k 100] by linarith
    then have "int (365 * k + k div 4 - k div 100 + k div 400) = 365 * int k + int k div 4 - int k div 100 + int k div 400"
      by (simp add: of_nat_diff zdiv_int)
    moreover have "int k = y - 1" using assms(3) by (simp add: k_def)
    ultimately show ?thesis unfolding days_before_year_def k_def [symmetric] by (simp only:)
  qed
  ultimately show ?thesis unfolding epoch_day_def day_number_def leap of_nat_add by linarith
qed

lemma two_digits_read:
  assumes "n < 100"
  shows "length (two_digits n) = 2" "list_all isdigit (two_digits n)" "nat_of_digits (two_digits n) = n"
proof -
  show "length (two_digits n) = 2"
    using assms length_nat_to_string [of n 2] by (simp add: two_digits_def pad_zero_def)
  show "list_all isdigit (two_digits n)" "nat_of_digits (two_digits n) = n"
    by (simp_all add: two_digits_def pad_zero_digits nat_to_string_digits)
qed

lemma nat_to_string_length4:
  assumes "1000 \<le> n" "n < 10000"
  shows "length (nat_to_string n) = 4"
proof -
  have "(10::nat) ^ 3 < 10 ^ length (nat_to_string n)"
    using assms(1) nat_base_length_upper [of 10 n] by (simp add: nat_to_string_def)
  then have "3 < length (nat_to_string n)" by (rule power_less_imp_less_exp [rotated]) simp
  with length_nat_to_string [of n 4] assms(2) show ?thesis by simp
qed

lemma two_chars: "length s = 2 \<Longrightarrow> \<exists>a b. s = [a, b]"
  by (auto simp: numeral_2_eq_2 length_Suc_conv)

lemma four_chars: "length s = 4 \<Longrightarrow> \<exists>a b c d. s = [a, b, c, d]"
  by (auto simp: eval_nat_numeral length_Suc_conv)

lemma read_iso_text:
  assumes "1000 \<le> y" "y < 10000" "valid_date y m d" "h < 24" "mi < 60" "s < 60"
  shows "read_timestamp (iso_text y m d h mi s) = Some (day_number y m d * 86400 + int (h * 3600 + mi * 60 + s))"
proof -
  have md: "1 \<le> m" "m \<le> 12" "1 \<le> d" "d \<le> month_length y m" using assms(3) by (auto simp: valid_date_def)
  then have "m < 100" "d < 100" by (auto simp: month_length_def split: if_splits)
  moreover have "h < 100" "mi < 100" "s < 100" using assms(4-6) by simp_all
  ultimately have lt: "m < 100" "d < 100" "h < 100" "mi < 100" "s < 100" by simp_all
  note two = lt [THEN two_digits_read(1)] lt [THEN two_digits_read(2)] lt [THEN two_digits_read(3)]
  have "length (nat_to_string (nat y)) = 4"
    using assms(1,2) nat_to_string_length4 [of "nat y"] by simp
  then obtain y1 y2 y3 y4 where y: "nat_to_string (nat y) = [y1, y2, y3, y4]" using four_chars by blast
  obtain m1 m2 d1 d2 h1 h2 i1 i2 s1 s2 where t: "two_digits m = [m1, m2]" "two_digits d = [d1, d2]" "two_digits h = [h1, h2]"
    "two_digits mi = [i1, i2]" "two_digits s = [s1, s2]"
    using lt [THEN two_digits_read(1), THEN two_chars] by metis
  have "epoch_day (nat y) m d < epoch_day (nat y) (m + 1) 1"
    using md assms(1) by (simp add: epoch_day_number day_number_def days_before_month_Suc)
  moreover have "epoch_day (nat y) m d = day_number y m d" using md assms(1) by (simp add: epoch_day_number)
  moreover have "nat_of_digits [y1, y2, y3, y4] = nat y" "list_all isdigit [y1, y2, y3, y4]"
    using nat_to_string_digits [of "nat y"] nat_of_digits_to_string [of "nat y"] unfolding y by simp_all
  ultimately show ?thesis
    using two [unfolded t] assms(4-6) md
    by (simp add: read_timestamp_def iso_text_def number_at_def y t Let_def)
qed

section \<open>Properties\<close>

text \<open>C35: the build time a database is reported with is the UTC date and time of its build epoch: for every epoch from 1970 up to the end of the year 9999, a
  reader of ISO 8601 timestamps accepts the text and computes exactly the epoch from its year, month, day, hour, minute and second.\<close>

theorem build_time_is_utc:
  assumes "0 \<le> sint epoch" "sint epoch \<le> 253402300799"
  shows "read_timestamp (format_build_time epoch) = Some (sint epoch)"
proof -
  let ?t = "sint epoch" and ?s = "nat (sint epoch mod 86400)"
  obtain y m d where c: "civil_date (?t div 86400) = (y, m, d)" by (metis prod_cases3)
  then have v: "valid_date y m d" and n: "day_number y m d = ?t div 86400" using civil_date_spec by auto
  have "0 \<le> ?t div 86400" "?t div 86400 < 2932897" using assms by (simp_all add: div_less_iff_less_mult)
  with year_in_range [OF v] n have y: "1970 \<le> y" "y < 10000" by simp_all
  have s: "?s < 86400" by (simp add: nat_less_iff)
  have g: "gmtime_r ?t = Some \<lparr>tm_sec = ?s mod 60, tm_min = ?s div 60 mod 60, tm_hour = ?s div 3600, tm_mday = d,
      tm_mon = m - 1, tm_year = y - 1900\<rparr>"
    using c y by (simp add: gmtime_r_def Let_def)
  have "format_build_time epoch = iso_text y m d (?s div 3600) (?s div 60 mod 60) (?s mod 60)"
    unfolding format_build_time_def utc_timestamp_def g option.case using y v by (intro iso_text_strftime) (simp_all add: valid_date_def)
  moreover have "read_timestamp (iso_text y m d (?s div 3600) (?s div 60 mod 60) (?s mod 60))
      = Some (day_number y m d * 86400 + int (?s div 3600 * 3600 + ?s div 60 mod 60 * 60 + ?s mod 60))"
    using y v time_of_day(1) [OF s] by (intro read_iso_text) simp_all
  moreover have "?t div 86400 * 86400 + int ?s = ?t" by simp
  ultimately show ?thesis using n time_of_day(2) [OF s] by (metis option.inject)
qed

theorem build_time_is_utc_witness:
  "read_timestamp (format_build_time 1700000000) = Some 1700000000"
  using build_time_is_utc [of 1700000000] by simp

text \<open>C36: for a database built in the past, the reported ages in milliseconds and nanoseconds are the exact
  multiples of its age in seconds, as long as that age is below 146 years, although they are computed in floating point.\<close>

theorem metadata_age_exact:
  assumes "now = sint (md_build_epoch meta) + int n" "n * 5 ^ 9 < 2 ^ 53"
  shows "age_ms (make_metadata ub now meta) = of_nat (n * 1000)
    \<and> age_ns (make_metadata ub now meta) = of_nat (n * 1000000000)"
proof -
  have "n * 1000000000 = 2 ^ 9 * (n * 5 ^ 9)" by simp
  then have dvd: "2 ^ 9 dvd n * 1000000000" by (rule dvdI)
  have "double_to_uint64 ub (double_scale 1000 1 (double_of_int (int n))) = of_nat (n * 1000)"
    using assms(2) by (intro scaled_int_to_uint64 [of _ 0]) simp_all
  moreover have "double_to_uint64 ub (double_scale 1000000000 1 (double_of_int (int n))) = of_nat (n * 1000000000)"
    using assms(2) by (intro scaled_int_to_uint64 [OF _ dvd]) simp_all
  ultimately show ?thesis by (simp only: make_metadata_def Let_def assms(1) add_diff_cancel_left' GeoIpDbMetadata.simps)
qed

definition sample_metadata :: MMDB_metadata where
  "sample_metadata = \<lparr>md_database_type = Some ''GeoLite2-City'', md_build_epoch = 1700000000, md_ip_version = 6,
     md_format_major = 2, md_format_minor = 0, md_node_count = 5, md_record_size = 28,
     md_languages = [''de'', ''en''], md_descriptions = [(Some ''en'', Some ''City'')]\<rparr>"

theorem metadata_age_exact_witness:
  "age_ms (make_metadata (\<lambda>_. 0) 1700086400 sample_metadata) = 86400000
    \<and> age_ns (make_metadata (\<lambda>_. 0) 1700086400 sample_metadata) = 86400000000000"
  using metadata_age_exact [of 1700086400 sample_metadata 86400] by (simp add: sample_metadata_def)

text \<open>The JSON value of the metadata.\<close>

definition metadata_object :: "string \<Rightarrow> string \<Rightarrow> MMDB_metadata \<Rightarrow> GeoIpDbMetadata \<Rightarrow> (string \<times> string) list \<Rightarrow> json" where
  "metadata_object lib_version path meta info ds = JObj
     [(''path'', JStr path), (''libmaxminddb_version'', JStr lib_version),
      (''database_type'', JStr (database_type info)),
      (''ip_version'', JNum (word_text (md_ip_version meta))),
      (''binary_format_major_version'', JNum (word_text (md_format_major meta))),
      (''binary_format_minor_version'', JNum (word_text (md_format_minor meta))),
      (''node_count'', JNum (word_text (md_node_count meta))),
      (''record_size'', JNum (word_text (md_record_size meta))),
      (''build_epoch'', JNum (word_text (md_build_epoch meta))),
      (''build_date'', JStr (build_time info)),
      (''age_days'', JNum (format_fixed 1 (age_days info))),
      (''age_ms'', JNum (word_text (age_ms info))), (''age_ns'', JNum (word_text (age_ns info))),
      (''languages'', JArr (map JStr (md_languages meta))),
      (''description'', JStr (english_description (md_descriptions meta))),
      (''description_list'', JArr (map (\<lambda>(l, t). JObj [(''language'', JStr l), (''description'', JStr t)]) ds))]"

lemma metadata_object_print:
  assumes "description_texts (md_descriptions meta) = Some ds"
  shows "print_metadata_json lib_version path meta info =
    Some (c_str (json_print (metadata_object lib_version path meta info ds)) @ [LF])"
proof -
  have "(\<lambda>(l, t). ''{'' @ json_field ''language'' @ quoted l @ '','' @ json_field ''description'' @ quoted t @ ''}'')
     = json_print \<circ> (\<lambda>(l, t). JObj [(''language'', JStr l), (''description'', JStr t)])"
    by (rule ext) (auto simp: json_member json_keys_def)
  then show ?thesis
    using assms by (simp add: print_metadata_json_def metadata_object_def json_member json_keys_def comp_def)
qed


lemma word_is_json_number: "is_json_number (word_text w)"
  by (simp add: word_text_def nat_is_json_number)

lemma make_metadata_finite: "is_finite (age_days (make_metadata ub now meta))"
  by (simp add: make_metadata_def Let_def)

lemma metadata_object_wf: "is_finite (age_days info) \<Longrightarrow> json_wf (metadata_object lib_version path meta info ds)"
  by (auto simp: metadata_object_def word_is_json_number fixed_number)



end
