(* ===== verification/Geoip.thy ===== *)
theory Geoip
  imports Db_Metadata Ip_Addr
begin

text \<open>
  The class \<^verbatim>\<open>GeoIpDatabases\<close> of \<^verbatim>\<open>src/src/geoip.cpp\<close>: opening, reloading and closing database handles,
  lookups, metadata, and the reader/writer lock between lookups and reloads.

  libmaxminddb is a parameter: what \<^verbatim>\<open>MMDB_open\<close> answers for a call (an error text or the metadata of the
  file) is an argument of the call, and lookups go through the two functions of \<open>mmdb_lib\<close>.  Its resources
  are explicit: every successful open creates a fresh mapping, \<^verbatim>\<open>MMDB_close\<close> releases one, and closing a
  mapping that is not live is recorded as a fault.
\<close>

section \<open>Model\<close>

datatype mmdb_value =
  Utf8String string | Uint32Value "32 word" | Uint16Value "16 word" | DoubleValue double | OtherValue

text \<open>An entry is a position inside a mapping; status 0 is \<^verbatim>\<open>MMDB_SUCCESS\<close>.\<close>

type_synonym MMDB_entry = "nat \<times> nat"

record mmdb_lib =
  lookup_sockaddr :: "nat \<Rightarrow> sockaddr \<Rightarrow> nat \<times> bool \<times> MMDB_entry"
  get_value :: "MMDB_entry \<Rightarrow> string list \<Rightarrow> nat \<times> bool \<times> mmdb_value"

record MMDB_s =
  mapping :: nat
  mm_metadata :: MMDB_metadata

record mmdb_heap =
  live :: "nat list"
  next_mapping :: nat
  bad_close :: bool

type_synonym open_answer = "string + MMDB_metadata"

definition open_mmdb :: "open_answer \<Rightarrow> string \<Rightarrow> mmdb_heap \<Rightarrow> (string + MMDB_s) \<times> mmdb_heap" where
  "open_mmdb answer path h =
     (case answer of
        Inl msg \<Rightarrow> (Inl (''failed to open database '' @ [CHR 0x27] @ path @ [CHR 0x27] @ '': '' @ msg), h)
      | Inr meta \<Rightarrow>
          (Inr \<lparr>mapping = next_mapping h, mm_metadata = meta\<rparr>,
           h\<lparr>live := next_mapping h # live h, next_mapping := next_mapping h + 1\<rparr>))"

definition MMDB_close :: "MMDB_s \<Rightarrow> mmdb_heap \<Rightarrow> mmdb_heap" where
  "MMDB_close m h =
     (if mapping m \<in> set (live h) then h\<lparr>live := remove1 (mapping m) (live h)\<rparr>
      else h\<lparr>bad_close := True\<rparr>)"

definition get_string :: "mmdb_lib \<Rightarrow> MMDB_entry \<Rightarrow> string list \<Rightarrow> string option" where
  "get_string lib entry path =
     (case get_value lib entry path of
        (status, has_data, Utf8String s) \<Rightarrow> if status = 0 \<and> has_data then Some s else None
      | _ \<Rightarrow> None)"

definition get_uint32 :: "mmdb_lib \<Rightarrow> MMDB_entry \<Rightarrow> string list \<Rightarrow> 32 word option" where
  "get_uint32 lib entry path =
     (case get_value lib entry path of
        (status, has_data, Uint32Value v) \<Rightarrow> if status = 0 \<and> has_data then Some v else None
      | _ \<Rightarrow> None)"

definition get_uint16 :: "mmdb_lib \<Rightarrow> MMDB_entry \<Rightarrow> string list \<Rightarrow> 16 word option" where
  "get_uint16 lib entry path =
     (case get_value lib entry path of
        (status, has_data, Uint16Value v) \<Rightarrow> if status = 0 \<and> has_data then Some v else None
      | _ \<Rightarrow> None)"

definition get_double :: "mmdb_lib \<Rightarrow> MMDB_entry \<Rightarrow> string list \<Rightarrow> double option" where
  "get_double lib entry path =
     (case get_value lib entry path of
        (status, has_data, DoubleValue v) \<Rightarrow> if status = 0 \<and> has_data then Some v else None
      | _ \<Rightarrow> None)"

record GeoIpResult =
  found :: bool
  country_code :: "string option"
  country_name :: "string option"
  continent_code :: "string option"
  asn :: "32 word option"
  as_org :: "string option"
  city_name :: "string option"
  postal_code :: "string option"
  latitude :: "double option"
  longitude :: "double option"
  accuracy_radius :: "16 word option"

definition empty_result :: GeoIpResult where
  "empty_result = \<lparr>found = False, country_code = None, country_name = None, continent_code = None,
     asn = None, as_org = None, city_name = None, postal_code = None, latitude = None, longitude = None,
     accuracy_radius = None\<rparr>"

record GeoIpDatabases =
  country_mmdb :: MMDB_s
  country_open :: bool
  asn_mmdb :: MMDB_s
  asn_open :: bool
  city_mmdb :: MMDB_s
  city_open :: bool

text \<open>On failure the first component is the error text and nothing else has changed.\<close>

definition open_country ::
  "open_answer \<Rightarrow> string \<Rightarrow> GeoIpDatabases \<times> mmdb_heap \<Rightarrow> string option \<times> GeoIpDatabases \<times> mmdb_heap" where
  "open_country answer path = (\<lambda>(dbs, h).
     (case open_mmdb answer path h of
        (Inl err, h1) \<Rightarrow> (Some err, dbs, h1)
      | (Inr tmp, h1) \<Rightarrow>
          let h2 = (if country_open dbs then MMDB_close (country_mmdb dbs) h1 else h1)
          in (None, dbs\<lparr>country_mmdb := tmp, country_open := True\<rparr>, h2)))"

definition open_asn ::
  "open_answer \<Rightarrow> string \<Rightarrow> GeoIpDatabases \<times> mmdb_heap \<Rightarrow> string option \<times> GeoIpDatabases \<times> mmdb_heap" where
  "open_asn answer path = (\<lambda>(dbs, h).
     (case open_mmdb answer path h of
        (Inl err, h1) \<Rightarrow> (Some err, dbs, h1)
      | (Inr tmp, h1) \<Rightarrow>
          let h2 = (if asn_open dbs then MMDB_close (asn_mmdb dbs) h1 else h1)
          in (None, dbs\<lparr>asn_mmdb := tmp, asn_open := True\<rparr>, h2)))"

definition open_city ::
  "open_answer \<Rightarrow> string \<Rightarrow> GeoIpDatabases \<times> mmdb_heap \<Rightarrow> string option \<times> GeoIpDatabases \<times> mmdb_heap" where
  "open_city answer path = (\<lambda>(dbs, h).
     (case open_mmdb answer path h of
        (Inl err, h1) \<Rightarrow> (Some err, dbs, h1)
      | (Inr tmp, h1) \<Rightarrow>
          let h2 = (if city_open dbs then MMDB_close (city_mmdb dbs) h1 else h1)
          in (None, dbs\<lparr>city_mmdb := tmp, city_open := True\<rparr>, h2)))"

definition reload_country where "reload_country = open_country"
definition reload_asn where "reload_asn = open_asn"
definition reload_city where "reload_city = open_city"

definition destroy_databases :: "GeoIpDatabases \<Rightarrow> mmdb_heap \<Rightarrow> mmdb_heap" where
  "destroy_databases dbs h =
     (let h1 = (if country_open dbs then MMDB_close (country_mmdb dbs) h else h);
          h2 = (if asn_open dbs then MMDB_close (asn_mmdb dbs) h1 else h1)
      in if city_open dbs then MMDB_close (city_mmdb dbs) h2 else h2)"

text \<open>One \<^verbatim>\<open>if\<close> block of \<^verbatim>\<open>lookup\<close> per database: result and \<^verbatim>\<open>db_error\<close> are passed through.\<close>

definition country_fields :: "mmdb_lib \<Rightarrow> MMDB_entry \<Rightarrow> GeoIpResult \<Rightarrow> GeoIpResult" where
  "country_fields lib entry r = r\<lparr>
     country_code := get_string lib entry [''country'', ''iso_code''],
     country_name := get_string lib entry [''country'', ''names'', ''en''],
     continent_code := get_string lib entry [''continent'', ''code'']\<rparr>"

definition asn_fields :: "mmdb_lib \<Rightarrow> MMDB_entry \<Rightarrow> GeoIpResult \<Rightarrow> GeoIpResult" where
  "asn_fields lib entry r = r\<lparr>
     asn := get_uint32 lib entry [''autonomous_system_number''],
     as_org := get_string lib entry [''autonomous_system_organization'']\<rparr>"

definition city_fields :: "mmdb_lib \<Rightarrow> MMDB_entry \<Rightarrow> GeoIpResult \<Rightarrow> GeoIpResult" where
  "city_fields lib entry r = r\<lparr>
     city_name := get_string lib entry [''city'', ''names'', ''en''],
     postal_code := get_string lib entry [''postal'', ''code''],
     latitude := get_double lib entry [''location'', ''latitude''],
     longitude := get_double lib entry [''location'', ''longitude''],
     accuracy_radius := get_uint16 lib entry [''location'', ''accuracy_radius'']\<rparr>"

definition lookup_step ::
  "mmdb_lib \<Rightarrow> bool \<Rightarrow> MMDB_s \<Rightarrow> sockaddr \<Rightarrow> (MMDB_entry \<Rightarrow> GeoIpResult \<Rightarrow> GeoIpResult) \<Rightarrow>
    GeoIpResult \<times> bool \<Rightarrow> GeoIpResult \<times> bool" where
  "lookup_step lib is_open m addr read_fields = (\<lambda>(r, db_error).
     (if is_open \<and> \<not> db_error then
        (case lookup_sockaddr lib (mapping m) addr of
           (err, found_entry, entry) \<Rightarrow>
             if err \<noteq> 0 then (r, True)
             else if found_entry then (read_fields entry (r\<lparr>found := True\<rparr>), False)
             else (r, False))
      else (r, db_error)))"

definition lookup :: "mmdb_lib \<Rightarrow> GeoIpDatabases \<Rightarrow> ParsedAddr \<Rightarrow> GeoIpResult \<times> bool" where
  "lookup lib dbs addr =
     lookup_step lib (city_open dbs) (city_mmdb dbs) (addr_storage addr)
       (\<lambda>e r. (if \<not> country_open dbs then country_fields lib e else id) (city_fields lib e r))
       (lookup_step lib (asn_open dbs) (asn_mmdb dbs) (addr_storage addr) (asn_fields lib)
         (lookup_step lib (country_open dbs) (country_mmdb dbs) (addr_storage addr) (country_fields lib)
           (empty_result, False)))"

definition country_metadata :: "(double \<Rightarrow> 64 word) \<Rightarrow> int \<Rightarrow> GeoIpDatabases \<Rightarrow> GeoIpDbMetadata option" where
  "country_metadata ub now dbs =
     (if \<not> country_open dbs then None else Some (make_metadata ub now (mm_metadata (country_mmdb dbs))))"

definition asn_metadata :: "(double \<Rightarrow> 64 word) \<Rightarrow> int \<Rightarrow> GeoIpDatabases \<Rightarrow> GeoIpDbMetadata option" where
  "asn_metadata ub now dbs =
     (if \<not> asn_open dbs then None else Some (make_metadata ub now (mm_metadata (asn_mmdb dbs))))"

definition city_metadata :: "(double \<Rightarrow> 64 word) \<Rightarrow> int \<Rightarrow> GeoIpDatabases \<Rightarrow> GeoIpDbMetadata option" where
  "city_metadata ub now dbs =
     (if \<not> city_open dbs then None else Some (make_metadata ub now (mm_metadata (city_mmdb dbs))))"

datatype DbMetadataFormat = TableFormat | JsonFormat | IniFormat

text \<open>\<^verbatim>\<open>print_db_metadata\<close>: the error text, or the text printed; the mapping is closed again.\<close>

definition print_db_metadata ::
  "(double \<Rightarrow> 64 word) \<Rightarrow> int \<Rightarrow> string \<Rightarrow> open_answer \<Rightarrow> string \<Rightarrow> DbMetadataFormat \<Rightarrow> mmdb_heap \<Rightarrow>
    (string + string option) \<times> mmdb_heap" where
  "print_db_metadata ub now lib_version answer path format h =
     (case open_mmdb answer path h of
        (Inl err, h1) \<Rightarrow> (Inl err, h1)
      | (Inr mmdb, h1) \<Rightarrow>
          let meta = mm_metadata mmdb; info = make_metadata ub now meta;
              out = (case format of
                 TableFormat \<Rightarrow> print_metadata_table lib_version path meta info
               | JsonFormat \<Rightarrow> print_metadata_json lib_version path meta info
               | IniFormat \<Rightarrow> print_metadata_ini lib_version path meta info)
          in (Inr out, MMDB_close mmdb h1))"


section \<open>Handles\<close>

text \<open>The operations on the set of databases, as the server issues them at startup and on SIGHUP.\<close>

datatype db_op = OpenCountry open_answer string | OpenAsn open_answer string | OpenCity open_answer string

fun run_db_op :: "db_op \<Rightarrow> GeoIpDatabases \<times> mmdb_heap \<Rightarrow> string option \<times> GeoIpDatabases \<times> mmdb_heap" where
  "run_db_op (OpenCountry a p) = reload_country a p"
| "run_db_op (OpenAsn a p) = reload_asn a p"
| "run_db_op (OpenCity a p) = reload_city a p"

fun run_db_ops :: "db_op list \<Rightarrow> GeoIpDatabases \<times> mmdb_heap \<Rightarrow> GeoIpDatabases \<times> mmdb_heap" where
  "run_db_ops [] s = s"
| "run_db_ops (op # ops) s = run_db_ops ops (snd (run_db_op op s))"

definition empty_metadata :: MMDB_metadata where
  "empty_metadata = \<lparr>md_database_type = None, md_build_epoch = 0, md_ip_version = 0, md_format_major = 0,
     md_format_minor = 0, md_node_count = 0, md_record_size = 0, md_languages = [], md_descriptions = []\<rparr>"

definition no_databases :: GeoIpDatabases where
  "no_databases = (let z = \<lparr>mapping = 0, mm_metadata = empty_metadata\<rparr> in
     \<lparr>country_mmdb = z, country_open = False, asn_mmdb = z, asn_open = False, city_mmdb = z, city_open = False\<rparr>)"

definition country_slot :: "GeoIpDatabases \<Rightarrow> nat list" where
  "country_slot dbs = (if country_open dbs then [mapping (country_mmdb dbs)] else [])"

definition asn_slot :: "GeoIpDatabases \<Rightarrow> nat list" where
  "asn_slot dbs = (if asn_open dbs then [mapping (asn_mmdb dbs)] else [])"

definition city_slot :: "GeoIpDatabases \<Rightarrow> nat list" where
  "city_slot dbs = (if city_open dbs then [mapping (city_mmdb dbs)] else [])"

definition slot_mappings :: "GeoIpDatabases \<Rightarrow> nat list" where
  "slot_mappings dbs = country_slot dbs @ asn_slot dbs @ city_slot dbs"

text \<open>Exactly the handles of the open slots are live, each once, and nothing was closed that was not live.\<close>

definition handles_ok :: "GeoIpDatabases \<times> mmdb_heap \<Rightarrow> bool" where
  "handles_ok = (\<lambda>(dbs, h). \<not> bad_close h \<and> distinct (slot_mappings dbs) \<and> distinct (live h)
     \<and> set (live h) = set (slot_mappings dbs) \<and> (\<forall>x \<in> set (live h). x < next_mapping h))"

lemmas slot_lists = country_slot_def asn_slot_def city_slot_def

lemmas slot_defs = open_country_def open_asn_def open_city_def reload_country_def reload_asn_def
  reload_city_def open_mmdb_def MMDB_close_def

lemma MMDB_close_live:
  assumes "mapping m \<in> set (live h)" "distinct (live h)"
  shows "set (live (MMDB_close m h)) = set (live h) - {mapping m}" "distinct (live (MMDB_close m h))"
    "bad_close (MMDB_close m h) = bad_close h" "next_mapping (MMDB_close m h) = next_mapping h"
  using assms by (simp_all add: MMDB_close_def)

text \<open>What opening a file over a slot does to the mappings.\<close>

definition swap_heap :: "bool \<Rightarrow> MMDB_s \<Rightarrow> mmdb_heap \<Rightarrow> mmdb_heap" where
  "swap_heap was_open old h =
     (let h1 = h\<lparr>live := next_mapping h # live h, next_mapping := next_mapping h + 1\<rparr>
      in if was_open then MMDB_close old h1 else h1)"

lemma swap_heap_props:
  assumes "distinct (live h)" "\<forall>x \<in> set (live h). x < next_mapping h" "was_open \<longrightarrow> mapping old \<in> set (live h)"
  shows "set (live (swap_heap was_open old h)) =
      insert (next_mapping h) (set (live h) - (if was_open then {mapping old} else {}))
    \<and> distinct (live (swap_heap was_open old h)) \<and> bad_close (swap_heap was_open old h) = bad_close h
    \<and> next_mapping (swap_heap was_open old h) = next_mapping h + 1"
proof -
  let ?h1 = "h\<lparr>live := next_mapping h # live h, next_mapping := next_mapping h + 1\<rparr>"
  have "next_mapping h \<notin> set (live h)" using assms(2) by blast
  then have d: "distinct (live ?h1)" using assms(1) by simp
  show ?thesis
  proof (cases was_open)
    case True
    with assms(3) have o: "mapping old \<in> set (live h)" by blast
    with assms(2) have ne: "next_mapping h \<noteq> mapping old" by auto
    from o have "mapping old \<in> set (live ?h1)" by simp
    note c = MMDB_close_live [OF this d]
    have "swap_heap was_open old h = MMDB_close old ?h1" using True by (simp add: swap_heap_def)
    then show ?thesis using True ne by (simp only: c) auto
  next
    case False
    with d show ?thesis by (simp add: swap_heap_def)
  qed
qed

lemma open_slot_swaps:
  "open_country (Inr meta) path (dbs, h) = (None,
     dbs\<lparr>country_mmdb := \<lparr>mapping = next_mapping h, mm_metadata = meta\<rparr>, country_open := True\<rparr>,
     swap_heap (country_open dbs) (country_mmdb dbs) h)"
  "open_asn (Inr meta) path (dbs, h) = (None,
     dbs\<lparr>asn_mmdb := \<lparr>mapping = next_mapping h, mm_metadata = meta\<rparr>, asn_open := True\<rparr>,
     swap_heap (asn_open dbs) (asn_mmdb dbs) h)"
  "open_city (Inr meta) path (dbs, h) = (None,
     dbs\<lparr>city_mmdb := \<lparr>mapping = next_mapping h, mm_metadata = meta\<rparr>, city_open := True\<rparr>,
     swap_heap (city_open dbs) (city_mmdb dbs) h)"
  by (simp_all add: open_country_def open_asn_def open_city_def open_mmdb_def swap_heap_def Let_def)

lemma open_slot_fails [simp]:
  "snd (open_country (Inl msg) path s) = s" "fst (open_country (Inl msg) path s) \<noteq> None"
  "snd (open_asn (Inl msg) path s) = s" "fst (open_asn (Inl msg) path s) \<noteq> None"
  "snd (open_city (Inl msg) path s) = s" "fst (open_city (Inl msg) path s) \<noteq> None"
  by (cases s; simp add: open_country_def open_asn_def open_city_def open_mmdb_def)+

lemma handles_ok_swap:
  assumes "\<not> bad_close h" "distinct (live h)" "\<forall>x \<in> set (live h). x < next_mapping h"
    and "set (live h) = set (pre @ cur @ post)" "distinct (pre @ cur @ post)"
    and "cur = (if was_open then [mapping old] else [])"
  shows "\<not> bad_close (swap_heap was_open old h) \<and> distinct (live (swap_heap was_open old h))
    \<and> set (live (swap_heap was_open old h)) = set (pre @ [next_mapping h] @ post)
    \<and> distinct (pre @ [next_mapping h] @ post)
    \<and> (\<forall>x \<in> set (live (swap_heap was_open old h)). x < next_mapping (swap_heap was_open old h))"
proof -
  have old: "was_open \<longrightarrow> mapping old \<in> set (live h)" using assms(4,6) by simp
  note props = swap_heap_props [OF assms(2,3) old]
  have fresh: "next_mapping h \<notin> set (pre @ post)" using assms(3,4) by auto
  have "set (live h) - (if was_open then {mapping old} else {}) = set (pre @ post)"
    using assms(4,5,6) by (cases was_open) auto
  with props assms(1,3,5) fresh show ?thesis by (auto simp: less_Suc_eq)
qed

lemma slots_after_open [simp]:
  "slot_mappings (dbs\<lparr>country_mmdb := m, country_open := True\<rparr>) = mapping m # asn_slot dbs @ city_slot dbs"
  "slot_mappings (dbs\<lparr>asn_mmdb := m, asn_open := True\<rparr>) = country_slot dbs @ mapping m # city_slot dbs"
  "slot_mappings (dbs\<lparr>city_mmdb := m, city_open := True\<rparr>) = country_slot dbs @ asn_slot dbs @ [mapping m]"
  by (simp_all add: slot_mappings_def country_slot_def asn_slot_def city_slot_def)

lemma handles_ok_opens:
  assumes "handles_ok (dbs, h)"
  shows "handles_ok (snd (open_country answer path (dbs, h)))"
    "handles_ok (snd (open_asn answer path (dbs, h)))"
    "handles_ok (snd (open_city answer path (dbs, h)))"
proof -
  have h: "\<not> bad_close h" "distinct (live h)" "\<forall>x \<in> set (live h). x < next_mapping h"
    and m: "set (live h) = set (country_slot dbs @ asn_slot dbs @ city_slot dbs)"
      "distinct (country_slot dbs @ asn_slot dbs @ city_slot dbs)"
    using assms unfolding handles_ok_def slot_mappings_def prod.case by blast+
  note swap = handles_ok_swap [OF h]
  show "handles_ok (snd (open_country answer path (dbs, h)))"
    using swap [of "[]" "country_slot dbs" "asn_slot dbs @ city_slot dbs", OF _ _ country_slot_def] m assms
    by (cases answer) (auto simp: open_slot_swaps handles_ok_def)
  show "handles_ok (snd (open_asn answer path (dbs, h)))"
    using swap [of "country_slot dbs" "asn_slot dbs" "city_slot dbs", OF m asn_slot_def] assms
    by (cases answer) (auto simp: open_slot_swaps handles_ok_def)
  show "handles_ok (snd (open_city answer path (dbs, h)))"
    using swap [of "country_slot dbs @ asn_slot dbs" "city_slot dbs" "[]", OF _ _ city_slot_def] m assms
    by (cases answer) (auto simp: open_slot_swaps handles_ok_def)
qed

lemma handles_ok_op: "handles_ok s \<Longrightarrow> handles_ok (snd (run_db_op op s))"
  by (cases s; cases op) (simp_all add: reload_country_def reload_asn_def reload_city_def handles_ok_opens)

lemma handles_ok_ops: "handles_ok s \<Longrightarrow> handles_ok (run_db_ops ops s)"
  by (induction ops arbitrary: s) (simp_all add: handles_ok_op)

lemma handles_ok_init: "live h = [] \<Longrightarrow> \<not> bad_close h \<Longrightarrow> handles_ok (no_databases, h)"
  by (simp add: handles_ok_def no_databases_def slot_mappings_def slot_lists Let_def)

lemma destroy_closes_all:
  assumes "handles_ok (dbs, h)"
  shows "live (destroy_databases dbs h) = [] \<and> \<not> bad_close (destroy_databases dbs h)"
proof -
  have "set (live (destroy_databases dbs h)) = {} \<and> \<not> bad_close (destroy_databases dbs h)"
    using assms
    by (cases "country_open dbs"; cases "asn_open dbs"; cases "city_open dbs")
      (auto simp: handles_ok_def destroy_databases_def slot_mappings_def slot_lists Let_def MMDB_close_live)
  then show ?thesis by simp
qed

section \<open>Lookups\<close>

definition db_failed :: "mmdb_lib \<Rightarrow> bool \<Rightarrow> MMDB_s \<Rightarrow> sockaddr \<Rightarrow> bool" where
  "db_failed lib is_open m addr \<longleftrightarrow> is_open \<and> fst (lookup_sockaddr lib (mapping m) addr) \<noteq> 0"

definition db_entry :: "mmdb_lib \<Rightarrow> bool \<Rightarrow> MMDB_s \<Rightarrow> sockaddr \<Rightarrow> MMDB_entry option" where
  "db_entry lib is_open m addr =
     (case lookup_sockaddr lib (mapping m) addr of
        (err, hit, e) \<Rightarrow> if is_open \<and> err = 0 \<and> hit then Some e else None)"

text \<open>The specification of a lookup: which database each field comes from.\<close>

definition lookup_spec :: "mmdb_lib \<Rightarrow> GeoIpDatabases \<Rightarrow> sockaddr \<Rightarrow> GeoIpResult" where
  "lookup_spec lib dbs addr =
     (let country = db_entry lib (country_open dbs) (country_mmdb dbs) addr;
          asnum = db_entry lib (asn_open dbs) (asn_mmdb dbs) addr;
          city = db_entry lib (city_open dbs) (city_mmdb dbs) addr;
          origin = (if country_open dbs then country else city);
          text = (\<lambda>e path. Option.bind e (\<lambda>e. get_string lib e path))
      in \<lparr>found = (country \<noteq> None \<or> asnum \<noteq> None \<or> city \<noteq> None),
          country_code = text origin [''country'', ''iso_code''],
          country_name = text origin [''country'', ''names'', ''en''],
          continent_code = text origin [''continent'', ''code''],
          asn = Option.bind asnum (\<lambda>e. get_uint32 lib e [''autonomous_system_number'']),
          as_org = text asnum [''autonomous_system_organization''],
          city_name = text city [''city'', ''names'', ''en''],
          postal_code = text city [''postal'', ''code''],
          latitude = Option.bind city (\<lambda>e. get_double lib e [''location'', ''latitude'']),
          longitude = Option.bind city (\<lambda>e. get_double lib e [''location'', ''longitude'']),
          accuracy_radius = Option.bind city (\<lambda>e. get_uint16 lib e [''location'', ''accuracy_radius''])\<rparr>)"

lemma lookup_step_spec:
  "lookup_step lib is_open m addr fs (r, err) =
     (if err then (r, True)
      else (case db_entry lib is_open m addr of
              Some e \<Rightarrow> (fs e (r\<lparr>found := True\<rparr>), False)
            | None \<Rightarrow> (r, db_failed lib is_open m addr)))"
  by (auto simp: lookup_step_def db_entry_def db_failed_def split: prod.splits)

lemma db_entry_closed [simp]: "db_entry lib False m addr = None"
  by (simp add: db_entry_def split: prod.split)

lemma db_entry_not_failed: "db_entry lib is_open m addr = Some e \<Longrightarrow> is_open \<and> \<not> db_failed lib is_open m addr"
  by (auto simp: db_entry_def db_failed_def split: prod.splits if_splits)

lemma lookup_error:
  "snd (lookup lib dbs addr) \<longleftrightarrow>
     db_failed lib (country_open dbs) (country_mmdb dbs) (addr_storage addr)
     \<or> db_failed lib (asn_open dbs) (asn_mmdb dbs) (addr_storage addr)
     \<or> db_failed lib (city_open dbs) (city_mmdb dbs) (addr_storage addr)"
  unfolding lookup_def lookup_step_spec
  by (auto simp: lookup_step_spec dest: db_entry_not_failed split: option.splits)

lemma lookup_fields:
  assumes "\<not> snd (lookup lib dbs addr)"
  shows "fst (lookup lib dbs addr) = lookup_spec lib dbs (addr_storage addr)"
proof -
  from assms lookup_error
  have "\<not> db_failed lib (country_open dbs) (country_mmdb dbs) (addr_storage addr)"
    "\<not> db_failed lib (asn_open dbs) (asn_mmdb dbs) (addr_storage addr)" by blast+
  then show ?thesis
    unfolding lookup_def lookup_step_spec
    by (cases "country_open dbs"; cases "db_entry lib (country_open dbs) (country_mmdb dbs) (addr_storage addr)";
        cases "db_entry lib (asn_open dbs) (asn_mmdb dbs) (addr_storage addr)";
        cases "db_entry lib (city_open dbs) (city_mmdb dbs) (addr_storage addr)")
      (simp_all add: lookup_step_spec lookup_spec_def Let_def empty_result_def country_fields_def asn_fields_def
        city_fields_def)
qed


section \<open>Lookups during a reload\<close>

text \<open>
  The shared mutex between worker threads (\<^verbatim>\<open>std::shared_lock\<close> in \<^verbatim>\<open>lookup\<close> and the metadata functions) and the
  main thread (\<^verbatim>\<open>std::unique_lock\<close> in \<^verbatim>\<open>open_country\<close>, \<^verbatim>\<open>open_asn\<close>, \<^verbatim>\<open>open_city\<close>), one step per access to the
  shared state: the new file is mapped before the lock is taken, then the old handle is closed and the new
  one assigned under it.  A reader that touches a mapping that is not live sets \<open>fault\<close>.  The readers are \<^verbatim>\<open>lookup\<close> and the three
  metadata functions; \<^verbatim>\<open>has_country\<close>, \<^verbatim>\<open>has_asn\<close> and \<^verbatim>\<open>has_city\<close>, which read a flag without the lock and touch no mapping, are
  not among them.
\<close>

datatype db_slot = CountrySlot | AsnSlot | CitySlot

datatype writer_phase =
  WIdle | WOpened db_slot nat | WLocked db_slot nat | WClosed db_slot nat | WAssigned

record lock_state =
  slot_map :: "db_slot \<Rightarrow> nat option"
  live_maps :: "nat set"
  next_map :: nat
  readers :: "nat set"
  writer :: writer_phase
  fault :: bool

fun holds_lock :: "writer_phase \<Rightarrow> bool" where
  "holds_lock WIdle = False"
| "holds_lock (WOpened d m) = False"
| "holds_lock (WLocked d m) = True"
| "holds_lock (WClosed d m) = True"
| "holds_lock WAssigned = True"

definition lock_init :: "lock_state \<Rightarrow> bool" where
  "lock_init s \<longleftrightarrow> slot_map s = Map.empty \<and> live_maps s = {} \<and> readers s = {} \<and> writer s = WIdle \<and> \<not> fault s"

inductive lock_step :: "lock_state \<Rightarrow> lock_state \<Rightarrow> bool" where
  reader_lock: "\<not> holds_lock (writer s) \<Longrightarrow> i \<notin> readers s \<Longrightarrow> lock_step s (s\<lparr>readers := insert i (readers s)\<rparr>)"
| reader_use: "i \<in> readers s \<Longrightarrow> slot_map s d = Some m \<Longrightarrow>
    lock_step s (s\<lparr>fault := (fault s \<or> m \<notin> live_maps s)\<rparr>)"
| reader_unlock: "i \<in> readers s \<Longrightarrow> lock_step s (s\<lparr>readers := readers s - {i}\<rparr>)"
| writer_open: "writer s = WIdle \<Longrightarrow>
    lock_step s (s\<lparr>live_maps := insert (next_map s) (live_maps s), next_map := next_map s + 1,
      writer := WOpened d (next_map s)\<rparr>)"
| writer_lock: "writer s = WOpened d m \<Longrightarrow> readers s = {} \<Longrightarrow> lock_step s (s\<lparr>writer := WLocked d m\<rparr>)"
| writer_close: "writer s = WLocked d m \<Longrightarrow>
    lock_step s (s\<lparr>live_maps := live_maps s - set_option (slot_map s d), writer := WClosed d m\<rparr>)"
| writer_assign: "writer s = WClosed d m \<Longrightarrow>
    lock_step s (s\<lparr>slot_map := (slot_map s)(d \<mapsto> m), writer := WAssigned\<rparr>)"
| writer_unlock: "writer s = WAssigned \<Longrightarrow> lock_step s (s\<lparr>writer := WIdle\<rparr>)"

text \<open>The mappings that must be live in a phase of the writer, beside those of the slots.\<close>

fun pending_map :: "writer_phase \<Rightarrow> nat set" where
  "pending_map (WOpened d m) = {m}"
| "pending_map (WLocked d m) = {m}"
| "pending_map (WClosed d m) = {m}"
| "pending_map _ = {}"

fun dangling_slot :: "writer_phase \<Rightarrow> db_slot set" where
  "dangling_slot (WClosed d m) = {d}"
| "dangling_slot _ = {}"

definition lock_inv :: "lock_state \<Rightarrow> bool" where
  "lock_inv s \<longleftrightarrow> (holds_lock (writer s) \<longrightarrow> readers s = {}) \<and> \<not> fault s
     \<and> live_maps s = {m. \<exists>d. d \<notin> dangling_slot (writer s) \<and> slot_map s d = Some m} \<union> pending_map (writer s)
     \<and> (\<forall>d d' m. slot_map s d = Some m \<longrightarrow> slot_map s d' = Some m \<longrightarrow> d = d')
     \<and> (\<forall>d m. slot_map s d = Some m \<longrightarrow> m < next_map s \<and> m \<notin> pending_map (writer s))
     \<and> (\<forall>m \<in> pending_map (writer s). m < next_map s)"

lemma lock_inv_init: "lock_init s \<Longrightarrow> lock_inv s"
  by (simp add: lock_init_def lock_inv_def)

lemma reader_slot_live:
  assumes "lock_inv s" "i \<in> readers s" "slot_map s d = Some m"
  shows "m \<in> live_maps s"
proof -
  have "dangling_slot (writer s) = {}" using assms(1,2) by (cases "writer s") (auto simp: lock_inv_def)
  with assms(1,3) show ?thesis unfolding lock_inv_def by blast
qed

lemma lock_inv_step:
  assumes inv: "lock_inv s" and "lock_step s t"
  shows "lock_inv t"
  using assms(2)
proof cases
  case (reader_use i d m)
  with reader_slot_live [OF inv] inv show ?thesis by (simp add: lock_inv_def)
next
  case (writer_close d m)
  have "{x. \<exists>e. e \<noteq> d \<and> slot_map s e = Some x} \<union> {m} = live_maps s - set_option (slot_map s d)"
    using inv writer_close(2) unfolding lock_inv_def
    by (cases "slot_map s d") (auto, (metis option.distinct(1) option.inject)+)
  with inv writer_close show ?thesis by (simp add: lock_inv_def)
next
  case (writer_assign d m)
  then have "{x. \<exists>e. slot_map t e = Some x} = live_maps s"
    using inv unfolding lock_inv_def by auto
  with inv writer_assign show ?thesis by (auto simp: lock_inv_def)
next
  case (writer_open d)
  with inv show ?thesis by (auto simp: lock_inv_def less_Suc_eq)
next
  case (writer_lock d m)
  with inv show ?thesis by (simp add: lock_inv_def)
qed (use inv in \<open>auto simp: lock_inv_def\<close>)

interpretation db_lock: invariant_system lock_init lock_step lock_inv
  by unfold_locales (auto intro: lock_inv_init lock_inv_step)

section \<open>Properties\<close>

text \<open>C9: no worker ever reads a database that was unmapped, whatever the interleaving of lookups with
  reloads: in every reachable state no access has gone wrong and every handle a reader may use is mapped.  A reload leaks
  no mapping either: when the writer is idle exactly the mappings of the slots are live.\<close>

theorem reload_never_unmaps_in_use:
  assumes "ts_reach lock_init lock_step s"
  shows "\<not> fault s
    \<and> (readers s \<noteq> {} \<longrightarrow> (\<forall>d m. slot_map s d = Some m \<longrightarrow> m \<in> live_maps s))
    \<and> (writer s = WIdle \<longrightarrow> live_maps s = {m. \<exists>d. slot_map s d = Some m})"
proof -
  from assms have inv: "lock_inv s" by (rule db_lock.reach_inv)
  then show ?thesis using reader_slot_live [OF inv] by (auto simp: lock_inv_def)
qed

theorem reload_never_unmaps_in_use_witness:
  "\<exists>s. ts_reach lock_init lock_step s \<and> readers s = {7} \<and> writer s = WOpened CitySlot 1
     \<and> slot_map s CitySlot = Some 0 \<and> 0 \<in> live_maps s"
proof -
  let ?s0 = "\<lparr>slot_map = Map.empty, live_maps = {}, next_map = 0, readers = {}, writer = WIdle, fault = False\<rparr>"
  let ?s1 = "?s0\<lparr>live_maps := {0}, next_map := 1, writer := WOpened CitySlot 0\<rparr>"
  let ?s2 = "?s1\<lparr>writer := WLocked CitySlot 0\<rparr>"
  let ?s3 = "?s2\<lparr>writer := WClosed CitySlot 0\<rparr>"
  let ?s4 = "?s3\<lparr>slot_map := [CitySlot \<mapsto> 0], writer := WAssigned\<rparr>"
  let ?s5 = "?s4\<lparr>writer := WIdle\<rparr>"
  let ?s6 = "?s5\<lparr>readers := {7}\<rparr>"
  let ?s7 = "?s6\<lparr>live_maps := {1, 0}, next_map := Suc 1, writer := WOpened CitySlot 1\<rparr>"
  have "ts_reach lock_init lock_step ?s0" by (rule ts_init) (simp add: lock_init_def)
  moreover have "lock_step ?s0 ?s1" using writer_open [of ?s0 CitySlot] by simp
  moreover have "lock_step ?s1 ?s2" using writer_lock [of ?s1 CitySlot 0] by simp
  moreover have "lock_step ?s2 ?s3" using writer_close [of ?s2 CitySlot 0] by simp
  moreover have "lock_step ?s3 ?s4" using writer_assign [of ?s3 CitySlot 0] by simp
  moreover have "lock_step ?s4 ?s5" using writer_unlock [of ?s4] by simp
  moreover have "lock_step ?s5 ?s6" using reader_lock [of ?s5 7] by simp
  moreover have "lock_step ?s6 ?s7" using writer_open [of ?s6 CitySlot] by simp
  ultimately have r: "ts_reach lock_init lock_step ?s7" by (meson ts_step)
  from reload_never_unmaps_in_use [OF r] r show ?thesis by (intro exI [of _ ?s7]) simp
qed

text \<open>C8: a lookup reports an error exactly if an open database failed, and otherwise every field of
  its result comes from the database that is responsible for it: country and continent from the country database when it is open
  and from the city database otherwise, the system number and organisation from the ASN database, the rest from the city
  database; the address counts as found exactly if one of the open databases has an entry for it.\<close>

theorem lookup_exact:
  "(snd (lookup lib dbs addr) \<longleftrightarrow>
      db_failed lib (country_open dbs) (country_mmdb dbs) (addr_storage addr)
      \<or> db_failed lib (asn_open dbs) (asn_mmdb dbs) (addr_storage addr)
      \<or> db_failed lib (city_open dbs) (city_mmdb dbs) (addr_storage addr))
   \<and> (snd (lookup lib dbs addr) \<or> fst (lookup lib dbs addr) = lookup_spec lib dbs (addr_storage addr))"
  using lookup_error lookup_fields by blast

text \<open>C10: however often databases are opened and reloaded, successfully or not, exactly one mapping per
  open database is held and none is closed twice; destroying the object afterwards releases all of them.\<close>

theorem no_handle_leak:
  assumes "live h = []" "\<not> bad_close h" "run_db_ops ops (no_databases, h) = (dbs, h')"
  shows "set (live h') = set (slot_mappings dbs) \<and> length (live h') = length (slot_mappings dbs) \<and> \<not> bad_close h'
    \<and> live (destroy_databases dbs h') = [] \<and> \<not> bad_close (destroy_databases dbs h')"
proof -
  have ok: "handles_ok (dbs, h')"
    using handles_ok_ops [OF handles_ok_init [OF assms(1,2)], of ops] assms(3) by simp
  then have "length (live h') = length (slot_mappings dbs)"
    by (simp add: handles_ok_def flip: distinct_card)
  with ok destroy_closes_all [OF ok] show ?thesis by (simp add: handles_ok_def)
qed

definition fresh_heap :: mmdb_heap where
  "fresh_heap = \<lparr>live = [], next_mapping = 0, bad_close = False\<rparr>"

theorem no_handle_leak_witness:
  "\<exists>dbs h'. run_db_ops [OpenCity (Inr sample_metadata) ''a'', OpenCity (Inl ''gone'') ''a'',
      OpenCity (Inr sample_metadata) ''a''] (no_databases, fresh_heap) = (dbs, h')
    \<and> live h' = [1] \<and> live (destroy_databases dbs h') = []"
proof -
  obtain dbs h' where r: "run_db_ops [OpenCity (Inr sample_metadata) ''a'', OpenCity (Inl ''gone'') ''a'',
      OpenCity (Inr sample_metadata) ''a''] (no_databases, fresh_heap) = (dbs, h')" by force
  have "live h' = [1]"
    using r by (auto simp: slot_defs no_databases_def fresh_heap_def Let_def)
  with no_handle_leak [OF _ _ r] r show ?thesis by (auto simp: fresh_heap_def)
qed

text \<open>Reloading swaps one handle and nothing else: on failure the databases and their mappings are
  untouched, so lookups keep being answered from the old file; on success only the city slot changes, it holds the new
  file under a fresh mapping, and the old mapping has been released.\<close>

theorem reload_city_swaps:
  assumes "handles_ok (dbs, h)"
  shows "(case answer of
      Inl msg \<Rightarrow> snd (reload_city answer path (dbs, h)) = (dbs, h)
        \<and> fst (reload_city answer path (dbs, h)) \<noteq> None
    | Inr meta \<Rightarrow> \<exists>h'. reload_city answer path (dbs, h) =
          (None, dbs\<lparr>city_mmdb := \<lparr>mapping = next_mapping h, mm_metadata = meta\<rparr>, city_open := True\<rparr>, h')
        \<and> next_mapping h \<notin> set (live h)
        \<and> set (live h') = insert (next_mapping h)
            (set (live h) - (if city_open dbs then {mapping (city_mmdb dbs)} else {})))"
proof (cases answer)
  case (Inl msg)
  then show ?thesis by (simp add: reload_city_def)
next
  case (Inr meta)
  have h: "distinct (live h)" "\<forall>x \<in> set (live h). x < next_mapping h"
    and o: "city_open dbs \<longrightarrow> mapping (city_mmdb dbs) \<in> set (live h)"
    using assms by (auto simp: handles_ok_def slot_mappings_def slot_lists)
  from h(2) have "next_mapping h \<notin> set (live h)" by blast
  with Inr swap_heap_props [OF h o] show ?thesis by (simp add: reload_city_def open_slot_swaps)
qed

theorem reload_city_swaps_witness:
  "fst (reload_city (Inl ''gone'') ''a'' (no_databases, fresh_heap)) \<noteq> None
   \<and> snd (reload_city (Inl ''gone'') ''a'' (no_databases, fresh_heap)) = (no_databases, fresh_heap)"
  using reload_city_swaps [of no_databases fresh_heap "Inl ''gone''" "''a''"] handles_ok_init [of fresh_heap]
  by (simp add: fresh_heap_def)

end
