(* ===== verification/Metrics.thy ===== *)
theory Metrics
  imports Geoip
begin

text \<open>
  Counters and their two renderings: \<^verbatim>\<open>src/src/metrics.cpp\<close> and \<^verbatim>\<open>src/src/metrics.h\<close>.

  The atomic counters are 64-bit words and wrap around.  The Prometheus text is specified by a scraper: it
  cuts the text into lines, skips comments, and reads each sample as a metric name, labels and a
  value; label values are escaped literals, a second instance of the interface that JSON strings obey.
  The health body is specified by the JSON value it stands for.
\<close>

section \<open>Model\<close>

record Metrics =
  lookup_requests_total :: "64 word"
  health_requests_total :: "64 word"
  metrics_requests_total :: "64 word"
  other_requests_total :: "64 word"
  responses_200 :: "64 word"
  responses_400 :: "64 word"
  responses_404 :: "64 word"
  responses_405 :: "64 word"
  responses_500 :: "64 word"
  lookup_found_total :: "64 word"
  lookup_not_found_total :: "64 word"

definition zero_metrics :: Metrics where
  "zero_metrics = \<lparr>lookup_requests_total = 0, health_requests_total = 0, metrics_requests_total = 0,
     other_requests_total = 0, responses_200 = 0, responses_400 = 0, responses_404 = 0, responses_405 = 0,
     responses_500 = 0, lookup_found_total = 0, lookup_not_found_total = 0\<rparr>"

definition record_request :: "string \<Rightarrow> Metrics \<Rightarrow> Metrics" where
  "record_request path m =
     (if path = ''/lookup'' then m\<lparr>lookup_requests_total := lookup_requests_total m + 1\<rparr>
      else if path = ''/health'' then m\<lparr>health_requests_total := health_requests_total m + 1\<rparr>
      else if path = ''/metrics'' then m\<lparr>metrics_requests_total := metrics_requests_total m + 1\<rparr>
      else m\<lparr>other_requests_total := other_requests_total m + 1\<rparr>)"

definition record_response :: "int \<Rightarrow> Metrics \<Rightarrow> Metrics" where
  "record_response status m =
     (if status = 200 then m\<lparr>responses_200 := responses_200 m + 1\<rparr>
      else if status = 400 then m\<lparr>responses_400 := responses_400 m + 1\<rparr>
      else if status = 404 then m\<lparr>responses_404 := responses_404 m + 1\<rparr>
      else if status = 405 then m\<lparr>responses_405 := responses_405 m + 1\<rparr>
      else if status = 500 then m\<lparr>responses_500 := responses_500 m + 1\<rparr>
      else m)"

record MetricsDbInfo =
  info_name :: string
  info_open :: bool
  info_metadata :: "GeoIpDbMetadata option"

definition escape_label_char :: "char \<Rightarrow> string" where
  "escape_label_char c =
     (if c = BSL then [BSL, BSL] else if c = DQ then [BSL, DQ] else if c = LF then [BSL, CHR ''n''] else [c])"

fun escape_label_value :: "string \<Rightarrow> string" where
  "escape_label_value [] = []"
| "escape_label_value (c # cs) = escape_label_char c @ escape_label_value cs"

text \<open>The comment lines of a metric family.\<close>

definition family :: "string \<Rightarrow> string \<Rightarrow> string \<Rightarrow> string" where
  "family name help kind =
     ''# HELP '' @ name @ '' '' @ help @ [LF] @ ''# TYPE '' @ name @ '' '' @ kind @ [LF]"

text \<open>A sample with one label whose value is already escaped.\<close>

definition labelled :: "string \<Rightarrow> string \<Rightarrow> string \<Rightarrow> string \<Rightarrow> string" where
  "labelled name key escaped num =
     name @ ''{'' @ key @ ''='' @ [DQ] @ escaped @ [DQ] @ ''} '' @ num @ [LF]"

definition render_prometheus_metrics ::
  "Metrics \<Rightarrow> MetricsDbInfo list \<Rightarrow> string \<Rightarrow> string \<Rightarrow> double \<Rightarrow> string" where
  "render_prometheus_metrics m dbs version mmdb_lib_version uptime =
     family ''nshgeoip_build_info'' ''nshgeoip build information.'' ''gauge''
     @ ''nshgeoip_build_info{version='' @ [DQ] @ escape_label_value version @ [DQ] @ '',libmaxminddb_version=''
     @ [DQ] @ escape_label_value mmdb_lib_version @ [DQ] @ ''} 1'' @ [LF]
     @ family ''nshgeoip_uptime_seconds'' ''Seconds since the daemon started.'' ''gauge''
     @ ''nshgeoip_uptime_seconds '' @ format_fixed 0 uptime @ [LF]
     @ family ''nshgeoip_db_open'' ''Whether a database is currently open (1) or not (0).'' ''gauge''
     @ concat (map (\<lambda>db. labelled ''nshgeoip_db_open'' ''db'' (escape_label_value (info_name db))
         (if info_open db then ''1'' else ''0'')) dbs)
     @ family ''nshgeoip_db_build_epoch_seconds'' ''Database build time as a Unix timestamp.'' ''gauge''
     @ concat (map (\<lambda>db. case info_metadata db of None \<Rightarrow> []
         | Some meta \<Rightarrow> labelled ''nshgeoip_db_build_epoch_seconds'' ''db'' (escape_label_value (info_name db))
             (word_text (build_epoch meta))) dbs)
     @ family ''nshgeoip_db_age_seconds'' ''Seconds since the database was built.'' ''gauge''
     @ concat (map (\<lambda>db. case info_metadata db of None \<Rightarrow> []
         | Some meta \<Rightarrow> labelled ''nshgeoip_db_age_seconds'' ''db'' (escape_label_value (info_name db))
             (format_fixed 0 (double_scale 86400 1 (age_days meta)))) dbs)
     @ family ''nshgeoip_requests_total'' ''Total HTTP requests received, by path.'' ''counter''
     @ labelled ''nshgeoip_requests_total'' ''path'' ''lookup'' (word_text (lookup_requests_total m))
     @ labelled ''nshgeoip_requests_total'' ''path'' ''health'' (word_text (health_requests_total m))
     @ labelled ''nshgeoip_requests_total'' ''path'' ''metrics'' (word_text (metrics_requests_total m))
     @ labelled ''nshgeoip_requests_total'' ''path'' ''other'' (word_text (other_requests_total m))
     @ family ''nshgeoip_http_responses_total'' ''HTTP responses sent, by status code.'' ''counter''
     @ labelled ''nshgeoip_http_responses_total'' ''code'' ''200'' (word_text (responses_200 m))
     @ labelled ''nshgeoip_http_responses_total'' ''code'' ''400'' (word_text (responses_400 m))
     @ labelled ''nshgeoip_http_responses_total'' ''code'' ''404'' (word_text (responses_404 m))
     @ labelled ''nshgeoip_http_responses_total'' ''code'' ''405'' (word_text (responses_405 m))
     @ labelled ''nshgeoip_http_responses_total'' ''code'' ''500'' (word_text (responses_500 m))
     @ family ''nshgeoip_lookup_results_total'' ''/lookup outcomes, by result.'' ''counter''
     @ labelled ''nshgeoip_lookup_results_total'' ''result'' ''found'' (word_text (lookup_found_total m))
     @ labelled ''nshgeoip_lookup_results_total'' ''result'' ''not_found'' (word_text (lookup_not_found_total m))"

definition health_db :: "MetricsDbInfo \<Rightarrow> string" where
  "health_db db =
     quoted (info_name db) @ '':{'' @ json_field ''open''
     @ (if info_open db then ''true'' else ''false'')
     @ (case info_metadata db of
          None \<Rightarrow> []
        | Some meta \<Rightarrow>
            '','' @ json_field ''database_type'' @ quoted (database_type meta)
            @ '','' @ json_field ''build_epoch'' @ word_text (build_epoch meta)
            @ '','' @ json_field ''build_date'' @ quoted (build_time meta)
            @ '','' @ json_field ''age_days'' @ format_fixed 1 (age_days meta)
            @ '','' @ json_field ''age_ms'' @ word_text (age_ms meta)
            @ '','' @ json_field ''age_ns'' @ word_text (age_ns meta))
     @ ''}''"

definition render_health_json :: "MetricsDbInfo list \<Rightarrow> string \<Rightarrow> string \<Rightarrow> double \<Rightarrow> string" where
  "render_health_json dbs version mmdb_lib_version uptime =
     ''{'' @ json_field ''status'' @ [DQ] @ ''ok'' @ [DQ]
     @ '','' @ json_field ''version'' @ quoted version
     @ '','' @ json_field ''libmaxminddb_version'' @ quoted mmdb_lib_version
     @ '','' @ json_field ''uptime_seconds'' @ format_fixed 0 uptime
     @ '','' @ json_field ''databases'' @ ''{'' @ join (CHR '','') (map health_db dbs) @ ''}''
     @ ''}''"

section \<open>Counting\<close>

definition requests_total :: "Metrics \<Rightarrow> 64 word" where
  "requests_total m = lookup_requests_total m + health_requests_total m + metrics_requests_total m
     + other_requests_total m"

definition responses_total :: "Metrics \<Rightarrow> 64 word" where
  "responses_total m = responses_200 m + responses_400 m + responses_404 m + responses_405 m + responses_500 m"

definition known_status :: "int \<Rightarrow> bool" where
  "known_status s \<longleftrightarrow> s \<in> {200, 400, 404, 405, 500}"

lemma record_request_counts [simp]:
  "requests_total (record_request path m) = requests_total m + 1"
  "responses_total (record_request path m) = responses_total m"
  by (simp_all add: record_request_def requests_total_def responses_total_def)

lemma record_response_counts [simp]:
  "known_status s \<Longrightarrow> responses_total (record_response s m) = responses_total m + 1"
  "requests_total (record_response s m) = requests_total m"
  by (auto simp: record_response_def requests_total_def responses_total_def known_status_def)

section \<open>The scraper\<close>

fun read_label_value :: "string \<Rightarrow> (string \<times> string) option" where
  "read_label_value [] = None"
| "read_label_value (c # cs) =
     (if c = DQ then Some ([], cs)
      else if c = BSL then
        (case cs of
           [] \<Rightarrow> None
         | e # r \<Rightarrow>
             if e = BSL \<or> e = DQ then map_option (apfst ((#) e)) (read_label_value r)
             else if e = CHR ''n'' then map_option (apfst ((#) LF)) (read_label_value r)
             else None)
      else if c = LF then None
      else map_option (apfst ((#) c)) (read_label_value cs))"

interpretation label: escaped_literal escape_label_char escape_label_value read_label_value DQ
  by unfold_locales (simp_all add: escape_label_char_def)

lemma escape_label_no_LF: "LF \<notin> set (escape_label_value s)"
  by (induction s) (auto simp: escape_label_char_def)

type_synonym sample = "string \<times> (string \<times> string) list \<times> string"

fun read_labels :: "nat \<Rightarrow> string \<Rightarrow> ((string \<times> string) list \<times> string) option" where
  "read_labels 0 s = None"
| "read_labels (Suc n) s =
     (case find_char (CHR ''='') s of
        None \<Rightarrow> None
      | Some i \<Rightarrow>
          (case drop (i + 1) s of
             q # r \<Rightarrow>
               if q = DQ then
                 (case read_label_value r of
                    Some (v, d # t) \<Rightarrow>
                      if d = CHR '','' then map_option (apfst ((#) (take i s, v))) (read_labels n t)
                      else if d = CHR ''}'' then Some ([(take i s, v)], t) else None
                  | _ \<Rightarrow> None)
               else None
           | [] \<Rightarrow> None))"

definition name_char :: "char \<Rightarrow> bool" where
  "name_char c \<longleftrightarrow> c \<noteq> CHR ''{'' \<and> c \<noteq> SP"

definition read_sample :: "string \<Rightarrow> sample option" where
  "read_sample l =
     (let name = takeWhile name_char l in
      case dropWhile name_char l of
        [] \<Rightarrow> None
      | c # r \<Rightarrow>
          if c = SP then Some (name, [], r)
          else (case read_labels (length r) r of
                  Some (ls, d # v) \<Rightarrow> if d = SP then Some (name, ls, v) else None
                | _ \<Rightarrow> None))"

fun read_samples :: "string list \<Rightarrow> sample list option" where
  "read_samples [] = Some []"
| "read_samples (l # ls) =
     (if l = [] \<or> hd l = CHR ''#'' then read_samples ls
      else (case read_sample l of
              None \<Rightarrow> None
            | Some x \<Rightarrow> map_option ((#) x) (read_samples ls)))"

definition scrape :: "string \<Rightarrow> sample list option" where
  "scrape text = read_samples (split_on LF text)"

section \<open>Scraping a rendered text\<close>

definition plain_word :: "string \<Rightarrow> bool" where
  "plain_word s \<longleftrightarrow> s \<noteq> [] \<and> list_all (\<lambda>c. c \<notin> set ([LF, SP] @ ''{=#'')) s"

definition labels_text :: "(string \<times> string) list \<Rightarrow> string" where
  "labels_text ls = join (CHR '','') (map (\<lambda>(k, v). k @ ''='' @ [DQ] @ escape_label_value v @ [DQ]) ls)"

definition sample_line :: "sample \<Rightarrow> string" where
  "sample_line = (\<lambda>(name, ls, v).
     name @ (if ls = [] then [] else ''{'' @ labels_text ls @ ''}'') @ '' '' @ v)"

definition sample_ok :: "sample \<Rightarrow> bool" where
  "sample_ok = (\<lambda>(name, ls, v). plain_word name \<and> (\<forall>(k, w) \<in> set ls. plain_word k) \<and> LF \<notin> set v)"

lemma read_labels_text:
  assumes "ls \<noteq> []" "\<forall>(k, v) \<in> set ls. plain_word k" "length ls \<le> n"
  shows "read_labels n (labels_text ls @ CHR ''}'' # rest) = Some (ls, rest)"
  using assms
proof (induction ls arbitrary: n)
  case Nil
  then show ?case by simp
next
  case (Cons l ls)
  obtain k v where l: "l = (k, v)" by force
  obtain n' where n: "n = Suc n'" using Cons.prems by (cases n) auto
  have "CHR ''='' \<notin> set k" using Cons.prems(2) l by (auto simp: plain_word_def list_all_iff)
  then have f: "find_char (CHR ''='') (k @ CHR ''='' # s) = Some (length k)" for s
    by (auto simp: find_char_split)
  show ?case
  proof (cases ls)
    case Nil
    with n f label.read_escape show ?thesis by (simp add: l labels_text_def)
  next
    case (Cons l2 ls2)
    with Cons.IH [of n'] Cons.prems n
    have "read_labels n' (labels_text ls @ CHR ''}'' # rest) = Some (ls, rest)" by simp
    moreover have "labels_text (l # ls) = k @ CHR ''='' # DQ # escape_label_value v @ DQ # CHR '','' # labels_text ls"
      using Cons by (simp add: l labels_text_def)
    ultimately show ?thesis using n f label.read_escape by (simp add: l)
  qed
qed

lemma length_labels_text: "length ls \<le> Suc (length (labels_text ls))"
proof -
  let ?f = "\<lambda>(k, v). k @ ''='' @ [DQ] @ escape_label_value v @ [DQ]"
  have "length ls \<le> sum_list (map (\<lambda>l. Suc (length (?f l))) ls)" by (induction ls) auto
  also have "\<dots> \<le> Suc (length (labels_text ls))"
    using length_join [of "map ?f ls" "CHR '',''"] by (simp add: labels_text_def comp_def)
  finally show ?thesis .
qed

lemma plain_word_name: "plain_word s \<Longrightarrow> \<forall>c \<in> set s. name_char c"
  by (auto simp: plain_word_def list_all_iff name_char_def)

lemma read_sample_line: "sample_ok x \<Longrightarrow> read_sample (sample_line x) = Some x"
proof -
  assume ok: "sample_ok x"
  obtain name ls v where x: "x = (name, ls, v)" by (metis prod_cases3)
  with ok have w: "\<forall>c \<in> set name. name_char c" and k: "\<forall>(k, v) \<in> set ls. plain_word k"
    using plain_word_name by (auto simp: sample_ok_def)
  have tw: "takeWhile name_char (name @ c # r) = name" "dropWhile name_char (name @ c # r) = c # r"
    if "c = CHR ''{'' \<or> c = SP" for c r
    using w that by (auto simp: takeWhile_append2 dropWhile_append2 name_char_def)
  show ?thesis
  proof (cases "ls = []")
    case True
    then show ?thesis by (simp add: x sample_line_def read_sample_def tw)
  next
    case False
    have "length ls \<le> length (labels_text ls @ CHR ''}'' # SP # v)" using length_labels_text [of ls] by simp
    from read_labels_text [OF False k this, of "SP # v"] False show ?thesis
      by (simp add: x sample_line_def read_sample_def tw)
  qed
qed

lemma sample_line_no_LF: "sample_ok x \<Longrightarrow> LF \<notin> set (sample_line x)"
proof -
  assume ok: "sample_ok x"
  obtain name ls v where x: "x = (name, ls, v)" by (metis prod_cases3)
  have "LF \<notin> set (labels_text ls)"
    unfolding labels_text_def
  proof (rule notin_join)
    show "\<forall>l \<in> set (map (\<lambda>(k, v). k @ ''='' @ [DQ] @ escape_label_value v @ [DQ]) ls). LF \<notin> set l"
      using ok escape_label_no_LF by (fastforce simp: x sample_ok_def plain_word_def list_all_iff)
  qed simp
  with ok show ?thesis by (auto simp: x sample_line_def sample_ok_def plain_word_def list_all_iff)
qed

lemma scrape_Nil: "scrape [] = Some []"
  by (simp add: scrape_def)

text \<open>A text emits samples if a scraper reads them in front of whatever follows.\<close>

definition emits :: "string \<Rightarrow> sample list \<Rightarrow> bool" where
  "emits text xs \<longleftrightarrow> (\<forall>rest. scrape (text @ rest) = map_option (\<lambda>ys. xs @ ys) (scrape rest))"

lemma emits_Nil: "emits [] []"
  by (simp add: emits_def option.map_ident)

lemma emits_append: "emits a xs \<Longrightarrow> emits b ys \<Longrightarrow> emits (a @ b) (xs @ ys)"
  by (simp add: emits_def option.map_comp comp_def)

lemma emits_concat: "(\<And>x. x \<in> set xs \<Longrightarrow> emits (f x) (g x)) \<Longrightarrow> emits (concat (map f xs)) (concat (map g xs))"
  by (induction xs) (simp_all add: emits_Nil emits_append)

lemma emits_line:
  assumes "sample_ok x"
  shows "emits (sample_line x @ [LF]) [x]"
proof -
  obtain name ls v where x: "x = (name, ls, v)" by (metis prod_cases3)
  with assms have "sample_line x \<noteq> [] \<and> hd (sample_line x) \<noteq> CHR ''#''"
    by (cases name) (auto simp: sample_ok_def sample_line_def plain_word_def)
  then show ?thesis
    using read_sample_line [OF assms] sample_line_no_LF [OF assms]
    by (auto simp: emits_def scrape_def)
qed

lemma emits_comment: "LF \<notin> set t \<Longrightarrow> emits (CHR ''#'' # t @ [LF]) []"
proof -
  assume "LF \<notin> set t"
  then have "split_on LF (CHR ''#'' # t @ LF # rest) = (CHR ''#'' # t) # split_on LF rest" for rest
    using split_on_append [of LF "CHR ''#'' # t" rest] by simp
  then show ?thesis by (simp add: emits_def scrape_def option.map_ident)
qed

lemma emits_family:
  assumes "LF \<notin> set name" "LF \<notin> set help" "LF \<notin> set kind"
  shows "emits (family name help kind) []"
proof -
  have "emits (CHR ''#'' # ('' HELP '' @ name @ '' '' @ help) @ [LF]) []"
    "emits (CHR ''#'' # ('' TYPE '' @ name @ '' '' @ kind) @ [LF]) []"
    by (rule emits_comment; use assms in simp)+
  from emits_append [OF this] show ?thesis by (simp add: family_def)
qed

lemma emits_labelled:
  assumes "plain_word name" "plain_word key" "LF \<notin> set num"
  shows "emits (labelled name key (escape_label_value v) num) [(name, [(key, v)], num)]"
  using emits_line [of "(name, [(key, v)], num)"] assms
  by (simp add: sample_ok_def sample_line_def labels_text_def labelled_def)

lemma emits_literal:
  assumes "plain_word name" "plain_word key" "LF \<notin> set num" "escape_label_value v = v"
  shows "emits (labelled name key v num) [(name, [(key, v)], num)]"
  using emits_labelled [OF assms(1-3), of v] assms(4) by simp

lemma word_text_no_LF: "LF \<notin> set (word_text w)"
  using nat_to_string_no_cntrl [of LF] by (auto simp: word_text_def byte_simps)

lemma format_fixed_no_LF: "LF \<notin> set (format_fixed p d)"
  using format_fixed_plain [of LF] by (auto simp: byte_simps)


section \<open>Properties\<close>

text \<open>The samples a scrape is meant to deliver.\<close>

definition db_samples :: "string \<Rightarrow> (GeoIpDbMetadata \<Rightarrow> string) \<Rightarrow> MetricsDbInfo list \<Rightarrow> sample list" where
  "db_samples name value dbs = concat (map (\<lambda>db. case info_metadata db of None \<Rightarrow> []
     | Some meta \<Rightarrow> [(name, [(''db'', info_name db)], value meta)]) dbs)"

definition prometheus_samples :: "Metrics \<Rightarrow> MetricsDbInfo list \<Rightarrow> string \<Rightarrow> string \<Rightarrow> double \<Rightarrow> sample list" where
  "prometheus_samples m dbs version lib_version uptime =
     [(''nshgeoip_build_info'', [(''version'', version), (''libmaxminddb_version'', lib_version)], ''1''),
      (''nshgeoip_uptime_seconds'', [], format_fixed 0 uptime)]
     @ map (\<lambda>db. (''nshgeoip_db_open'', [(''db'', info_name db)], if info_open db then ''1'' else ''0'')) dbs
     @ db_samples ''nshgeoip_db_build_epoch_seconds'' (\<lambda>meta. word_text (build_epoch meta)) dbs
     @ db_samples ''nshgeoip_db_age_seconds''
         (\<lambda>meta. format_fixed 0 (double_scale 86400 1 (age_days meta))) dbs
     @ map (\<lambda>(v, c). (''nshgeoip_requests_total'', [(''path'', v)], word_text c))
         [(''lookup'', lookup_requests_total m), (''health'', health_requests_total m),
          (''metrics'', metrics_requests_total m), (''other'', other_requests_total m)]
     @ map (\<lambda>(v, c). (''nshgeoip_http_responses_total'', [(''code'', v)], word_text c))
         [(''200'', responses_200 m), (''400'', responses_400 m), (''404'', responses_404 m),
          (''405'', responses_405 m), (''500'', responses_500 m)]
     @ map (\<lambda>(v, c). (''nshgeoip_lookup_results_total'', [(''result'', v)], word_text c))
         [(''found'', lookup_found_total m), (''not_found'', lookup_not_found_total m)]"

lemma emits_map: "(\<And>x. x \<in> set xs \<Longrightarrow> emits (f x) [g x]) \<Longrightarrow> emits (concat (map f xs)) (map g xs)"
  using emits_concat [of xs f "\<lambda>x. [g x]"] by (simp add: concat_map_singleton)

lemma plain_words:
  "plain_word ''db''" "plain_word ''path''" "plain_word ''code''" "plain_word ''result''" "plain_word ''version''"
  "plain_word ''libmaxminddb_version''" "plain_word ''nshgeoip_build_info''" "plain_word ''nshgeoip_uptime_seconds''"
  "plain_word ''nshgeoip_db_open''" "plain_word ''nshgeoip_db_build_epoch_seconds''"
  "plain_word ''nshgeoip_db_age_seconds''" "plain_word ''nshgeoip_requests_total''"
  "plain_word ''nshgeoip_http_responses_total''" "plain_word ''nshgeoip_lookup_results_total''"
  by (simp_all add: plain_word_def)

lemma emits_db_open:
  "emits (concat (map (\<lambda>db. labelled ''nshgeoip_db_open'' ''db'' (escape_label_value (info_name db))
      (if info_open db then ''1'' else ''0'')) dbs))
    (map (\<lambda>db. (''nshgeoip_db_open'', [(''db'', info_name db)], if info_open db then ''1'' else ''0'')) dbs)"
  by (intro emits_map emits_labelled plain_words) simp

lemma emits_db_samples:
  assumes "plain_word name" "\<And>meta. LF \<notin> set (value meta)"
  shows "emits (concat (map (\<lambda>db. case info_metadata db of None \<Rightarrow> []
      | Some meta \<Rightarrow> labelled name ''db'' (escape_label_value (info_name db)) (value meta)) dbs))
    (db_samples name value dbs)"
  unfolding db_samples_def
  by (rule emits_concat) (simp add: assms emits_Nil emits_labelled plain_words split: option.split)

lemma emits_counters:
  assumes "plain_word name" "plain_word key" "\<forall>(v, c) \<in> set cs. escape_label_value v = v"
  shows "emits (concat (map (\<lambda>(v, c). labelled name key v (word_text c)) cs))
    (map (\<lambda>(v, c). (name, [(key, v)], word_text c)) cs)"
proof (rule emits_map)
  fix x assume "x \<in> set cs"
  with assms show "emits (case x of (v, c) \<Rightarrow> labelled name key v (word_text c))
      [case x of (v, c) \<Rightarrow> (name, [(key, v)], word_text c)]"
    by (cases x) (auto simp: word_text_no_LF intro!: emits_literal)
qed

lemma emits_build_info:
  "emits (''nshgeoip_build_info{version='' @ [DQ] @ escape_label_value version @ [DQ] @ '',libmaxminddb_version=''
     @ [DQ] @ escape_label_value lib_version @ [DQ] @ ''} 1'' @ [LF])
   [(''nshgeoip_build_info'', [(''version'', version), (''libmaxminddb_version'', lib_version)], ''1'')]"
  using emits_line [of "(''nshgeoip_build_info'', [(''version'', version), (''libmaxminddb_version'', lib_version)], ''1'')"]
  by (simp add: sample_ok_def plain_words sample_line_def labels_text_def)

lemma emits_uptime:
  "emits (''nshgeoip_uptime_seconds '' @ format_fixed 0 uptime @ [LF])
    [(''nshgeoip_uptime_seconds'', [], format_fixed 0 uptime)]"
  using emits_line [of "(''nshgeoip_uptime_seconds'', [], format_fixed 0 uptime)"]
  by (simp add: sample_ok_def plain_words sample_line_def format_fixed_no_LF)

lemma emits_families:
  "emits (family ''nshgeoip_build_info'' ''nshgeoip build information.'' ''gauge'') []"
  "emits (family ''nshgeoip_uptime_seconds'' ''Seconds since the daemon started.'' ''gauge'') []"
  "emits (family ''nshgeoip_db_open'' ''Whether a database is currently open (1) or not (0).'' ''gauge'') []"
  "emits (family ''nshgeoip_db_build_epoch_seconds'' ''Database build time as a Unix timestamp.'' ''gauge'') []"
  "emits (family ''nshgeoip_db_age_seconds'' ''Seconds since the database was built.'' ''gauge'') []"
  "emits (family ''nshgeoip_requests_total'' ''Total HTTP requests received, by path.'' ''counter'') []"
  "emits (family ''nshgeoip_http_responses_total'' ''HTTP responses sent, by status code.'' ''counter'') []"
  "emits (family ''nshgeoip_lookup_results_total'' ''/lookup outcomes, by result.'' ''counter'') []"
  by (rule emits_family; simp)+

lemma emits_requests:
  "emits (labelled ''nshgeoip_requests_total'' ''path'' ''lookup'' (word_text (lookup_requests_total m))
   @ labelled ''nshgeoip_requests_total'' ''path'' ''health'' (word_text (health_requests_total m))
   @ labelled ''nshgeoip_requests_total'' ''path'' ''metrics'' (word_text (metrics_requests_total m))
   @ labelled ''nshgeoip_requests_total'' ''path'' ''other'' (word_text (other_requests_total m)))
   (map (\<lambda>(v, c). (''nshgeoip_requests_total'', [(''path'', v)], word_text c))
       [(''lookup'', lookup_requests_total m), (''health'', health_requests_total m),
        (''metrics'', metrics_requests_total m), (''other'', other_requests_total m)])"
  using emits_counters [of "''nshgeoip_requests_total''" "''path''"
      "[(''lookup'', lookup_requests_total m), (''health'', health_requests_total m),
        (''metrics'', metrics_requests_total m), (''other'', other_requests_total m)]"]
  by (simp add: plain_words escape_label_char_def)

lemma emits_responses:
  "emits (labelled ''nshgeoip_http_responses_total'' ''code'' ''200'' (word_text (responses_200 m))
   @ labelled ''nshgeoip_http_responses_total'' ''code'' ''400'' (word_text (responses_400 m))
   @ labelled ''nshgeoip_http_responses_total'' ''code'' ''404'' (word_text (responses_404 m))
   @ labelled ''nshgeoip_http_responses_total'' ''code'' ''405'' (word_text (responses_405 m))
   @ labelled ''nshgeoip_http_responses_total'' ''code'' ''500'' (word_text (responses_500 m)))
   (map (\<lambda>(v, c). (''nshgeoip_http_responses_total'', [(''code'', v)], word_text c))
       [(''200'', responses_200 m), (''400'', responses_400 m), (''404'', responses_404 m),
        (''405'', responses_405 m), (''500'', responses_500 m)])"
  using emits_counters [of "''nshgeoip_http_responses_total''" "''code''"
      "[(''200'', responses_200 m), (''400'', responses_400 m), (''404'', responses_404 m),
        (''405'', responses_405 m), (''500'', responses_500 m)]"]
  by (simp add: plain_words escape_label_char_def)

lemma emits_results:
  "emits (labelled ''nshgeoip_lookup_results_total'' ''result'' ''found'' (word_text (lookup_found_total m))
   @ labelled ''nshgeoip_lookup_results_total'' ''result'' ''not_found'' (word_text (lookup_not_found_total m)))
   (map (\<lambda>(v, c). (''nshgeoip_lookup_results_total'', [(''result'', v)], word_text c))
       [(''found'', lookup_found_total m), (''not_found'', lookup_not_found_total m)])"
  using emits_counters [of "''nshgeoip_lookup_results_total''" "''result''"
      "[(''found'', lookup_found_total m), (''not_found'', lookup_not_found_total m)]"]
  by (simp add: plain_words escape_label_char_def)

text \<open>C32: a Prometheus scraper reads from the rendered text exactly the intended samples, in order: the build
  information, the uptime, one open flag per database, build time and age of each open database, and all eleven
  counters; no version string or database name can forge or hide a sample.\<close>

theorem prometheus_scrape_exact:
  "scrape (render_prometheus_metrics m dbs version lib_version uptime) =
     Some (prometheus_samples m dbs version lib_version uptime)"
proof -
  note epochs = emits_db_samples [of _ "\<lambda>meta. word_text (build_epoch meta)" dbs, OF plain_words(10) word_text_no_LF]
  note ages = emits_db_samples [of _ "\<lambda>meta. format_fixed 0 (double_scale 86400 1 (age_days meta))" dbs,
    OF plain_words(11) format_fixed_no_LF]
  have "emits (render_prometheus_metrics m dbs version lib_version uptime)
    (prometheus_samples m dbs version lib_version uptime)"
    using emits_append [OF emits_append [OF emits_families(1) emits_build_info [of version lib_version]]
      emits_append [OF emits_append [OF emits_families(2) emits_uptime [of uptime]]
      emits_append [OF emits_append [OF emits_families(3) emits_db_open [of dbs]]
      emits_append [OF emits_append [OF emits_families(4) epochs]
      emits_append [OF emits_append [OF emits_families(5) ages]
      emits_append [OF emits_append [OF emits_families(6) emits_requests [of m]]
      emits_append [OF emits_append [OF emits_families(7) emits_responses [of m]]
      emits_append [OF emits_families(8) emits_results [of m]]]]]]]]]
    by (simp add: render_prometheus_metrics_def prometheus_samples_def)
  then show ?thesis unfolding emits_def by (metis append_Nil2 scrape_Nil option.simps(9))
qed


text \<open>The health body as a JSON value.\<close>

definition health_db_value :: "MetricsDbInfo \<Rightarrow> json" where
  "health_db_value db = JObj ((''open'', JBool (info_open db)) #
     (case info_metadata db of
        None \<Rightarrow> []
      | Some meta \<Rightarrow>
          [(''database_type'', JStr (database_type meta)), (''build_epoch'', JNum (word_text (build_epoch meta))),
           (''build_date'', JStr (build_time meta)), (''age_days'', JNum (format_fixed 1 (age_days meta))),
           (''age_ms'', JNum (word_text (age_ms meta))), (''age_ns'', JNum (word_text (age_ns meta)))]))"

definition health_value :: "MetricsDbInfo list \<Rightarrow> string \<Rightarrow> string \<Rightarrow> double \<Rightarrow> json" where
  "health_value dbs version lib_version uptime = JObj
     [(''status'', JStr ''ok''), (''version'', JStr version), (''libmaxminddb_version'', JStr lib_version),
      (''uptime_seconds'', JNum (format_fixed 0 uptime)),
      (''databases'', JObj (map (\<lambda>db. (info_name db, health_db_value db)) dbs))]"

definition finite_info :: "MetricsDbInfo \<Rightarrow> bool" where
  "finite_info db \<longleftrightarrow> (case info_metadata db of None \<Rightarrow> True | Some meta \<Rightarrow> is_finite (age_days meta))"

lemma health_db_print: "health_db db = quoted (info_name db) @ '':'' @ json_print (health_db_value db)"
  by (simp add: health_db_def health_db_value_def json_member json_keys_def split: option.split)

lemma health_print:
  "render_health_json dbs version lib_version uptime = json_print (health_value dbs version lib_version uptime)"
proof -
  have "json_escape ''ok'' = ''ok''" by code_simp
  then have "quoted ''ok'' = [DQ] @ ''ok'' @ [DQ]" by (simp add: quoted_def)
  moreover have "health_db = (\<lambda>db. quoted (info_name db) @ '':'' @ json_print (health_db_value db))"
    by (rule ext) (rule health_db_print)
  ultimately show ?thesis
    by (simp add: render_health_json_def health_value_def json_member json_keys_def comp_def)
qed

lemma health_value_wf:
  "is_finite uptime \<Longrightarrow> list_all finite_info dbs \<Longrightarrow> json_wf (health_value dbs version lib_version uptime)"
  by (auto simp: health_value_def health_db_value_def finite_info_def list_all_iff fixed_number
      word_is_json_number split: option.splits)

text \<open>C33: the JSON body of \<^verbatim>\<open>/health\<close> is one JSON object with the status, both versions, the uptime and, per
  database, whether it is open and its type, build time and ages; every string in it reads back byte for byte.\<close>

theorem health_json_exact:
  assumes "is_finite uptime" "list_all finite_info dbs"
  shows "json_read (render_health_json dbs version lib_version uptime) =
    Some (health_value dbs version lib_version uptime)"
  using json_read_print [OF health_value_wf [OF assms]] by (simp add: health_print)

theorem health_json_exact_witness:
  "json_read (render_health_json [\<lparr>info_name = ''city'', info_open = True,
       info_metadata = Some (make_metadata (\<lambda>_. 0) 1700000100 sample_metadata)\<rparr>] ''1'' ''2'' (double_of_int 7)) =
     Some (health_value [\<lparr>info_name = ''city'', info_open = True,
       info_metadata = Some (make_metadata (\<lambda>_. 0) 1700000100 sample_metadata)\<rparr>] ''1'' ''2'' (double_of_int 7))"
  by (rule health_json_exact) (simp_all add: finite_info_def make_metadata_finite)

end
