(* ===== verification/Thread_Pool.thy ===== *)
theory Thread_Pool
  imports Nsh_Prelude "HOL-Library.Multiset"
begin

text \<open>
  The worker pool: \<^verbatim>\<open>src/src/thread_pool.cpp\<close> and \<^verbatim>\<open>src/src/thread_pool.h\<close>, as a transition system.

  Each critical section under \<^verbatim>\<open>mutex_\<close> is one step, and so is each action outside it: a notification
  is delivered after the lock has been released, the handler runs without the lock, and a waiting worker may
  also wake up spuriously.  The state is the object's members plus the phase of every thread and
  a history of file descriptors: accepted into the queue, taken out of it, handled, and closed by
  \<^verbatim>\<open>submit\<close> because the pool had stopped.
\<close>

section \<open>Model\<close>

datatype worker = Ready | Waiting | Running int | Exited

record ThreadPool =
  workers :: "worker list"
  queue :: "int list"
  stop :: bool
  notify_pending :: nat
  notify_all_pending :: bool
  submitted :: "int list"
  taken :: "int list"
  handled :: "int list"
  closed :: "int list"

definition new_pool :: "nat \<Rightarrow> ThreadPool" where
  "new_pool num_threads = \<lparr>workers = replicate num_threads Ready, queue = [], stop = False,
     notify_pending = 0, notify_all_pending = False, submitted = [], taken = [], handled = [], closed = []\<rparr>"

text \<open>\<^verbatim>\<open>submit(fd)\<close> up to the end of its critical section; the notification follows as a step of its own.\<close>

definition submit :: "int \<Rightarrow> ThreadPool \<Rightarrow> ThreadPool" where
  "submit fd p =
     (if stop p then p\<lparr>closed := closed p @ [fd]\<rparr>
      else p\<lparr>queue := queue p @ [fd], submitted := submitted p @ [fd], notify_pending := notify_pending p + 1\<rparr>)"

text \<open>The critical section of \<^verbatim>\<open>shutdown\<close>.\<close>

definition shutdown :: "ThreadPool \<Rightarrow> ThreadPool" where
  "shutdown p = (if stop p then p else p\<lparr>stop := True, notify_all_pending := True\<rparr>)"

definition wake :: "worker \<Rightarrow> worker" where
  "wake w = (if w = Waiting then Ready else w)"

text \<open>
  What a worker that holds the lock does next in \<^verbatim>\<open>worker_loop\<close>: the predicate of \<^verbatim>\<open>wait\<close> is tested first, so the
  branch \<^verbatim>\<open>if (queue_.empty()) continue;\<close> behind it is never taken (\<open>worker_check_continue\<close>).
\<close>

definition worker_check :: "ThreadPool \<Rightarrow> worker \<times> ThreadPool" where
  "worker_check p =
     (if \<not> (stop p \<or> queue p \<noteq> []) then (Waiting, p)
      else if stop p \<and> queue p = [] then (Exited, p)
      else if queue p = [] then (Ready, p)
      else (Running (hd (queue p)), p\<lparr>queue := tl (queue p), taken := taken p @ [hd (queue p)]\<rparr>))"

inductive worker_step :: "ThreadPool \<Rightarrow> ThreadPool \<Rightarrow> bool" where
  w_check: "workers p = us @ Ready # vs \<Longrightarrow> worker_check p = (w, p') \<Longrightarrow>
    worker_step p (p'\<lparr>workers := us @ w # vs\<rparr>)"
| w_done: "workers p = us @ Running fd # vs \<Longrightarrow>
    worker_step p (p\<lparr>workers := us @ Ready # vs, handled := handled p @ [fd]\<rparr>)"
| w_notify: "0 < notify_pending p \<Longrightarrow> workers p = us @ Waiting # vs \<Longrightarrow>
    worker_step p (p\<lparr>workers := us @ Ready # vs, notify_pending := notify_pending p - 1\<rparr>)"
| w_notify_none: "0 < notify_pending p \<Longrightarrow> Waiting \<notin> set (workers p) \<Longrightarrow>
    worker_step p (p\<lparr>notify_pending := notify_pending p - 1\<rparr>)"
| w_notify_all: "notify_all_pending p \<Longrightarrow>
    worker_step p (p\<lparr>workers := map wake (workers p), notify_all_pending := False\<rparr>)"

inductive pool_step :: "ThreadPool \<Rightarrow> ThreadPool \<Rightarrow> bool" where
  p_worker: "worker_step p q \<Longrightarrow> pool_step p q"
| p_spurious: "workers p = us @ Waiting # vs \<Longrightarrow> pool_step p (p\<lparr>workers := us @ Ready # vs\<rparr>)"
| p_submit: "pool_step p (submit fd p)"
| p_shutdown: "pool_step p (shutdown p)"

section \<open>Invariant\<close>

fun running_fd :: "worker \<Rightarrow> int list" where
  "running_fd (Running fd) = [fd]"
| "running_fd _ = []"

definition in_flight :: "ThreadPool \<Rightarrow> int list" where
  "in_flight p = concat (map running_fd (workers p))"

definition ready_count :: "ThreadPool \<Rightarrow> nat" where
  "ready_count p = length (filter (\<lambda>w. w = Ready) (workers p))"

text \<open>
  Nothing is lost or duplicated and the order is kept; a queued connection always has a worker on its way to it
  (no lost wakeup); workers leave only when the pool has stopped and the queue is empty.
\<close>

definition pool_inv :: "nat \<Rightarrow> ThreadPool \<Rightarrow> bool" where
  "pool_inv n p \<longleftrightarrow> length (workers p) = n
     \<and> submitted p = taken p @ queue p
     \<and> mset (taken p) = mset (handled p) + mset (in_flight p)
     \<and> (Waiting \<in> set (workers p) \<longrightarrow> length (queue p) \<le> notify_pending p + ready_count p)
     \<and> (stop p \<longrightarrow> Waiting \<in> set (workers p) \<longrightarrow> notify_all_pending p)
     \<and> (Exited \<in> set (workers p) \<longrightarrow> stop p \<and> queue p = [])
     \<and> (closed p \<noteq> [] \<longrightarrow> stop p) \<and> (notify_all_pending p \<longrightarrow> stop p)"

lemma worker_check_continue: "fst (worker_check p) \<noteq> Ready"
  by (simp add: worker_check_def)

text \<open>The invariant seen from one worker: what the others contribute is kept opaque.\<close>

definition others_ready :: "worker list \<Rightarrow> worker list \<Rightarrow> nat" where
  "others_ready us vs = length (filter (\<lambda>w. w = Ready) (us @ vs))"

definition others_flight :: "worker list \<Rightarrow> worker list \<Rightarrow> int multiset" where
  "others_flight us vs = mset (concat (map running_fd (us @ vs)))"

definition others :: "worker list \<Rightarrow> worker list \<Rightarrow> worker set" where
  "others us vs = set us \<union> set vs"

lemma pool_inv_at:
  assumes "workers p = us @ w # vs"
  shows "pool_inv n p \<longleftrightarrow> Suc (length us + length vs) = n
     \<and> submitted p = taken p @ queue p
     \<and> mset (taken p) = mset (handled p) + (others_flight us vs + mset (running_fd w))
     \<and> (w = Waiting \<or> Waiting \<in> others us vs \<longrightarrow>
          length (queue p) \<le> notify_pending p + (others_ready us vs + (if w = Ready then 1 else 0)))
     \<and> (stop p \<longrightarrow> w = Waiting \<or> Waiting \<in> others us vs \<longrightarrow> notify_all_pending p)
     \<and> (w = Exited \<or> Exited \<in> others us vs \<longrightarrow> stop p \<and> queue p = [])
     \<and> (closed p \<noteq> [] \<longrightarrow> stop p) \<and> (notify_all_pending p \<longrightarrow> stop p)"
proof -
  have "mset (in_flight p) = others_flight us vs + mset (running_fd w)"
    using assms by (simp add: in_flight_def others_flight_def)
  moreover have "ready_count p = others_ready us vs + (if w = Ready then 1 else 0)"
    using assms by (simp add: ready_count_def others_ready_def)
  moreover have "x \<in> set (workers p) \<longleftrightarrow> w = x \<or> x \<in> others us vs" for x
    using assms by (auto simp: others_def)
  ultimately show ?thesis using assms by (simp add: pool_inv_def)
qed

lemma running_fd_wake [simp]: "running_fd (wake w) = running_fd w"
  by (cases w) (simp_all add: wake_def)

lemma wake_not_waiting: "Waiting \<notin> wake ` A"
  by (auto simp: wake_def)

lemma wake_Exited: "Exited \<in> wake ` A \<longleftrightarrow> Exited \<in> A"
  by (auto simp: wake_def split: if_splits)

lemma pool_inv_check:
  assumes inv: "pool_inv n p" and w: "workers p = us @ Ready # vs" and c: "worker_check p = (w, p')"
  shows "pool_inv n (p'\<lparr>workers := us @ w # vs\<rparr>)"
proof -
  have new: "workers (r\<lparr>workers := us @ w # vs\<rparr>) = us @ w # vs" for r :: ThreadPool by simp
  consider "queue p = []" "\<not> stop p" "w = Waiting" "p' = p" | "queue p = []" "stop p" "w = Exited" "p' = p"
    | fd q where "queue p = fd # q" "w = Running fd" "p' = p\<lparr>queue := q, taken := taken p @ [fd]\<rparr>"
    using c by (cases "queue p") (auto simp: worker_check_def split: if_splits)
  then show ?thesis
  proof cases
    case 1
    with inv show ?thesis unfolding pool_inv_at [OF w] pool_inv_at [OF new] by simp
  next
    case 2
    with inv show ?thesis unfolding pool_inv_at [OF w] pool_inv_at [OF new] by simp
  next
    case 3
    with inv show ?thesis unfolding pool_inv_at [OF w] pool_inv_at [OF new] by simp
  qed
qed

lemma pool_inv_worker:
  assumes inv: "pool_inv n p" and "worker_step p q"
  shows "pool_inv n q"
  using assms(2)
proof cases
  case (w_check us vs w p')
  with inv pool_inv_check show ?thesis by simp
next
  case (w_done us fd vs)
  have q: "workers q = us @ Ready # vs" using w_done by simp
  show ?thesis using inv w_done unfolding pool_inv_at [OF w_done(2)] pool_inv_at [OF q] by auto
next
  case (w_notify us vs)
  have q: "workers q = us @ Ready # vs" using w_notify by simp
  show ?thesis using inv w_notify unfolding pool_inv_at [OF w_notify(3)] pool_inv_at [OF q] by auto
next
  case w_notify_none
  with inv show ?thesis by (simp add: pool_inv_def in_flight_def ready_count_def)
next
  case w_notify_all
  with inv show ?thesis
    by (auto simp: pool_inv_def in_flight_def comp_def wake_not_waiting wake_Exited)
qed

lemma pool_inv_step:
  assumes inv: "pool_inv n p" and "pool_step p q"
  shows "pool_inv n q"
  using assms(2)
proof cases
  case p_worker
  with inv show ?thesis by (rule pool_inv_worker)
next
  case (p_spurious us vs)
  have q: "workers q = us @ Ready # vs" using p_spurious by simp
  show ?thesis using inv p_spurious unfolding pool_inv_at [OF p_spurious(2)] pool_inv_at [OF q] by auto
next
  case (p_submit fd)
  with inv show ?thesis by (auto simp: pool_inv_def submit_def in_flight_def ready_count_def)
next
  case p_shutdown
  with inv show ?thesis by (auto simp: pool_inv_def shutdown_def in_flight_def ready_count_def)
qed

lemma pool_inv_new: "pool_inv n (new_pool n)"
  by (auto simp: pool_inv_def new_pool_def in_flight_def)

interpretation pool: invariant_system "\<lambda>p. p = new_pool n" pool_step "pool_inv n" for n
  by unfold_locales (auto intro: pool_inv_new pool_inv_step)

section \<open>Draining after shutdown\<close>

fun worker_work :: "worker \<Rightarrow> nat" where
  "worker_work Ready = 1"
| "worker_work Waiting = 2"
| "worker_work (Running fd) = 2"
| "worker_work Exited = 0"

definition pool_work :: "ThreadPool \<Rightarrow> nat" where
  "pool_work p = 2 * length (queue p) + notify_pending p + (if notify_all_pending p then 1 else 0)
     + sum_list (map worker_work (workers p))"

lemma worker_work_wake: "worker_work (wake w) \<le> worker_work w"
  by (cases w) (simp_all add: wake_def)

lemma worker_step_stop: "worker_step p q \<Longrightarrow> stop p \<Longrightarrow> stop q"
  by (induction rule: worker_step.induct) (auto simp: worker_check_def split: if_splits)

lemma worker_step_work:
  assumes "worker_step p q" "stop p"
  shows "pool_work q < pool_work p"
  using assms(1)
proof cases
  case (w_check us vs w p')
  with assms(2) show ?thesis
    by (cases "queue p") (auto simp: pool_work_def worker_check_def)
next
  case w_notify_all
  have "sum_list (map (\<lambda>w. worker_work (wake w)) ws) \<le> sum_list (map worker_work ws)" for ws
    by (rule sum_list_mono) (rule worker_work_wake)
  with w_notify_all show ?thesis by (simp add: pool_work_def comp_def le_imp_less_Suc)
qed (auto simp: pool_work_def)

interpretation drain: terminating_system "\<lambda>p. pool_inv n p \<and> stop p" worker_step "\<lambda>p. pool_inv n p \<and> stop p" pool_work for n
  by unfold_locales (auto intro: pool_inv_worker worker_step_stop worker_step_work)

lemma stuck_all_exited:
  assumes inv: "pool_inv n p" "stop p" and stuck: "\<nexists>q. worker_step p q"
  shows "\<forall>w \<in> set (workers p). w = Exited"
proof
  fix w assume "w \<in> set (workers p)"
  then obtain us vs where w: "workers p = us @ w # vs" by (meson split_list)
  show "w = Exited"
  proof (cases w)
    case Ready
    obtain w' p' where "worker_check p = (w', p')" by force
    with Ready w stuck show ?thesis using w_check [of p us vs w' p'] by blast
  next
    case Waiting
    with inv w have "notify_all_pending p" by (simp add: pool_inv_def)
    with stuck show ?thesis using w_notify_all by blast
  next
    case (Running fd)
    with w stuck show ?thesis using w_done by blast
  qed simp
qed

lemma all_exited_drained:
  assumes "pool_inv n p" "0 < n" "\<forall>w \<in> set (workers p). w = Exited"
  shows "queue p = [] \<and> mset (handled p) = mset (submitted p)"
proof -
  have "workers p \<noteq> []" using assms(1,2) by (auto simp: pool_inv_def)
  then have "Exited \<in> set (workers p)" using assms(3) by (cases "workers p") auto
  moreover have "map running_fd (workers p) = map (\<lambda>_. []) (workers p)" using assms(3) by auto
  then have "in_flight p = []" unfolding in_flight_def by simp
  ultimately show ?thesis using assms(1) by (simp add: pool_inv_def)
qed

lemma drained:
  assumes "pool_inv n p" "stop p" "0 < n" "worker_step\<^sup>*\<^sup>* p q" "\<nexists>r. worker_step q r"
  shows "(\<forall>w \<in> set (workers q). w = Exited) \<and> queue q = [] \<and> mset (handled q) = mset (submitted q)"
proof -
  have q: "pool_inv n q \<and> stop q" using drain.steps_inv [OF assms(4)] assms(1,2) by blast
  with stuck_all_exited [of n q] assms(5) have "\<forall>w \<in> set (workers q). w = Exited" by blast
  with all_exited_drained [of n q] q assms(3) show ?thesis by blast
qed

lemma worker_steps_submitted: "worker_step\<^sup>*\<^sup>* p q \<Longrightarrow> submitted q = submitted p"
proof (induction rule: rtranclp_induct)
  case (step q r)
  from step(2) have "submitted r = submitted q" by cases (auto simp: worker_check_def split: if_splits)
  with step(3) show ?case by simp
qed simp

section \<open>Properties\<close>

text \<open>C5: under every interleaving of submissions, workers, notifications and shutdown, each accepted
  connection is taken out of the queue in the order of submission, is in exactly one place (queued, in a handler or handled)
  and is handled at most once; when all workers have left, every accepted connection has been handled.\<close>

theorem pool_exactly_once:
  assumes "ts_reach (\<lambda>p. p = new_pool n) pool_step p" "0 < n"
  shows "submitted p = taken p @ queue p \<and> mset (taken p) = mset (handled p) + mset (in_flight p)
    \<and> ((\<forall>w \<in> set (workers p). w = Exited) \<longrightarrow> queue p = [] \<and> mset (handled p) = mset (submitted p))"
proof -
  have inv: "pool_inv n p" using assms(1) by (rule pool.reach_inv)
  with all_exited_drained [OF inv assms(2)] show ?thesis by (simp add: pool_inv_def)
qed

lemma reach_new: "ts_reach (\<lambda>p. p = new_pool n) pool_step (new_pool n)"
  by (rule ts_init) simp

definition one_worker_run :: ThreadPool where
  "one_worker_run = \<lparr>workers = [Running 5], queue = [], stop = False, notify_pending = 1,
     notify_all_pending = False, submitted = [5], taken = [5], handled = [], closed = []\<rparr>"

lemma one_worker_reach: "ts_reach (\<lambda>p. p = new_pool 1) pool_step one_worker_run"
proof -
  have "worker_step (submit 5 (new_pool 1)) one_worker_run"
    using w_check [of "submit 5 (new_pool 1)" "[]" "[]" "Running 5"
        "(submit 5 (new_pool 1))\<lparr>queue := [], taken := [5]\<rparr>"]
    by (simp add: submit_def new_pool_def worker_check_def one_worker_run_def)
  from ts_step [OF ts_step [OF reach_new p_submit] p_worker [OF this]] show ?thesis .
qed

theorem pool_exactly_once_witness:
  "submitted one_worker_run = [5] \<and> mset (taken one_worker_run) = mset (handled one_worker_run) + mset (in_flight one_worker_run)"
  using pool_exactly_once [OF one_worker_reach] by (simp add: one_worker_run_def)

text \<open>C18: no wakeup is lost: whenever a connection is queued and a worker is asleep, a notification is still on its way
  or another worker is awake and about to look at the queue; and after shutdown no worker sleeps unless the broadcast is
  still on its way.\<close>

theorem pool_no_lost_wakeup:
  assumes "ts_reach (\<lambda>p. p = new_pool n) pool_step p" "Waiting \<in> set (workers p)"
  shows "(queue p \<noteq> [] \<longrightarrow> 0 < notify_pending p \<or> Ready \<in> set (workers p))
    \<and> length (queue p) \<le> notify_pending p + ready_count p \<and> (stop p \<longrightarrow> notify_all_pending p)"
proof -
  have inv: "pool_inv n p" using assms(1) by (rule pool.reach_inv)
  have "ready_count p = 0" if "Ready \<notin> set (workers p)"
    using that by (auto simp: ready_count_def filter_empty_conv)
  with inv assms(2) show ?thesis by (cases "queue p") (auto simp: pool_inv_def)
qed

theorem pool_no_lost_wakeup_witness:
  "\<exists>p. ts_reach (\<lambda>p. p = new_pool 1) pool_step p \<and> queue p = [5] \<and> workers p = [Waiting] \<and> 0 < notify_pending p"
proof -
  let ?w = "(new_pool 1)\<lparr>workers := [Waiting]\<rparr>"
  have "worker_step (new_pool 1) ?w"
    using w_check [of "new_pool 1" "[]" "[]" Waiting "new_pool 1"] by (simp add: new_pool_def worker_check_def)
  from ts_step [OF ts_step [OF reach_new p_worker [OF this]] p_submit]
  have r: "ts_reach (\<lambda>p. p = new_pool 1) pool_step (submit 5 ?w)" .
  from pool_no_lost_wakeup [OF r] r show ?thesis
    by (intro exI [of _ "submit 5 ?w"]) (simp add: submit_def new_pool_def)
qed

text \<open>C6: shutdown completes: once the pool has stopped, the workers can take only finitely many further
  steps, bounded by the work left, and they can stop taking steps only when every worker has left its
  loop and every connection that was accepted has been handled.\<close>

theorem pool_shutdown_drains:
  assumes "ts_reach (\<lambda>p. p = new_pool n) pool_step p" "stop p" "0 < n"
  shows "(\<forall>k q. (worker_step ^^ k) p q \<longrightarrow> k \<le> pool_work p)
    \<and> (\<forall>q. worker_step\<^sup>*\<^sup>* p q \<longrightarrow> (\<nexists>r. worker_step q r) \<longrightarrow>
         (\<forall>w \<in> set (workers q). w = Exited) \<and> queue q = [] \<and> mset (handled q) = mset (submitted q))
    \<and> (\<exists>q. worker_step\<^sup>*\<^sup>* p q \<and> (\<nexists>r. worker_step q r))"
proof -
  have inv: "pool_inv n p" using assms(1) by (rule pool.reach_inv)
  then have "\<forall>k q. (worker_step ^^ k) p q \<longrightarrow> k \<le> pool_work p"
    using drain.steps_bounded assms(2) by fastforce
  with drained [OF inv assms(2,3)] drain.reaches_final inv assms(2) show ?thesis by blast
qed

theorem pool_shutdown_drains_witness:
  "\<exists>q. worker_step\<^sup>*\<^sup>* (shutdown one_worker_run) q \<and> (\<nexists>r. worker_step q r) \<and> mset (handled q) = mset (submitted q)"
proof -
  have "ts_reach (\<lambda>p. p = new_pool 1) pool_step (shutdown one_worker_run)"
    using one_worker_reach by (meson p_shutdown ts_step)
  from pool_shutdown_drains [OF this] show ?thesis by (auto simp: shutdown_def one_worker_run_def)
qed

end
