(* ===== verification/Log.thy ===== *)
theory Log
  imports Db_Metadata
begin

text \<open>
  Logging: \<^verbatim>\<open>src/src/log.h\<close>.  The logger's state is its debug switch and the two streams it appends to; the
  other components record the calls they make (\<open>log_call\<close>) and \<open>log_all\<close> plays them into the logger.
\<close>

section \<open>Model\<close>

datatype LogLevel = Debug | Info | Warn | Error | Fatal

record Logger =
  debug_enabled :: bool
  out_stream :: string
  err_stream :: string

definition set_debug_enabled :: "bool \<Rightarrow> Logger \<Rightarrow> Logger" where
  "set_debug_enabled enabled l = l\<lparr>debug_enabled := enabled\<rparr>"

fun level_name :: "LogLevel \<Rightarrow> string" where
  "level_name Debug = ''DEBUG''"
| "level_name Info = ''INFO''"
| "level_name Warn = ''WARN''"
| "level_name Error = ''ERROR''"
| "level_name Fatal = ''FATAL''"

definition log_line :: "int \<Rightarrow> LogLevel \<Rightarrow> string \<Rightarrow> string" where
  "log_line now level msg =
     c_str (utc_timestamp now) @ '' ['' @ level_name level @ ''] '' @ c_str msg @ [LF]"

definition log_message :: "int \<Rightarrow> LogLevel \<Rightarrow> string \<Rightarrow> Logger \<Rightarrow> Logger" where
  "log_message now level msg l =
     (if level = Debug \<and> \<not> debug_enabled l then l
      else if level = Info then l\<lparr>out_stream := out_stream l @ log_line now level msg\<rparr>
      else l\<lparr>err_stream := err_stream l @ log_line now level msg\<rparr>)"

type_synonym log_call = "LogLevel \<times> string"

definition log_debug :: "string \<Rightarrow> log_call" where "log_debug msg = (Debug, msg)"
definition log_info :: "string \<Rightarrow> log_call" where "log_info msg = (Info, msg)"
definition log_warn :: "string \<Rightarrow> log_call" where "log_warn msg = (Warn, msg)"
definition log_error :: "string \<Rightarrow> log_call" where "log_error msg = (Error, msg)"
definition log_fatal :: "string \<Rightarrow> log_call" where "log_fatal msg = (Fatal, msg)"

fun log_all :: "int \<Rightarrow> log_call list \<Rightarrow> Logger \<Rightarrow> Logger" where
  "log_all now [] l = l"
| "log_all now ((level, msg) # cs) l = log_all now cs (log_message now level msg l)"

section \<open>Lines\<close>

definition logged_to_out :: "log_call \<Rightarrow> bool" where
  "logged_to_out c \<longleftrightarrow> fst c = Info"

definition logged_to_err :: "bool \<Rightarrow> log_call \<Rightarrow> bool" where
  "logged_to_err debug c \<longleftrightarrow> fst c \<noteq> Info \<and> (fst c = Debug \<longrightarrow> debug)"

lemma log_message_debug [simp]: "debug_enabled (log_message now level msg l) = debug_enabled l"
  by (simp add: log_message_def)

lemma log_all_streams:
  "out_stream (log_all now cs l) =
     out_stream l @ concat (map (\<lambda>(level, msg). log_line now level msg) (filter logged_to_out cs))"
  "err_stream (log_all now cs l) =
     err_stream l @ concat (map (\<lambda>(level, msg). log_line now level msg) (filter (logged_to_err (debug_enabled l)) cs))"
  by (induction now cs l rule: log_all.induct)
    (auto simp: log_message_def logged_to_out_def logged_to_err_def)

section \<open>Properties\<close>

text \<open>Log calls keep their order, exactly the Info messages go to standard output and all others to
  standard error, Debug messages only while debugging is enabled, and nothing written before is changed.\<close>

theorem log_streams_exact:
  "out_stream (log_all now cs l) =
     out_stream l @ concat (map (\<lambda>(level, msg). log_line now level msg) (filter (\<lambda>c. fst c = Info) cs))
   \<and> err_stream (log_all now cs l) =
     err_stream l @ concat (map (\<lambda>(level, msg). log_line now level msg)
       (filter (\<lambda>c. fst c \<notin> (if debug_enabled l then {Info} else {Info, Debug})) cs))"
proof -
  have "logged_to_out = (\<lambda>c. fst c = Info)" by (rule ext) (simp add: logged_to_out_def)
  moreover have "logged_to_err d = (\<lambda>c. fst c \<notin> (if d then {Info} else {Info, Debug}))" for d
    by (rule ext) (auto simp: logged_to_err_def)
  ultimately show ?thesis by (simp only: log_all_streams)
qed

end
