(* ===== verification/Server_Response.thy ===== *)
theory Server_Response
  imports Http_Response Metrics Config Decimal_Spec
begin

text \<open>
  The helper functions of \<^verbatim>\<open>src/src/server.cpp\<close> that produce output: the two bodies of \<^verbatim>\<open>/lookup\<close>, its
  headers, the description of a database for the log, and the loop that sends a response.

  The bodies are specified by what a client reads from them: the members of the JSON object or the lines of the text, with numbers read
  as numbers (\<open>json_answer\<close>, \<open>text_answer\<close>); the sending loop by the bytes that reach the peer.  \<^verbatim>\<open>send\<close> is a list of answers, one per call.
\<close>

section \<open>Model\<close>

definition mode_octal :: "nat \<Rightarrow> string" where
  "mode_octal mode = pad_zero 4 (nat_base 8 (mode mod 4096))"

definition describe_db :: "string \<Rightarrow> GeoIpDbMetadata option \<Rightarrow> string" where
  "describe_db path meta =
     (case meta of
        None \<Rightarrow> path
      | Some m \<Rightarrow> path @ '' ('' @ database_type m @ '', built '' @ build_time m @ '', ''
          @ format_fixed 1 (age_days m) @ '' days old)'')"

datatype send_result = Sent nat | SendEINTR | SendFailed

text \<open>
  The result of \<^verbatim>\<open>write_all\<close> and the number of bytes sent; \<^const>\<open>None\<close> if the answers run out before it returns.
\<close>

fun write_all :: "string \<Rightarrow> nat \<Rightarrow> send_result list \<Rightarrow> (bool \<times> nat) option" where
  "write_all data sent answers =
     (if sent < length data then
        (case answers of
           [] \<Rightarrow> None
         | a # as \<Rightarrow>
             (case a of
                Sent n \<Rightarrow> write_all data (sent + n) as
              | SendEINTR \<Rightarrow> write_all data sent as
              | SendFailed \<Rightarrow> Some (False, sent)))
      else Some (True, sent))"

declare write_all.simps [simp del]

definition format_double :: "double \<Rightarrow> string" where
  "format_double v = format_general 9 v"

definition json_opt :: "('a \<Rightarrow> string) \<Rightarrow> 'a option \<Rightarrow> string" where
  "json_opt f x = (case x of Some v \<Rightarrow> f v | None \<Rightarrow> ''null'')"

definition build_json_body :: "string \<Rightarrow> GeoIpResult \<Rightarrow> string" where
  "build_json_body ip_text r =
     ''{'' @ json_field ''ip'' @ quoted ip_text
     @ '','' @ json_field ''country_code'' @ json_opt quoted (country_code r)
     @ '','' @ json_field ''country_name'' @ json_opt quoted (country_name r)
     @ '','' @ json_field ''continent_code'' @ json_opt quoted (continent_code r)
     @ '','' @ json_field ''asn'' @ json_opt word_text (asn r)
     @ '','' @ json_field ''as_org'' @ json_opt quoted (as_org r)
     @ '','' @ json_field ''city_name'' @ json_opt quoted (city_name r)
     @ '','' @ json_field ''postal_code'' @ json_opt quoted (postal_code r)
     @ '','' @ json_field ''latitude'' @ json_opt format_double (latitude r)
     @ '','' @ json_field ''longitude'' @ json_opt format_double (longitude r)
     @ '','' @ json_field ''accuracy_radius'' @ json_opt word_text (accuracy_radius r)
     @ ''}''"

definition ini_opt :: "string \<Rightarrow> ('a \<Rightarrow> string) \<Rightarrow> 'a option \<Rightarrow> string" where
  "ini_opt key f x = (case x of Some v \<Rightarrow> ini_line key (f v) | None \<Rightarrow> [])"

definition build_ini_body :: "string \<Rightarrow> GeoIpResult \<Rightarrow> string" where
  "build_ini_body ip_text r =
     ini_line ''ip'' (sanitize_header_value ip_text)
     @ ini_opt ''country_code'' sanitize_header_value (country_code r)
     @ ini_opt ''country_name'' sanitize_header_value (country_name r)
     @ ini_opt ''continent_code'' sanitize_header_value (continent_code r)
     @ ini_opt ''asn'' word_text (asn r)
     @ ini_opt ''as_org'' sanitize_header_value (as_org r)
     @ ini_opt ''city_name'' sanitize_header_value (city_name r)
     @ ini_opt ''postal_code'' sanitize_header_value (postal_code r)
     @ ini_opt ''latitude'' format_double (latitude r)
     @ ini_opt ''longitude'' format_double (longitude r)
     @ ini_opt ''accuracy_radius'' word_text (accuracy_radius r)"

definition header_opt :: "string \<Rightarrow> ('a \<Rightarrow> string) \<Rightarrow> 'a option \<Rightarrow> (string \<times> string) list" where
  "header_opt name f x = (case x of Some v \<Rightarrow> [(name, f v)] | None \<Rightarrow> [])"

definition geoip_headers :: "GeoIpResult \<Rightarrow> (string \<times> string) list" where
  "geoip_headers r =
     header_opt ''X-GeoIP-Country'' sanitize_header_value (country_code r)
     @ header_opt ''X-GeoIP-Continent'' sanitize_header_value (continent_code r)
     @ header_opt ''X-GeoIP-ASN'' word_text (asn r)
     @ header_opt ''X-GeoIP-AS-Org'' sanitize_header_value (as_org r)
     @ header_opt ''X-GeoIP-City'' sanitize_header_value (city_name r)
     @ header_opt ''X-GeoIP-Postal-Code'' sanitize_header_value (postal_code r)
     @ header_opt ''X-GeoIP-Latitude'' format_double (latitude r)
     @ header_opt ''X-GeoIP-Longitude'' format_double (longitude r)
     @ header_opt ''X-GeoIP-Accuracy-Radius'' word_text (accuracy_radius r)"

definition build_success_response :: "string \<Rightarrow> GeoIpResult \<Rightarrow> ResponseFormat \<Rightarrow> HttpResponse" where
  "build_success_response ip_text r format = empty_response\<lparr>resp_status := 200, resp_format := format,
     resp_body := (if format = Json then build_json_body ip_text r else build_ini_body ip_text r),
     resp_headers := geoip_headers r\<rparr>"

section \<open>The JSON body\<close>

definition value_opt :: "('a \<Rightarrow> json) \<Rightarrow> 'a option \<Rightarrow> json" where
  "value_opt f x = (case x of Some v \<Rightarrow> f v | None \<Rightarrow> JNull)"

definition lookup_object :: "string \<Rightarrow> GeoIpResult \<Rightarrow> json" where
  "lookup_object ip_text r = JObj
     [(''ip'', JStr ip_text), (''country_code'', value_opt JStr (country_code r)),
      (''country_name'', value_opt JStr (country_name r)), (''continent_code'', value_opt JStr (continent_code r)),
      (''asn'', value_opt (\<lambda>w. JNum (word_text w)) (asn r)), (''as_org'', value_opt JStr (as_org r)),
      (''city_name'', value_opt JStr (city_name r)), (''postal_code'', value_opt JStr (postal_code r)),
      (''latitude'', value_opt (\<lambda>d. JNum (format_double d)) (latitude r)),
      (''longitude'', value_opt (\<lambda>d. JNum (format_double d)) (longitude r)),
      (''accuracy_radius'', value_opt (\<lambda>w. JNum (word_text w)) (accuracy_radius r))]"

definition finite_result :: "GeoIpResult \<Rightarrow> bool" where
  "finite_result r \<longleftrightarrow> (case latitude r of None \<Rightarrow> True | Some d \<Rightarrow> is_finite d)
     \<and> (case longitude r of None \<Rightarrow> True | Some d \<Rightarrow> is_finite d)"

lemma value_opt_print [simp]: "json_print (value_opt f x) = json_opt (json_print \<circ> f) x"
  by (simp add: value_opt_def json_opt_def split: option.split)

lemma json_print_JStr [simp]: "json_print \<circ> JStr = quoted"
  by (rule ext) simp

lemma json_body_print: "build_json_body ip_text r = json_print (lookup_object ip_text r)"
  by (simp add: build_json_body_def lookup_object_def json_member json_keys_def comp_def)

lemma lookup_object_wf: "finite_result r \<Longrightarrow> json_wf (lookup_object ip_text r)"
  by (auto simp: lookup_object_def value_opt_def finite_result_def format_double_def general_number
      word_is_json_number split: option.splits)

lemma json_body_read: "finite_result r \<Longrightarrow> json_read (build_json_body ip_text r) = Some (lookup_object ip_text r)"
  by (simp add: json_body_print json_read_print lookup_object_wf)

text \<open>What a JSON client makes of a member: nothing, a text, or a number; and of the whole body.\<close>

datatype client_value = CNull | CText string | CNumber rat | CUnreadable

fun member_value :: "json \<Rightarrow> client_value" where
  "member_value JNull = CNull"
| "member_value (JStr t) = CText t"
| "member_value (JNum t) = (case read_decimal t of None \<Rightarrow> CUnreadable | Some q \<Rightarrow> CNumber q)"
| "member_value _ = CUnreadable"

definition read_members :: "string \<Rightarrow> (string \<times> client_value) list option" where
  "read_members body =
     (case json_read body of Some (JObj kvs) \<Rightarrow> Some (map (\<lambda>(k, j). (k, member_value j)) kvs) | _ \<Rightarrow> None)"

definition text_or_null :: "string option \<Rightarrow> client_value" where
  "text_or_null x = (case x of None \<Rightarrow> CNull | Some t \<Rightarrow> CText t)"

definition number_or_null :: "'a::len word option \<Rightarrow> client_value" where
  "number_or_null x = (case x of None \<Rightarrow> CNull | Some w \<Rightarrow> CNumber (of_nat (unat w)))"

definition coordinate :: "double option \<Rightarrow> client_value \<Rightarrow> bool" where
  "coordinate x v \<longleftrightarrow> (case x of None \<Rightarrow> v = CNull | Some d \<Rightarrow> \<exists>q. v = CNumber q \<and> within_9_digits q d)"

text \<open>The specification of the JSON body: eleven members in this order, coordinates to nine significant digits.\<close>

definition json_answer :: "string \<Rightarrow> GeoIpResult \<Rightarrow> string \<Rightarrow> bool" where
  "json_answer ip_text r body \<longleftrightarrow> (\<exists>lat lon. coordinate (latitude r) lat \<and> coordinate (longitude r) lon
     \<and> read_members body = Some
       [(''ip'', CText ip_text), (''country_code'', text_or_null (country_code r)), (''country_name'', text_or_null (country_name r)),
        (''continent_code'', text_or_null (continent_code r)), (''asn'', number_or_null (asn r)), (''as_org'', text_or_null (as_org r)),
        (''city_name'', text_or_null (city_name r)), (''postal_code'', text_or_null (postal_code r)), (''latitude'', lat),
        (''longitude'', lon), (''accuracy_radius'', number_or_null (accuracy_radius r))])"

lemma client_text [simp]: "member_value (value_opt JStr x) = text_or_null x"
  by (simp add: value_opt_def text_or_null_def split: option.split)

lemma client_number [simp]: "member_value (value_opt (\<lambda>w. JNum (word_text w)) x) = number_or_null x"
  by (simp add: value_opt_def number_or_null_def word_text_def read_decimal_nat split: option.split)

lemma client_coordinate:
  assumes "case x of None \<Rightarrow> True | Some d \<Rightarrow> is_finite d"
  shows "coordinate x (member_value (value_opt (\<lambda>d. JNum (format_double d)) x))"
proof (cases x)
  case None
  then show ?thesis by (simp add: coordinate_def value_opt_def)
next
  case (Some d)
  with assms obtain q where "read_decimal (format_double d) = Some q \<and> within_9_digits q d"
    using read_format_general_9 [of d] by (auto simp: format_double_def)
  with Some show ?thesis by (simp add: coordinate_def value_opt_def)
qed

lemma json_body_answer:
  assumes "finite_result r"
  shows "json_answer ip_text r (build_json_body ip_text r)"
proof -
  have "coordinate (latitude r) (member_value (value_opt (\<lambda>d. JNum (format_double d)) (latitude r)))"
    "coordinate (longitude r) (member_value (value_opt (\<lambda>d. JNum (format_double d)) (longitude r)))"
    using assms by (auto simp: finite_result_def intro: client_coordinate)
  then show ?thesis
    unfolding json_answer_def by (intro exI conjI) (auto simp: read_members_def json_body_read [OF assms] lookup_object_def)
qed

section \<open>The INI body\<close>

text \<open>A client that reads the body line by line and splits each line at its first equals sign.\<close>

definition split_ini :: "string \<Rightarrow> (string \<times> string) option" where
  "split_ini l = (case find_char (CHR ''='') l of None \<Rightarrow> None | Some i \<Rightarrow> Some (take i l, drop (i + 1) l))"

definition read_ini :: "string \<Rightarrow> (string \<times> string) option list" where
  "read_ini text = map split_ini (getlines text)"

definition field_opt :: "string \<Rightarrow> ('a \<Rightarrow> string) \<Rightarrow> 'a option \<Rightarrow> (string \<times> string) list" where
  "field_opt key f x = (case x of Some v \<Rightarrow> [(key, f v)] | None \<Rightarrow> [])"

definition lookup_fields_text :: "string \<Rightarrow> GeoIpResult \<Rightarrow> (string \<times> string) list" where
  "lookup_fields_text ip_text r =
     [(''ip'', sanitize_header_value ip_text)]
     @ field_opt ''country_code'' sanitize_header_value (country_code r)
     @ field_opt ''country_name'' sanitize_header_value (country_name r)
     @ field_opt ''continent_code'' sanitize_header_value (continent_code r)
     @ field_opt ''asn'' word_text (asn r)
     @ field_opt ''as_org'' sanitize_header_value (as_org r)
     @ field_opt ''city_name'' sanitize_header_value (city_name r)
     @ field_opt ''postal_code'' sanitize_header_value (postal_code r)
     @ field_opt ''latitude'' format_double (latitude r)
     @ field_opt ''longitude'' format_double (longitude r)
     @ field_opt ''accuracy_radius'' word_text (accuracy_radius r)"

definition ini_pair :: "string \<times> string \<Rightarrow> bool" where
  "ini_pair kv \<longleftrightarrow> CHR ''='' \<notin> set (fst kv) \<and> LF \<notin> set (fst kv) \<and> LF \<notin> set (snd kv)"

definition pair_line :: "string \<times> string \<Rightarrow> string" where
  "pair_line kv = fst kv @ ''='' @ snd kv"

lemma split_pair_line: "ini_pair kv \<Longrightarrow> split_ini (pair_line kv) = Some kv"
proof -
  assume "ini_pair kv"
  then have "find_char (CHR ''='') (pair_line kv) = Some (length (fst kv))"
    by (auto simp: ini_pair_def pair_line_def find_char_split)
  then show ?thesis by (simp add: split_ini_def pair_line_def)
qed

lemma read_ini_pairs:
  assumes "list_all ini_pair kvs"
  shows "read_ini (concat (map (\<lambda>kv. pair_line kv @ [LF]) kvs)) = map Some kvs"
proof -
  have "\<forall>l \<in> set (map pair_line kvs). LF \<notin> set l"
    using assms by (auto simp: list_all_iff ini_pair_def pair_line_def)
  from getlines_terminated [OF this] have "getlines (concat (map (\<lambda>kv. pair_line kv @ [LF]) kvs)) = map pair_line kvs"
    by (simp add: comp_def)
  with assms show ?thesis by (simp add: read_ini_def list_all_iff split_pair_line)
qed

lemma ini_opt_pairs: "ini_opt key f x = concat (map (\<lambda>kv. pair_line kv @ [LF]) (field_opt key f x))"
  by (simp add: ini_opt_def field_opt_def ini_line_def pair_line_def split: option.split)

lemma ini_body_pairs:
  "build_ini_body ip_text r = concat (map (\<lambda>kv. pair_line kv @ [LF]) (lookup_fields_text ip_text r))"
  by (simp add: build_ini_body_def lookup_fields_text_def ini_opt_pairs ini_line_def pair_line_def)

lemma format_double_plain: "c \<in> set (format_double d) \<Longrightarrow> \<not> iscntrl c"
  unfolding format_double_def by (rule format_general_plain)

lemma format_double_line [simp]: "CR \<notin> set (format_double d)" "LF \<notin> set (format_double d)"
  using format_double_plain [of CR d] format_double_plain [of LF d] by (auto simp: byte_simps)

lemma word_text_line [simp]: "CR \<notin> set (word_text w)" "LF \<notin> set (word_text w)"
  using nat_to_string_no_cntrl [of CR] nat_to_string_no_cntrl [of LF] by (auto simp: word_text_def byte_simps)

lemma field_opt_ok:
  assumes "CHR ''='' \<notin> set key" "LF \<notin> set key" "\<And>v. LF \<notin> set (f v)"
  shows "list_all ini_pair (field_opt key f x)"
  using assms by (simp add: field_opt_def ini_pair_def split: option.split)

lemma lookup_fields_ok: "list_all ini_pair (lookup_fields_text ip_text r)"
proof -
  have "ini_pair (''ip'', sanitize_header_value ip_text)" by (simp add: ini_pair_def)
  then show ?thesis by (simp add: lookup_fields_text_def field_opt_ok)
qed

text \<open>
  The specification of the text body: the fields found, in order, texts without their control bytes, numbers in decimal, coordinates
  to nine significant digits when they are finite.
\<close>

definition printable :: "string \<Rightarrow> string" where
  "printable t = filter (\<lambda>c. 32 \<le> byte c \<and> byte c \<noteq> 127) t"

definition text_coordinate :: "string \<Rightarrow> double option \<Rightarrow> (string \<times> string) list \<Rightarrow> bool" where
  "text_coordinate key x kvs \<longleftrightarrow>
     (case x of
        None \<Rightarrow> kvs = []
      | Some d \<Rightarrow> \<exists>t. kvs = [(key, t)] \<and> (is_finite d \<longrightarrow> (\<exists>q. read_decimal t = Some q \<and> within_9_digits q d)))"

definition text_answer :: "string \<Rightarrow> GeoIpResult \<Rightarrow> string \<Rightarrow> bool" where
  "text_answer ip_text r body \<longleftrightarrow> (\<exists>lat lon. text_coordinate ''latitude'' (latitude r) lat \<and> text_coordinate ''longitude'' (longitude r) lon
     \<and> read_ini body = map Some
       ([(''ip'', printable ip_text)] @ field_opt ''country_code'' printable (country_code r)
        @ field_opt ''country_name'' printable (country_name r) @ field_opt ''continent_code'' printable (continent_code r)
        @ field_opt ''asn'' (\<lambda>w. nat_to_string (unat w)) (asn r) @ field_opt ''as_org'' printable (as_org r)
        @ field_opt ''city_name'' printable (city_name r) @ field_opt ''postal_code'' printable (postal_code r)
        @ lat @ lon @ field_opt ''accuracy_radius'' (\<lambda>w. nat_to_string (unat w)) (accuracy_radius r)))"

lemma sanitize_printable: "sanitize_header_value = printable"
proof
  fix t
  show "sanitize_header_value t = printable t"
    unfolding sanitize_filter printable_def by (rule filter_cong) (auto simp: iscntrl_def)
qed

lemma text_coordinate_printed: "text_coordinate key x (field_opt key format_double x)"
  using read_format_general_9 by (auto simp: text_coordinate_def field_opt_def format_double_def split: option.split)

lemma ini_body_answer: "text_answer ip_text r (build_ini_body ip_text r)"
proof -
  have "read_ini (build_ini_body ip_text r) = map Some (lookup_fields_text ip_text r)"
    using read_ini_pairs [OF lookup_fields_ok] by (simp add: ini_body_pairs)
  then show ?thesis
    unfolding text_answer_def
    by (intro exI [of _ "field_opt ''latitude'' format_double (latitude r)"] exI [of _ "field_opt ''longitude'' format_double (longitude r)"])
      (simp add: lookup_fields_text_def sanitize_printable word_text_def [abs_def] text_coordinate_printed)
qed

section \<open>Headers\<close>

lemma header_opt_ok:
  assumes "line_text name" "CHR '':'' \<notin> set name" "\<And>v. line_text (f v)"
  shows "list_all header_ok (header_opt name f x)"
  using assms by (simp add: header_opt_def header_ok_def split: option.split)

lemma geoip_headers_ok: "list_all header_ok (geoip_headers r)"
  by (simp add: geoip_headers_def header_opt_ok line_text_def)

lemma success_headers_ok: "list_all header_ok (resp_headers (build_success_response ip_text r format))"
  by (simp add: build_success_response_def geoip_headers_ok)

lemma error_headers_ok: "list_all header_ok (resp_headers (make_error_response status msg format))"
  by (simp add: make_error_response_def empty_response_def)

lemma error_body_read:
  "json_read (resp_body (make_error_response status msg Json)) = Some (JObj [(''error'', JStr msg)])"
proof -
  have "json_escape ''error'' = ''error''" by code_simp
  then have "resp_body (make_error_response status msg Json) = json_print (JObj [(''error'', JStr msg)])"
    by (simp add: make_error_response_def quoted_def del: json_escape.simps)
  moreover have "json_read (json_print (JObj [(''error'', JStr msg)])) = Some (JObj [(''error'', JStr msg)])"
    by (rule json_read_print) simp
  ultimately show ?thesis by (simp only:)
qed

text \<open>What a client reads from the body of an error.\<close>

definition error_answer :: "bool \<Rightarrow> string \<Rightarrow> string \<Rightarrow> bool" where
  "error_answer is_json msg body \<longleftrightarrow>
     (if is_json then read_members body = Some [(''error'', CText msg)] else read_ini body = [Some (''error'', msg)])"

lemma error_body_answer:
  assumes "LF \<notin> set msg"
  shows "error_answer (fmt = Json) msg (resp_body (make_error_response status msg fmt))"
proof (cases "fmt = Json")
  case True
  then show ?thesis by (simp add: error_answer_def read_members_def error_body_read)
next
  case False
  have "list_all ini_pair [(''error'', msg)]" using assms by (simp add: ini_pair_def)
  from read_ini_pairs [OF this] False show ?thesis
    by (simp add: error_answer_def make_error_response_def pair_line_def)
qed

section \<open>Sending\<close>

text \<open>\<^verbatim>\<open>send\<close> transmits at least one byte and at most what it is given, or fails.\<close>

fun send_fits :: "nat \<Rightarrow> send_result \<Rightarrow> bool" where
  "send_fits left (Sent n) = (1 \<le> n \<and> n \<le> left)"
| "send_fits left _ = True"

fun sends_fit :: "nat \<Rightarrow> send_result list \<Rightarrow> bool" where
  "sends_fit left [] = True"
| "sends_fit left (a # as) =
     (send_fits left a \<and> sends_fit (case a of Sent n \<Rightarrow> left - n | _ \<Rightarrow> left) as)"

lemma write_all_sound:
  "write_all data sent as = Some (ok, n) \<Longrightarrow> sent \<le> length data \<Longrightarrow> sends_fit (length data - sent) as \<Longrightarrow>
     n \<le> length data \<and> (ok \<longleftrightarrow> n = length data)"
proof (induction as arbitrary: sent)
  case Nil
  then show ?case by (auto simp: write_all.simps [of data sent] split: if_splits)
next
  case (Cons a as)
  show ?case
  proof (cases "sent < length data")
    case True
    show ?thesis
    proof (cases a)
      case (Sent k)
      with Cons.prems True have "write_all data (sent + k) as = Some (ok, n)" "sent + k \<le> length data"
        "sends_fit (length data - (sent + k)) as"
        by (auto simp: write_all.simps [of data sent])
      then show ?thesis by (rule Cons.IH)
    next
      case SendEINTR
      with Cons.prems True have "write_all data sent as = Some (ok, n)" "sends_fit (length data - sent) as"
        by (auto simp: write_all.simps [of data sent "SendEINTR # as"])
      with Cons.IH Cons.prems(2) show ?thesis by blast
    next
      case SendFailed
      with Cons.prems True show ?thesis by (auto simp: write_all.simps [of data sent])
    qed
  next
    case False
    with Cons.prems show ?thesis by (auto simp: write_all.simps [of data sent])
  qed
qed

definition useful_sends :: "send_result list \<Rightarrow> nat" where
  "useful_sends as = length (filter (\<lambda>a. a \<noteq> SendEINTR) as)"

lemma write_all_returns:
  "length data - sent \<le> useful_sends as \<Longrightarrow> sends_fit (length data - sent) as \<Longrightarrow>
     \<exists>r. write_all data sent as = Some r"
proof (induction as arbitrary: sent)
  case Nil
  then show ?case by (auto simp: write_all.simps [of data sent] useful_sends_def)
next
  case (Cons a as)
  show ?case
  proof (cases "sent < length data")
    case True
    show ?thesis
    proof (cases a)
      case (Sent k)
      with Cons.prems have "\<exists>r. write_all data (sent + k) as = Some r"
        by (intro Cons.IH) (auto simp: useful_sends_def)
      with Sent True show ?thesis by (simp add: write_all.simps [of data sent "Sent k # as"])
    next
      case SendEINTR
      with Cons.prems have "\<exists>r. write_all data sent as = Some r"
        by (intro Cons.IH) (auto simp: useful_sends_def)
      with SendEINTR True show ?thesis by (simp add: write_all.simps [of data sent "SendEINTR # as"])
    next
      case SendFailed
      with True show ?thesis by (auto simp: write_all.simps [of data sent])
    qed
  next
    case False
    then show ?thesis by (auto simp: write_all.simps [of data sent])
  qed
qed

section \<open>Properties\<close>

text \<open>C20: the JSON body of a lookup, for every content of the database strings and finite coordinates: a JSON reader sees one object with
  the address and the ten fields in order, each null or the value found -- texts byte for byte, the AS number and the radius exactly, a
  coordinate as a number within half a unit of its ninth significant digit.\<close>

theorem lookup_json_exact:
  assumes "finite_result r"
  shows "json_answer ip_text r (build_json_body ip_text r)"
  using json_body_answer [OF assms] .

theorem lookup_json_exact_witness:
  "json_answer ''::1'' (empty_result\<lparr>city_name := Some [DQ, LF], latitude := Some (Finite True 5 (-1))\<rparr>)
     (build_json_body ''::1'' (empty_result\<lparr>city_name := Some [DQ, LF], latitude := Some (Finite True 5 (-1))\<rparr>))"
  by (rule lookup_json_exact) (simp add: finite_result_def empty_result_def)

text \<open>A coordinate that is not a number in the database yields a body that is not JSON.\<close>

theorem nan_body_not_json:
  "json_read (build_json_body ''::1'' (empty_result\<lparr>found := True, latitude := Some (NotANumber False)\<rparr>)) = None"
  by code_simp

text \<open>C21: the text body of a lookup: a reader that goes line by line sees exactly the fields that were found, in order -- each text with its control bytes
  (below 32, and 127) removed and otherwise unchanged, so that no database value can add, end or forge a line; the AS number and the radius exactly; a
  finite coordinate within half a unit of its ninth significant digit.\<close>

theorem lookup_ini_exact: "text_answer ip_text r (build_ini_body ip_text r)"
  by (rule ini_body_answer)

text \<open>Sending a response returns once every byte is accepted or an error occurs, never sends a
  byte beyond the response, and reports success exactly if all of it was sent, however the kernel splits the writes
  and however often the calls are interrupted.\<close>

theorem write_all_exact:
  assumes "sends_fit (length data) as" "length data \<le> useful_sends as"
  shows "\<exists>ok n. write_all data 0 as = Some (ok, n) \<and> n \<le> length data \<and> (ok \<longleftrightarrow> n = length data)"
proof -
  obtain ok n where "write_all data 0 as = Some (ok, n)"
    using write_all_returns [of data 0 as] assms by auto
  with write_all_sound [OF this] assms(1) show ?thesis by auto
qed

theorem write_all_exact_witness:
  "\<exists>ok n. write_all ''abc'' 0 [Sent 2, SendEINTR, Sent 1, SendFailed] = Some (ok, n) \<and> n \<le> length ''abc'' \<and> (ok \<longleftrightarrow> n = length ''abc'')"
  by (rule write_all_exact) (simp_all add: useful_sends_def)

end
