(* ===== verification/Server_Core.thy ===== *)
theory Server_Core
  imports Server_Response Log Ip_Addr "HOL-Library.Multiset"
begin

text \<open>
  What a worker does with a connection, and the two maintenance tasks of the main thread:
  \<^verbatim>\<open>handle_connection\<close>, \<^verbatim>\<open>reload_databases\<close>, \<^verbatim>\<open>collect_db_infos\<close>, \<^verbatim>\<open>uptime_seconds\<close> and \<^verbatim>\<open>write_metrics_file\<close> of
  \<^verbatim>\<open>src/src/server.cpp\<close>.

  \<open>server_env\<close> collects what these functions ask outside the program: \<^verbatim>\<open>inet_pton\<close>, libmaxminddb, the
  wall clock at each metadata call and the steady clock.  A worker's effects are its
  counter updates, its log calls, the bytes that reach the peer and the descriptors it closes.
\<close>

section \<open>Model\<close>

definition NSHGEOIP_VERSION :: string where
  "NSHGEOIP_VERSION = ''0.9.2''"

record server_env =
  env_pton4 :: pton4_fun
  env_pton6 :: pton6_fun
  env_mmdb :: mmdb_lib
  env_lib_version :: string
  env_ub :: "double \<Rightarrow> 64 word"
  env_wall :: "db_slot \<Rightarrow> int"
  env_steady :: int

definition collect_db_infos :: "server_env \<Rightarrow> GeoIpDatabases \<Rightarrow> MetricsDbInfo list" where
  "collect_db_infos env dbs =
     [\<lparr>info_name = ''country'', info_open = country_open dbs,
       info_metadata = country_metadata (env_ub env) (env_wall env CountrySlot) dbs\<rparr>,
      \<lparr>info_name = ''asn'', info_open = asn_open dbs,
       info_metadata = asn_metadata (env_ub env) (env_wall env AsnSlot) dbs\<rparr>,
      \<lparr>info_name = ''city'', info_open = city_open dbs,
       info_metadata = city_metadata (env_ub env) (env_wall env CitySlot) dbs\<rparr>]"

text \<open>Nanoseconds of the steady clock, converted to seconds as \<^verbatim>\<open>double\<close>.\<close>

definition uptime_seconds :: "server_env \<Rightarrow> int \<Rightarrow> double" where
  "uptime_seconds env start_time = double_scale 1 1000000000 (double_of_int (env_steady env - start_time))"

text \<open>The branch of \<^verbatim>\<open>handle_connection\<close> for \<^verbatim>\<open>/lookup\<close>.\<close>

definition serve_lookup ::
  "server_env \<Rightarrow> GeoIpDatabases \<Rightarrow> HttpRequest \<Rightarrow> ResponseFormat \<Rightarrow> Metrics \<Rightarrow> HttpResponse \<times> Metrics \<times> log_call list" where
  "serve_lookup env dbs req fmt m =
     (case find_query_param req ''ip'' of
        None \<Rightarrow> (make_error_response 400 ''missing ip parameter'' fmt, m, [])
      | Some ip_text \<Rightarrow>
          if ip_text = [] then (make_error_response 400 ''missing ip parameter'' fmt, m, [])
          else
            (case parse_ip_address (env_pton4 env) (env_pton6 env) ip_text empty_addr of
               (False, _) \<Rightarrow> (make_error_response 400 ''invalid ip address'' fmt, m, [])
             | (True, addr) \<Rightarrow>
                 let (result, db_error) = lookup (env_mmdb env) dbs addr in
                 if db_error then
                   (make_error_response 500 ''internal database error'' fmt, m,
                    [log_error ''database error while looking up an address''])
                 else if \<not> found result then
                   (make_error_response 404 ''no geoip information found'' fmt,
                    m\<lparr>lookup_not_found_total := lookup_not_found_total m + 1\<rparr>, [])
                 else
                   (build_success_response ip_text result fmt,
                    m\<lparr>lookup_found_total := lookup_found_total m + 1\<rparr>, [])))"

definition serve_health :: "server_env \<Rightarrow> int \<Rightarrow> GeoIpDatabases \<Rightarrow> HttpRequest \<Rightarrow> HttpResponse" where
  "serve_health env start_time dbs req =
     (let want_json = accept_wants_json (req_accept req) in
      empty_response\<lparr>resp_status := 200, resp_format := (if want_json then Json else Text),
        resp_body := (if want_json
          then render_health_json (collect_db_infos env dbs) NSHGEOIP_VERSION (env_lib_version env)
                 (uptime_seconds env start_time)
          else ''status=ok'' @ [LF])\<rparr>)"

definition serve_metrics :: "server_env \<Rightarrow> int \<Rightarrow> GeoIpDatabases \<Rightarrow> Metrics \<Rightarrow> HttpResponse" where
  "serve_metrics env start_time dbs m =
     empty_response\<lparr>resp_status := 200, resp_format := Prometheus,
       resp_body := render_prometheus_metrics m (collect_db_infos env dbs) NSHGEOIP_VERSION (env_lib_version env)
         (uptime_seconds env start_time)\<rparr>"

text \<open>From the parsed head to the response: the response, the flag \<^verbatim>\<open>is_head\<close>, the counters and the log.\<close>

definition handle_request ::
  "server_env \<Rightarrow> int \<Rightarrow> GeoIpDatabases \<Rightarrow> string \<Rightarrow> Metrics \<Rightarrow> (HttpResponse \<times> bool) \<times> Metrics \<times> log_call list" where
  "handle_request env start_time dbs raw m =
     (case parse_http_request raw of
        None \<Rightarrow> ((make_error_response 400 ''malformed HTTP request'' Json, False), record_request [] m,
          [log_warn ''rejected malformed HTTP request''])
      | Some req \<Rightarrow>
          let m1 = record_request (req_path req) m; fmt = negotiate_format (req_accept req) in
          if req_method req \<noteq> ''GET'' \<and> req_method req \<noteq> ''HEAD'' then
            let resp = make_error_response 405 ''method not allowed'' fmt in
            ((resp\<lparr>resp_headers := resp_headers resp @ [(''Allow'', ''GET, HEAD'')]\<rparr>, False), m1, [])
          else
            let is_head = (req_method req = ''HEAD'') in
            if req_path req = ''/lookup'' then
              (case serve_lookup env dbs req fmt m1 of (resp, m2, logs) \<Rightarrow> ((resp, is_head), m2, logs))
            else if req_path req = ''/health'' then ((serve_health env start_time dbs req, is_head), m1, [])
            else if req_path req = ''/metrics'' then ((serve_metrics env start_time dbs m1, is_head), m1, [])
            else ((make_error_response 404 ''not found'' fmt, is_head), m1, []))"

record worker_state =
  ws_metrics :: Metrics
  ws_log :: "log_call list"
  ws_sent :: string
  ws_closed :: "int list"

definition close_fd :: "int \<Rightarrow> worker_state \<Rightarrow> worker_state" where
  "close_fd fd ws = ws\<lparr>ws_closed := ws_closed ws @ [fd]\<rparr>"

text \<open>\<^verbatim>\<open>write_all(fd, ...); close(fd);\<close>.\<close>

definition reply :: "int \<Rightarrow> string \<Rightarrow> send_result list \<Rightarrow> worker_state \<Rightarrow> worker_state option" where
  "reply fd bytes sends ws =
     (case write_all bytes 0 sends of
        None \<Rightarrow> None
      | Some (_, n) \<Rightarrow> Some (close_fd fd (ws\<lparr>ws_sent := ws_sent ws @ take n bytes\<rparr>)))"

definition handle_connection ::
  "server_env \<Rightarrow> Config \<Rightarrow> int \<Rightarrow> GeoIpDatabases \<Rightarrow> int \<Rightarrow> int \<Rightarrow> head_env list \<Rightarrow> send_result list \<Rightarrow>
    worker_state \<Rightarrow> worker_state option" where
  "handle_connection env cfg start_time dbs fd now es sends ws =
     (case read_http_head (max_request_bytes cfg) 5 now es of
        None \<Rightarrow> None
      | Some (rr, raw) \<Rightarrow>
          (case rr of
             TooLarge \<Rightarrow>
               let m = record_request [] (ws_metrics ws);
                   resp = make_error_response 400 ''request too large'' Json
               in reply fd (build_http_response resp True) sends
                    (ws\<lparr>ws_metrics := record_response (resp_status resp) m\<rparr>)
           | ConnectionClosed \<Rightarrow> Some (close_fd fd ws)
           | Timeout \<Rightarrow> Some (close_fd fd ws)
           | IoError \<Rightarrow> Some (close_fd fd ws)
           | Ok \<Rightarrow>
               (case handle_request env start_time dbs raw (ws_metrics ws) of
                  ((resp, is_head), m, logs) \<Rightarrow>
                    reply fd (build_http_response resp (\<not> is_head)) sends
                      (ws\<lparr>ws_metrics := record_response (resp_status resp) m, ws_log := ws_log ws @ logs\<rparr>))))"

section \<open>Reloading\<close>

type_synonym db_state = "GeoIpDatabases \<times> mmdb_heap"

text \<open>One \<^verbatim>\<open>if\<close> block of \<^verbatim>\<open>reload_databases\<close>: the remaining state is the flag \<^verbatim>\<open>ok\<close>, the databases and the log.\<close>

definition reload_slot ::
  "string \<Rightarrow> string \<Rightarrow> (string \<Rightarrow> db_state \<Rightarrow> string option \<times> db_state) \<Rightarrow> (GeoIpDatabases \<Rightarrow> GeoIpDbMetadata option) \<Rightarrow>
    bool \<times> db_state \<times> log_call list \<Rightarrow> bool \<times> db_state \<times> log_call list" where
  "reload_slot name path reload metadata = (\<lambda>(ok, s, logs).
     (if path = [] then (ok, s, logs)
      else
        (case reload path s of
           (None, s1) \<Rightarrow>
             (ok, s1, logs @ [log_info (''reloaded '' @ name @ '' database: '' @ describe_db path (metadata (fst s1)))])
         | (Some err, s1) \<Rightarrow>
             (False, s1, logs @ [log_error (''failed to reload '' @ name
               @ '' database, keeping previous handle open: '' @ err)]))))"

definition reload_databases ::
  "server_env \<Rightarrow> Config \<Rightarrow> (db_slot \<Rightarrow> open_answer) \<Rightarrow> db_state \<Rightarrow> db_state \<times> log_call list" where
  "reload_databases env cfg answers s =
     (case reload_slot ''city'' (city_db cfg) (reload_city (answers CitySlot))
             (city_metadata (env_ub env) (env_wall env CitySlot))
        (reload_slot ''ASN'' (asn_db cfg) (reload_asn (answers AsnSlot))
             (asn_metadata (env_ub env) (env_wall env AsnSlot))
          (reload_slot ''country'' (country_db cfg) (reload_country (answers CountrySlot))
             (country_metadata (env_ub env) (env_wall env CountrySlot)) (True, s, []))) of
        (ok, s1, logs) \<Rightarrow>
          (s1, logs @ [log_info (if ok then ''database reload complete'' else ''database reload finished with errors'')]))"

section \<open>The metrics file\<close>

text \<open>
  A file system is a map from paths to contents.  The answers of the system: whether the temporary file opens; whether inserting the text
  into the stream fails, and after how many bytes; how many bytes of the text have reached the file when the stream
  is destroyed (its buffer is flushed then, and no error is reported); and the error text if \<^verbatim>\<open>rename\<close> fails.
\<close>

type_synonym file_system = "string \<Rightarrow> string option"

record metrics_io =
  io_opens :: bool
  io_insert_fails :: "nat option"
  io_flushed :: nat
  io_rename_fails :: "string option"

text \<open>The successive file systems a reader can see, and the log.\<close>

definition write_metrics_file ::
  "server_env \<Rightarrow> Config \<Rightarrow> int \<Rightarrow> GeoIpDatabases \<Rightarrow> Metrics \<Rightarrow> metrics_io \<Rightarrow> file_system \<Rightarrow> file_system list \<times> log_call list" where
  "write_metrics_file env cfg start_time dbs m io fs =
     (let text = render_prometheus_metrics m (collect_db_infos env dbs) NSHGEOIP_VERSION (env_lib_version env)
            (uptime_seconds env start_time);
          tmp_path = metrics_file cfg @ ''.tmp'';
          tmp = c_str tmp_path
      in if \<not> io_opens io then ([fs], [log_warn (''failed to open metrics file for writing: '' @ tmp_path)])
         else
           let fs1 = fs(tmp \<mapsto> []) in
           (case io_insert_fails io of
              Some k \<Rightarrow> ([fs, fs1, fs(tmp \<mapsto> take k text)], [log_warn (''failed to write metrics file: '' @ tmp_path)])
            | None \<Rightarrow>
                let fs2 = fs(tmp \<mapsto> take (io_flushed io) text) in
                (case io_rename_fails io of
                   Some err \<Rightarrow> ([fs, fs1, fs2], [log_warn (''failed to rename metrics file into place ('' @ tmp_path
                     @ '' -> '' @ metrics_file cfg @ ''): '' @ err)])
                 | None \<Rightarrow> ([fs, fs1, fs2, (fs2(tmp := None))(c_str (metrics_file cfg) := fs2 tmp)], []))))"

section \<open>Statuses and headers\<close>

definition request_format :: "HttpRequest \<Rightarrow> ResponseFormat" where
  "request_format req = negotiate_format (req_accept req)"

text \<open>The response to a parsed request, without its effects.\<close>

definition response_to :: "server_env \<Rightarrow> int \<Rightarrow> GeoIpDatabases \<Rightarrow> string \<Rightarrow> Metrics \<Rightarrow> HttpResponse" where
  "response_to env start_time dbs raw m = fst (fst (handle_request env start_time dbs raw m))"

lemma error_status [simp]: "resp_status (make_error_response s msg fmt) = s"
  by (simp add: make_error_response_def)

lemma success_status [simp]: "resp_status (build_success_response ip r fmt) = 200"
  by (simp add: build_success_response_def)

lemma serve_lookup_response:
  "known_status (resp_status (fst (serve_lookup env dbs req fmt m)))
   \<and> list_all header_ok (resp_headers (fst (serve_lookup env dbs req fmt m)))"
  by (simp add: serve_lookup_def known_status_def error_headers_ok success_headers_ok
      split: option.split prod.split bool.split)

lemma handle_request_response:
  "known_status (resp_status (response_to env start_time dbs raw m))
   \<and> list_all header_ok (resp_headers (response_to env start_time dbs raw m))"
proof (cases "parse_http_request raw")
  case None
  then show ?thesis by (simp add: response_to_def handle_request_def known_status_def error_headers_ok)
next
  case (Some req)
  have "line_text ''Allow'' \<and> line_text ''GET, HEAD''" by (simp add: line_text_def)
  then show ?thesis
    using serve_lookup_response [of env dbs req] Some
    by (simp add: response_to_def handle_request_def Let_def known_status_def error_headers_ok header_ok_def
        serve_health_def serve_metrics_def empty_response_def case_prod_unfold)
qed

lemma known_statusI [simp]: "known_status (resp_status (response_to env start_time dbs raw m))"
  using handle_request_response by blast

section \<open>Counters\<close>

text \<open>A counter update is one atomic \<^verbatim>\<open>fetch_add\<close>; workers interleave at this granularity.\<close>

datatype metric_op = CountRequest string | CountResponse int | CountFound | CountNotFound

fun apply_metric_op :: "metric_op \<Rightarrow> Metrics \<Rightarrow> Metrics" where
  "apply_metric_op (CountRequest path) m = record_request path m"
| "apply_metric_op (CountResponse status) m = record_response status m"
| "apply_metric_op CountFound m = m\<lparr>lookup_found_total := lookup_found_total m + 1\<rparr>"
| "apply_metric_op CountNotFound m = m\<lparr>lookup_not_found_total := lookup_not_found_total m + 1\<rparr>"

definition lookup_ops :: "server_env \<Rightarrow> GeoIpDatabases \<Rightarrow> HttpRequest \<Rightarrow> metric_op list" where
  "lookup_ops env dbs req =
     (case find_query_param req ''ip'' of
        None \<Rightarrow> []
      | Some ip \<Rightarrow>
          (case parse_ip_address (env_pton4 env) (env_pton6 env) ip empty_addr of
             (False, _) \<Rightarrow> []
           | (True, addr) \<Rightarrow>
               if snd (lookup (env_mmdb env) dbs addr) then []
               else if found (fst (lookup (env_mmdb env) dbs addr)) then [CountFound] else [CountNotFound]))"

definition request_ops :: "server_env \<Rightarrow> GeoIpDatabases \<Rightarrow> string \<Rightarrow> metric_op list" where
  "request_ops env dbs raw =
     (case parse_http_request raw of
        None \<Rightarrow> [CountRequest []]
      | Some req \<Rightarrow>
          CountRequest (req_path req) #
          (if (req_method req = ''GET'' \<or> req_method req = ''HEAD'') \<and> req_path req = ''/lookup''
           then lookup_ops env dbs req else []))
     @ [CountResponse (resp_status (response_to env 0 dbs raw zero_metrics))]"

definition connection_ops :: "server_env \<Rightarrow> Config \<Rightarrow> GeoIpDatabases \<Rightarrow> int \<Rightarrow> head_env list \<Rightarrow> metric_op list" where
  "connection_ops env cfg dbs now es =
     (case read_http_head (max_request_bytes cfg) 5 now es of
        Some (TooLarge, _) \<Rightarrow> [CountRequest [], CountResponse 400]
      | Some (Ok, raw) \<Rightarrow> request_ops env dbs raw
      | _ \<Rightarrow> [])"

lemma metric_op_commute: "apply_metric_op a \<circ> apply_metric_op b = apply_metric_op b \<circ> apply_metric_op a"
  by (rule ext; cases a; cases b) (simp_all add: record_request_def record_response_def)

lemma metric_ops_permute: "mset xs = mset ys \<Longrightarrow> fold apply_metric_op xs = fold apply_metric_op ys"
  by (rule fold_multiset_equiv) (simp_all add: metric_op_commute)

lemma parse_ip_empty: "parse_ip_address p4 p6 [] a = (False, a)"
  by (simp add: parse_ip_address_def)

lemma serve_lookup_status:
  "resp_status (fst (serve_lookup env dbs req fmt m)) = resp_status (fst (serve_lookup env dbs req fmt' m'))"
  by (simp add: serve_lookup_def split: option.split prod.split bool.split)

lemma response_status_indep:
  "resp_status (response_to env s dbs raw m) = resp_status (response_to env s' dbs raw m')"
  using serve_lookup_status [of env dbs]
  by (simp add: response_to_def handle_request_def Let_def serve_health_def serve_metrics_def case_prod_unfold
      split: option.split)

lemma serve_lookup_ops:
  "fst (snd (serve_lookup env dbs req fmt m)) = fold apply_metric_op (lookup_ops env dbs req) m"
proof (cases "find_query_param req ''ip''")
  case None
  then show ?thesis by (simp add: serve_lookup_def lookup_ops_def)
next
  case (Some ip)
  obtain ok addr where p: "parse_ip_address (env_pton4 env) (env_pton6 env) ip empty_addr = (ok, addr)" by force
  show ?thesis
  proof (cases "ip = [] \<or> \<not> ok")
    case True
    with p have "\<not> ok" by (auto simp: parse_ip_empty)
    with Some p show ?thesis by (simp add: serve_lookup_def lookup_ops_def)
  next
    case False
    with Some p show ?thesis by (simp add: serve_lookup_def lookup_ops_def case_prod_unfold Let_def)
  qed
qed

lemma request_counters:
  "record_response (resp_status (response_to env s dbs raw m)) (fst (snd (handle_request env s dbs raw m))) =
     fold apply_metric_op (request_ops env dbs raw) m"
proof -
  have st: "resp_status (response_to env s dbs raw m) = resp_status (response_to env 0 dbs raw zero_metrics)"
    by (rule response_status_indep)
  show ?thesis
  proof (cases "parse_http_request raw")
    case None
    then show ?thesis by (simp add: request_ops_def handle_request_def st)
  next
    case (Some req)
    then have "fst (snd (handle_request env s dbs raw m)) =
      fold apply_metric_op (butlast (request_ops env dbs raw)) m"
      using serve_lookup_ops [of env dbs req]
      by (auto simp: request_ops_def handle_request_def Let_def case_prod_unfold butlast_append)
    then show ?thesis by (simp add: request_ops_def st)
  qed
qed

lemma reply_metrics: "reply fd bytes sends ws = Some ws' \<Longrightarrow> ws_metrics ws' = ws_metrics ws"
  by (auto simp: reply_def close_fd_def split: option.splits)

lemma connection_counters:
  assumes "handle_connection env cfg s dbs fd now es sends ws = Some ws'"
  shows "ws_metrics ws' = fold apply_metric_op (connection_ops env cfg dbs now es) (ws_metrics ws)"
proof -
  obtain rr raw where r: "read_http_head (max_request_bytes cfg) 5 now es = Some (rr, raw)"
    using assms by (auto simp: handle_connection_def split: option.splits)
  show ?thesis
  proof (cases rr)
    case Ok
    with r assms show ?thesis
      using request_counters [of env s dbs raw "ws_metrics ws"]
      by (auto simp: handle_connection_def connection_ops_def response_to_def case_prod_unfold dest!: reply_metrics)
  next
    case TooLarge
    with r assms show ?thesis
      by (auto simp: handle_connection_def connection_ops_def Let_def dest!: reply_metrics)
  qed (use r assms in \<open>auto simp: handle_connection_def connection_ops_def close_fd_def\<close>)
qed

lemma found_counts [simp]:
  "requests_total (m\<lparr>lookup_found_total := x\<rparr>) = requests_total m"
  "responses_total (m\<lparr>lookup_found_total := x\<rparr>) = responses_total m"
  "requests_total (m\<lparr>lookup_not_found_total := x\<rparr>) = requests_total m"
  "responses_total (m\<lparr>lookup_not_found_total := x\<rparr>) = responses_total m"
  by (simp_all add: requests_total_def responses_total_def)

lemma requests_of_ops:
  "requests_total (fold apply_metric_op ops m) =
     requests_total m + of_nat (length (filter (\<lambda>op. \<exists>p. op = CountRequest p) ops))"
proof (induction ops arbitrary: m)
  case Nil
  then show ?case by simp
next
  case (Cons op ops)
  have "requests_total (apply_metric_op op m) = requests_total m + (if \<exists>p. op = CountRequest p then 1 else 0)"
    by (cases op) simp_all
  with Cons show ?case by (auto simp: ac_simps)
qed

lemma responses_of_ops:
  assumes "\<forall>s. CountResponse s \<in> set ops \<longrightarrow> known_status s"
  shows "responses_total (fold apply_metric_op ops m) =
     responses_total m + of_nat (length (filter (\<lambda>op. \<exists>s. op = CountResponse s) ops))"
  using assms
proof (induction ops arbitrary: m)
  case Nil
  then show ?case by simp
next
  case (Cons op ops)
  have "responses_total (apply_metric_op op m) = responses_total m + (if \<exists>s. op = CountResponse s then 1 else 0)"
    using Cons.prems by (cases op) simp_all
  with Cons show ?case by (auto simp: ac_simps)
qed

text \<open>A connection that gets as far as a response counts one request and one response.\<close>

definition answered :: "Config \<Rightarrow> int \<Rightarrow> head_env list \<Rightarrow> bool" where
  "answered cfg now es \<longleftrightarrow>
     (case read_http_head (max_request_bytes cfg) 5 now es of
        Some (rr, _) \<Rightarrow> rr = Ok \<or> rr = TooLarge | None \<Rightarrow> False)"

lemma lookup_ops_kinds: "op \<in> set (lookup_ops env dbs req) \<Longrightarrow> op = CountFound \<or> op = CountNotFound"
  by (auto simp: lookup_ops_def split: option.splits prod.splits bool.splits if_splits)

lemma request_ops_kinds:
  "length (filter (\<lambda>op. \<exists>p. op = CountRequest p) (request_ops env dbs raw)) = 1"
  "length (filter (\<lambda>op. \<exists>s. op = CountResponse s) (request_ops env dbs raw)) = 1"
  "CountResponse s \<in> set (request_ops env dbs raw) \<Longrightarrow> known_status s"
proof -
  have "filter (\<lambda>op. \<exists>p. op = CountRequest p) (lookup_ops env dbs req) = []"
    "filter (\<lambda>op. \<exists>s. op = CountResponse s) (lookup_ops env dbs req) = []"
    "CountResponse s \<notin> set (lookup_ops env dbs req)" for req
    using lookup_ops_kinds [of _ env dbs req] by (auto simp: filter_empty_conv)
  then show "length (filter (\<lambda>op. \<exists>p. op = CountRequest p) (request_ops env dbs raw)) = 1"
    "length (filter (\<lambda>op. \<exists>s. op = CountResponse s) (request_ops env dbs raw)) = 1"
    "CountResponse s \<in> set (request_ops env dbs raw) \<Longrightarrow> known_status s"
    by (auto simp: request_ops_def split: option.splits if_splits)
qed

lemma connection_ops_kinds:
  "length (filter (\<lambda>op. \<exists>p. op = CountRequest p) (connection_ops env cfg dbs now es)) = (if answered cfg now es then 1 else 0)"
  "length (filter (\<lambda>op. \<exists>s. op = CountResponse s) (connection_ops env cfg dbs now es)) = (if answered cfg now es then 1 else 0)"
  "CountResponse s \<in> set (connection_ops env cfg dbs now es) \<Longrightarrow> known_status s"
proof -
  have "(length (filter (\<lambda>op. \<exists>p. op = CountRequest p) (connection_ops env cfg dbs now es)) = (if answered cfg now es then 1 else 0)
    \<and> length (filter (\<lambda>op. \<exists>s. op = CountResponse s) (connection_ops env cfg dbs now es)) = (if answered cfg now es then 1 else 0))
    \<and> (CountResponse s \<in> set (connection_ops env cfg dbs now es) \<longrightarrow> known_status s)"
  proof (cases "read_http_head (max_request_bytes cfg) 5 now es")
    case None
    then show ?thesis by (simp add: connection_ops_def answered_def)
  next
    case (Some r)
    obtain rr raw where "r = (rr, raw)" by force
    with Some request_ops_kinds(1,2) [of env dbs raw] request_ops_kinds(3) [of s env dbs raw] show ?thesis
      by (cases rr) (simp_all add: connection_ops_def answered_def known_status_def)
  qed
  then show "length (filter (\<lambda>op. \<exists>p. op = CountRequest p) (connection_ops env cfg dbs now es)) = (if answered cfg now es then 1 else 0)"
    "length (filter (\<lambda>op. \<exists>s. op = CountResponse s) (connection_ops env cfg dbs now es)) = (if answered cfg now es then 1 else 0)"
    "CountResponse s \<in> set (connection_ops env cfg dbs now es) \<Longrightarrow> known_status s"
    by blast+
qed

text \<open>Connections served one after the other.\<close>

record conn =
  conn_env :: server_env
  conn_dbs :: GeoIpDatabases
  conn_fd :: int
  conn_now :: int
  conn_reads :: "head_env list"
  conn_sends :: "send_result list"

fun serve_all :: "Config \<Rightarrow> int \<Rightarrow> conn list \<Rightarrow> worker_state \<Rightarrow> worker_state option" where
  "serve_all cfg s [] ws = Some ws"
| "serve_all cfg s (c # cs) ws =
     Option.bind (handle_connection (conn_env c) cfg s (conn_dbs c) (conn_fd c) (conn_now c) (conn_reads c) (conn_sends c) ws)
       (serve_all cfg s cs)"

definition conn_ops :: "Config \<Rightarrow> conn \<Rightarrow> metric_op list" where
  "conn_ops cfg c = connection_ops (conn_env c) cfg (conn_dbs c) (conn_now c) (conn_reads c)"

definition conn_answered :: "Config \<Rightarrow> conn \<Rightarrow> bool" where
  "conn_answered cfg c \<longleftrightarrow> answered cfg (conn_now c) (conn_reads c)"

lemma serve_all_counters:
  "serve_all cfg s cs ws = Some ws' \<Longrightarrow>
     ws_metrics ws' = fold apply_metric_op (concat (map (conn_ops cfg) cs)) (ws_metrics ws)"
proof (induction cs arbitrary: ws)
  case Nil
  then show ?case by simp
next
  case (Cons c cs)
  then obtain w1 where "handle_connection (conn_env c) cfg s (conn_dbs c) (conn_fd c) (conn_now c)
      (conn_reads c) (conn_sends c) ws = Some w1" "serve_all cfg s cs w1 = Some ws'"
    by (auto simp: bind_eq_Some_conv)
  with Cons.IH connection_counters show ?case by (simp add: conn_ops_def)
qed

lemma filter_concat_length:
  assumes "\<And>c. length (filter P (f c)) = (if Q c then 1 else 0)"
  shows "length (filter P (concat (map f cs))) = length (filter Q cs)"
  using assms by (induction cs) simp_all

lemma all_ops_counters:
  fixes cs :: "conn list" and cfg :: Config
  defines "ops \<equiv> concat (map (conn_ops cfg) cs)"
  shows "requests_total (fold apply_metric_op ops m) = requests_total m + of_nat (length (filter (conn_answered cfg) cs))"
    "responses_total (fold apply_metric_op ops m) = responses_total m + of_nat (length (filter (conn_answered cfg) cs))"
proof -
  have "length (filter (\<lambda>op. \<exists>p. op = CountRequest p) ops) = length (filter (conn_answered cfg) cs)"
    "length (filter (\<lambda>op. \<exists>s. op = CountResponse s) ops) = length (filter (conn_answered cfg) cs)"
    unfolding ops_def
    by (rule filter_concat_length, simp add: conn_ops_def conn_answered_def connection_ops_kinds)+
  moreover have "\<forall>s. CountResponse s \<in> set ops \<longrightarrow> known_status s"
    using connection_ops_kinds(3) by (auto simp: ops_def conn_ops_def)
  ultimately show "requests_total (fold apply_metric_op ops m) = requests_total m + of_nat (length (filter (conn_answered cfg) cs))"
    "responses_total (fold apply_metric_op ops m) = responses_total m + of_nat (length (filter (conn_answered cfg) cs))"
    by (simp_all add: requests_of_ops responses_of_ops)
qed

section \<open>Connections end\<close>

lemma write_all_ends:
  "SendFailed \<in> set as \<Longrightarrow> \<exists>ok n. write_all data sent as = Some (ok, n)"
proof (induction as arbitrary: sent)
  case Nil
  then show ?case by simp
next
  case (Cons a as)
  then show ?case by (cases a) (auto simp: write_all.simps [of data sent "_ # _"])
qed

lemma reply_ends:
  assumes "SendFailed \<in> set sends"
  shows "\<exists>n ws'. reply fd bytes sends ws = Some ws' \<and> ws_sent ws' = ws_sent ws @ take n bytes
    \<and> ws_closed ws' = ws_closed ws @ [fd]"
  using write_all_ends [OF assms, of bytes 0] by (auto simp: reply_def close_fd_def)

lemma read_http_head_ends:
  assumes "\<exists>e \<in> set es. now + 5 * 1000000000 \<le> clock_now e"
  shows "\<exists>rr raw. read_http_head n 5 now es = Some (rr, raw)"
  using read_head_returns [OF assms] by (simp add: read_http_head_def)

text \<open>What a worker may send: nothing, or a response a client can read with one of the five statuses.\<close>

definition proper_reply :: "string \<Rightarrow> bool" where
  "proper_reply bytes \<longleftrightarrow> bytes = [] \<or> (\<exists>st hs body. known_status st \<and> read_response bytes = Some (int_to_string st, hs, body))"

lemma response_proper: "known_status (resp_status r) \<Longrightarrow> list_all header_ok (resp_headers r) \<Longrightarrow> proper_reply (build_http_response r b)"
  using read_built_response by (auto simp: proper_reply_def)

lemma error_proper: "known_status s \<Longrightarrow> proper_reply (build_http_response (make_error_response s msg fmt) b)"
  by (simp add: response_proper error_headers_ok)

section \<open>The lookup endpoint\<close>

lemma parse_ip_found:
  assumes "pton_documented p4 p6" "NUL \<notin> set t" "p4 t = Some a \<or> (p4 t = None \<and> p6 t = Some b)"
  shows "\<exists>addr. parse_ip_address p4 p6 t empty_addr = (True, addr) \<and> t \<noteq> []
    \<and> addr_storage addr = (case p4 t of Some a \<Rightarrow> SockaddrIn 0 a | None \<Rightarrow> SockaddrIn6 0 b)"
proof -
  have "p4 t \<noteq> None \<or> p6 t \<noteq> None" using assms(3) by auto
  with assms(1) have "t \<noteq> []" "length t \<le> 45" unfolding pton_documented_def by blast+
  with assms(2,3) show ?thesis by (auto simp: parse_ip_address_def kMaxAddrTextLen_def)
qed

text \<open>The address a text stands for, IPv4 first.\<close>

definition address_of :: "server_env \<Rightarrow> string \<Rightarrow> sockaddr option" where
  "address_of env t =
     (case env_pton4 env t of
        Some a \<Rightarrow> Some (SockaddrIn 0 a)
      | None \<Rightarrow> map_option (SockaddrIn6 0) (env_pton6 env t))"

definition any_db_failed :: "server_env \<Rightarrow> GeoIpDatabases \<Rightarrow> sockaddr \<Rightarrow> bool" where
  "any_db_failed env dbs a \<longleftrightarrow>
     db_failed (env_mmdb env) (country_open dbs) (country_mmdb dbs) a
     \<or> db_failed (env_mmdb env) (asn_open dbs) (asn_mmdb dbs) a
     \<or> db_failed (env_mmdb env) (city_open dbs) (city_mmdb dbs) a"

lemma parse_ip_address_of:
  assumes "pton_documented (env_pton4 env) (env_pton6 env)" "NUL \<notin> set t"
  shows "case parse_ip_address (env_pton4 env) (env_pton6 env) t empty_addr of
      (ok, addr) \<Rightarrow> (if ok then t \<noteq> [] \<and> address_of env t = Some (addr_storage addr) else address_of env t = None)"
proof -
  have "env_pton4 env t = None \<and> env_pton6 env t = None" if "t = [] \<or> length t > 45"
    using assms(1) that unfolding pton_documented_def by (metis linorder_not_less option.discI)
  with assms(2) show ?thesis
    by (auto simp: parse_ip_address_def kMaxAddrTextLen_def address_of_def split: option.split)
qed

text \<open>The specification of \<^verbatim>\<open>/lookup\<close>: the response for the first \<^verbatim>\<open>ip\<close> parameter.\<close>

definition lookup_response :: "server_env \<Rightarrow> GeoIpDatabases \<Rightarrow> string option \<Rightarrow> ResponseFormat \<Rightarrow> HttpResponse" where
  "lookup_response env dbs ip fmt =
     (if ip = None \<or> ip = Some [] then make_error_response 400 ''missing ip parameter'' fmt
      else case address_of env (the ip) of
        None \<Rightarrow> make_error_response 400 ''invalid ip address'' fmt
      | Some a \<Rightarrow>
          let r = lookup_spec (env_mmdb env) dbs a in
          if any_db_failed env dbs a then make_error_response 500 ''internal database error'' fmt
          else if found r then build_success_response (the ip) r fmt
          else make_error_response 404 ''no geoip information found'' fmt)"

text \<open>What the client reads: the format it asked for, the status and the body.\<close>

definition wants_text :: "string \<Rightarrow> bool" where
  "wants_text accept \<longleftrightarrow>
     sublist ''text/plain'' (map tolower accept) \<and> \<not> sublist ''application/json'' (map tolower accept)"

definition lookup_answer :: "server_env \<Rightarrow> GeoIpDatabases \<Rightarrow> string \<Rightarrow> sockaddr \<Rightarrow> bool \<Rightarrow> string \<Rightarrow> string \<Rightarrow> bool" where
  "lookup_answer env dbs t a is_json st body \<longleftrightarrow>
     (let r = lookup_spec (env_mmdb env) dbs a in
      if any_db_failed env dbs a then st = ''500'' \<and> error_answer is_json ''internal database error'' body
      else if \<not> found r then st = ''404'' \<and> error_answer is_json ''no geoip information found'' body
      else st = ''200'' \<and> (if is_json then finite_result r \<longrightarrow> json_answer t r body else text_answer t r body))"

lemma find_str_sublist: "find_str n s \<noteq> None \<longleftrightarrow> sublist n s"
  by (auto simp: find_str_None sublist_def)

lemma negotiated_format: "negotiate_format accept = (if wants_text accept then Text else Json)"
  unfolding negotiate_format_def wants_text_def find_str_sublist to_lower_def Let_def by simp

lemma status_texts: "int_to_string 500 = ''500''" "int_to_string 404 = ''404''" "int_to_string 200 = ''200''"
  by code_simp+

lemma lookup_response_read:
  assumes "address_of env t = Some a" "t \<noteq> []"
  shows "\<exists>st hs body. read_response (build_http_response (lookup_response env dbs (Some t) fmt) True) =
      Some (st, (''Content-Type'', content_type fmt) # hs, body)
    \<and> lookup_answer env dbs t a (fmt = Json) st body"
proof -
  let ?r = "lookup_spec (env_mmdb env) dbs a" and ?resp = "lookup_response env dbs (Some t) fmt"
  have resp: "?resp = (if any_db_failed env dbs a then make_error_response 500 ''internal database error'' fmt
      else if found ?r then build_success_response t ?r fmt else make_error_response 404 ''no geoip information found'' fmt)"
    using assms by (simp add: lookup_response_def Let_def)
  then have "list_all header_ok (resp_headers ?resp)" by (simp add: error_headers_ok success_headers_ok)
  moreover from resp have "resp_format ?resp = fmt" by (simp add: make_error_response_def build_success_response_def)
  ultimately have "read_response (build_http_response ?resp True) = Some (int_to_string (resp_status ?resp), (''Content-Type'', content_type fmt)
      # [(''Content-Length'', nat_to_string (length (resp_body ?resp))), (''Connection'', ''close'')] @ resp_headers ?resp, resp_body ?resp)"
    by (simp add: read_built_response automatic_headers_def)
  moreover have "resp_body (build_success_response t ?r f) = (if f = Json then build_json_body t ?r else build_ini_body t ?r)" for f
    by (simp add: build_success_response_def)
  then have "lookup_answer env dbs t a (fmt = Json) (int_to_string (resp_status ?resp)) (resp_body ?resp)"
    unfolding lookup_answer_def Let_def resp
    by (simp add: status_texts error_body_answer json_body_answer ini_body_answer)
  ultimately show ?thesis by blast
qed

lemma serve_lookup_spec:
  assumes "pton_documented (env_pton4 env) (env_pton6 env)"
    and "\<And>t. find_query_param req ''ip'' = Some t \<Longrightarrow> NUL \<notin> set t"
  shows "fst (serve_lookup env dbs req fmt m) = lookup_response env dbs (find_query_param req ''ip'') fmt"
proof (cases "find_query_param req ''ip''")
  case None
  then show ?thesis by (simp add: serve_lookup_def lookup_response_def)
next
  case (Some t)
  obtain ok addr where p: "parse_ip_address (env_pton4 env) (env_pton6 env) t empty_addr = (ok, addr)" by force
  from parse_ip_address_of [OF assms(1) assms(2) [OF Some]] p
  have a: "if ok then t \<noteq> [] \<and> address_of env t = Some (addr_storage addr) else address_of env t = None" by simp
  have "snd (lookup (env_mmdb env) dbs addr) = any_db_failed env dbs (addr_storage addr)"
    by (simp add: any_db_failed_def lookup_error)
  with Some p a lookup_fields [of "env_mmdb env" dbs addr] show ?thesis
    by (cases ok; cases "t = []")
      (simp_all add: serve_lookup_def lookup_response_def case_prod_unfold Let_def)
qed

lemma handled_parsed:
  assumes "parse_http_request raw = Some req" "req_method req = ''GET'' \<or> req_method req = ''HEAD''"
  shows "fst (handle_request env s dbs raw m) =
    ((if req_path req = ''/lookup'' then fst (serve_lookup env dbs req (negotiate_format (req_accept req)) (record_request (req_path req) m))
      else if req_path req = ''/health'' then serve_health env s dbs req
      else if req_path req = ''/metrics'' then serve_metrics env s dbs (record_request (req_path req) m)
      else make_error_response 404 ''not found'' (negotiate_format (req_accept req))),
     req_method req = ''HEAD'')"
  using assms by (auto simp: handle_request_def Let_def case_prod_unfold)

text \<open>The part of the handler behind the method check does not look at the method.\<close>

definition dispatch :: "server_env \<Rightarrow> int \<Rightarrow> GeoIpDatabases \<Rightarrow> HttpRequest \<Rightarrow> Metrics \<Rightarrow> HttpResponse \<times> Metrics \<times> log_call list" where
  "dispatch env s dbs req m =
     (if req_path req = ''/lookup'' then serve_lookup env dbs req (negotiate_format (req_accept req)) m
      else if req_path req = ''/health'' then (serve_health env s dbs req, m, [])
      else if req_path req = ''/metrics'' then (serve_metrics env s dbs m, m, [])
      else (make_error_response 404 ''not found'' (negotiate_format (req_accept req)), m, []))"

lemma handled_dispatch:
  assumes "parse_http_request raw = Some req" "req_method req = ''GET'' \<or> req_method req = ''HEAD''"
  shows "handle_request env s dbs raw m =
    ((fst (dispatch env s dbs req (record_request (req_path req) m)), req_method req = ''HEAD''),
     snd (dispatch env s dbs req (record_request (req_path req) m)))"
  using assms by (auto simp: handle_request_def dispatch_def Let_def case_prod_unfold)

lemma dispatch_method [simp]: "dispatch env s dbs (req\<lparr>req_method := x\<rparr>) m = dispatch env s dbs req m"
  by (simp add: dispatch_def serve_lookup_def serve_health_def find_query_param_def)

lemma handled_lookup:
  assumes "pton_documented (env_pton4 env) (env_pton6 env)" "parse_http_request raw = Some req"
    and "req_method req = ''GET'' \<or> req_method req = ''HEAD''" "req_path req = ''/lookup''"
  shows "fst (handle_request env s dbs raw m) =
    (lookup_response env dbs (find_query_param req ''ip'') (negotiate_format (req_accept req)), req_method req = ''HEAD'')"
proof -
  have "fst (serve_lookup env dbs req fmt m') = lookup_response env dbs (find_query_param req ''ip'') fmt" for fmt m'
    using parsed_param_no_NUL [OF assms(2)] by (intro serve_lookup_spec [OF assms(1)]) blast
  then show ?thesis using assms(2-4) by (simp add: handled_parsed)
qed

lemma delivered_request_parses:
  assumes "wf_request req" "list_all other_header hdrs"
    and "received (now + 5 * 1000000000) es = render_request req hdrs @ rest"
    and "read_http_head n 5 now es = Some (Ok, raw)"
  shows "parse_http_request raw = Some req"
proof -
  have "prefix raw (render_request req hdrs @ rest)" "find_str blank_line raw \<noteq> None"
    using assms(3,4) read_head_prefix read_head_Ok by (fastforce simp: read_http_head_def)+
  moreover have "parse_http_request (render_request req hdrs @ rest) = Some req"
    using render_request_parses [OF assms(1,2)] parse_http_request_extra [OF render_request_blank] by simp
  ultimately show ?thesis by (metis parse_http_request_extra prefixE)
qed

lemma address_of_nonempty:
  assumes "pton_documented (env_pton4 env) (env_pton6 env)" "address_of env t = Some a"
  shows "t \<noteq> []"
  using assms unfolding pton_documented_def address_of_def by (auto split: option.splits)

lemma handled_Ok:
  assumes "read_http_head (max_request_bytes cfg) 5 now es = Some (Ok, raw)"
    and "\<And>m. fst (handle_request env s dbs raw m) = (resp, is_head)"
  shows "\<exists>m logs. handle_connection env cfg s dbs fd now es sends ws =
    reply fd (build_http_response resp (\<not> is_head)) sends (ws\<lparr>ws_metrics := m, ws_log := ws_log ws @ logs\<rparr>)"
  using assms(1) assms(2) [of "ws_metrics ws"] by (auto simp: handle_connection_def case_prod_unfold)

section \<open>Sending to the end\<close>

lemma write_all_complete:
  "sends_fit (length data - sent) as \<Longrightarrow> length data - sent \<le> useful_sends as \<Longrightarrow> SendFailed \<notin> set as \<Longrightarrow>
     sent \<le> length data \<Longrightarrow> write_all data sent as = Some (True, length data)"
proof (induction as arbitrary: sent)
  case Nil
  then show ?case by (simp add: write_all.simps [of data sent "[]"] useful_sends_def)
next
  case (Cons a as)
  show ?case
  proof (cases "sent < length data")
    case True
    show ?thesis
    proof (cases a)
      case (Sent k)
      with Cons.prems True have "write_all data (sent + k) as = Some (True, length data)"
        by (intro Cons.IH) (auto simp: useful_sends_def)
      with Sent True show ?thesis by (simp add: write_all.simps [of data sent "Sent k # as"])
    next
      case SendEINTR
      with Cons.prems True have "write_all data sent as = Some (True, length data)"
        by (intro Cons.IH) (auto simp: useful_sends_def)
      with SendEINTR True show ?thesis by (simp add: write_all.simps [of data sent "SendEINTR # as"])
    qed (use Cons.prems in simp)
  next
    case False
    with Cons.prems show ?thesis by (simp add: write_all.simps [of data "length data" "a # as"])
  qed
qed

text \<open>The kernel takes all of the bytes, in pieces and with interruptions.\<close>

definition accepts_all :: "string \<Rightarrow> send_result list \<Rightarrow> bool" where
  "accepts_all bytes sends \<longleftrightarrow> sends_fit (length bytes) sends \<and> length bytes \<le> useful_sends sends \<and> SendFailed \<notin> set sends"

lemma reply_complete:
  assumes "accepts_all bytes sends"
  shows "reply fd bytes sends ws = Some (close_fd fd (ws\<lparr>ws_sent := ws_sent ws @ bytes\<rparr>))"
  using assms write_all_complete [of bytes 0 sends] by (simp add: reply_def accepts_all_def)

section \<open>Database slots under reload\<close>

fun slot_handle :: "GeoIpDatabases \<Rightarrow> db_slot \<Rightarrow> MMDB_s option" where
  "slot_handle dbs CountrySlot = (if country_open dbs then Some (country_mmdb dbs) else None)"
| "slot_handle dbs AsnSlot = (if asn_open dbs then Some (asn_mmdb dbs) else None)"
| "slot_handle dbs CitySlot = (if city_open dbs then Some (city_mmdb dbs) else None)"

fun slot_path :: "Config \<Rightarrow> db_slot \<Rightarrow> string" where
  "slot_path cfg CountrySlot = country_db cfg"
| "slot_path cfg AsnSlot = asn_db cfg"
| "slot_path cfg CitySlot = city_db cfg"

text \<open>The effect of reloading one slot: nothing unless a file is configured and opens.\<close>

definition opens :: "string \<Rightarrow> open_answer \<Rightarrow> bool" where
  "opens path a \<longleftrightarrow> path \<noteq> [] \<and> \<not> isl a"

definition slot_effect :: "db_slot \<Rightarrow> string \<Rightarrow> open_answer \<Rightarrow> db_state \<Rightarrow> db_state \<Rightarrow> bool" where
  "slot_effect slot path a s s' \<longleftrightarrow> next_mapping (snd s) \<le> next_mapping (snd s') \<and> (handles_ok s \<longrightarrow> handles_ok s')
     \<and> slot_handle (fst s') =
        (if opens path a then (slot_handle (fst s))(slot \<mapsto> \<lparr>mapping = next_mapping (snd s), mm_metadata = projr a\<rparr>)
         else slot_handle (fst s))"

text \<open>What the server relies on when it reloads one slot through \<open>GeoIpDatabases\<close>.\<close>

locale reloadable =
  fixes slot :: db_slot
    and reload :: "open_answer \<Rightarrow> string \<Rightarrow> db_state \<Rightarrow> string option \<times> db_state"
  assumes reload_handles: "handles_ok s \<Longrightarrow> handles_ok (snd (reload a p s))"
    and reload_fails: "\<exists>err. reload (Inl msg) p s = (Some err, s)"
    and reload_swaps: "\<exists>s1. reload (Inr meta) p s = (None, s1) \<and> next_mapping (snd s) < next_mapping (snd s1)
      \<and> slot_handle (fst s1) = (slot_handle (fst s))(slot \<mapsto> \<lparr>mapping = next_mapping (snd s), mm_metadata = meta\<rparr>)"
begin

lemma reload_slot_effect:
  obtains s' logs' where
    "reload_slot name path (reload a) metadata (ok, s, logs) = (ok \<and> (path = [] \<or> opens path a), s', logs')"
    "slot_effect slot path a s s'"
proof (cases "path = []")
  case True
  then have "slot_effect slot path a s s" by (simp add: slot_effect_def opens_def)
  with True show ?thesis by (intro that [of s logs]) (simp_all add: reload_slot_def)
next
  case path: False
  show ?thesis
  proof (cases a)
    case (Inl msg)
    with reload_fails obtain err where "reload a path s = (Some err, s)" by blast
    moreover have "slot_effect slot path a s s" using Inl by (simp add: slot_effect_def opens_def)
    ultimately show ?thesis using path Inl by (intro that) (simp_all add: reload_slot_def opens_def)
  next
    case (Inr meta)
    with reload_swaps [of meta path s] obtain s1 where r: "reload a path s = (None, s1)"
      and "next_mapping (snd s) < next_mapping (snd s1)"
      and "slot_handle (fst s1) = (slot_handle (fst s))(slot \<mapsto> \<lparr>mapping = next_mapping (snd s), mm_metadata = meta\<rparr>)"
      by blast
    moreover have "handles_ok s \<longrightarrow> handles_ok s1" using reload_handles [of s a path] r by simp
    ultimately have "slot_effect slot path a s s1" using path Inr by (simp add: slot_effect_def opens_def)
    with r path Inr show ?thesis by (intro that) (simp_all add: reload_slot_def opens_def)
  qed
qed

end

lemma swap_heap_next [simp]: "next_mapping (swap_heap b m h) = Suc (next_mapping h)"
  by (simp add: swap_heap_def MMDB_close_def Let_def)

lemma handle_updates:
  "slot_handle (dbs\<lparr>country_mmdb := m, country_open := True\<rparr>) = (slot_handle dbs)(CountrySlot \<mapsto> m)"
  "slot_handle (dbs\<lparr>asn_mmdb := m, asn_open := True\<rparr>) = (slot_handle dbs)(AsnSlot \<mapsto> m)"
  "slot_handle (dbs\<lparr>city_mmdb := m, city_open := True\<rparr>) = (slot_handle dbs)(CitySlot \<mapsto> m)"
  by (rule ext; case_tac x; simp)+

lemma open_slot_error:
  "\<exists>err. open_country (Inl msg) path s = (Some err, s)" "\<exists>err. open_asn (Inl msg) path s = (Some err, s)"
  "\<exists>err. open_city (Inl msg) path s = (Some err, s)"
  by (cases s; simp add: open_country_def open_asn_def open_city_def open_mmdb_def)+

interpretation reload_country: reloadable CountrySlot reload_country
proof (unfold_locales, goal_cases)
  case (1 s a p)
  then show ?case by (cases s) (simp add: reload_country_def handles_ok_opens)
next
  case (3 meta p s)
  show ?case by (cases s) (simp add: reload_country_def open_slot_swaps handle_updates)
qed (simp add: reload_country_def open_slot_error)

interpretation reload_asn: reloadable AsnSlot reload_asn
proof (unfold_locales, goal_cases)
  case (1 s a p)
  then show ?case by (cases s) (simp add: reload_asn_def handles_ok_opens)
next
  case (3 meta p s)
  show ?case by (cases s) (simp add: reload_asn_def open_slot_swaps handle_updates)
qed (simp add: reload_asn_def open_slot_error)

interpretation reload_city: reloadable CitySlot reload_city
proof (unfold_locales, goal_cases)
  case (1 s a p)
  then show ?case by (cases s) (simp add: reload_city_def handles_ok_opens)
next
  case (3 meta p s)
  show ?case by (cases s) (simp add: reload_city_def open_slot_swaps handle_updates)
qed (simp add: reload_city_def open_slot_error)

lemma all_slots: "(\<forall>d. P d) \<longleftrightarrow> P CountrySlot \<and> P AsnSlot \<and> P CitySlot"
  by (metis db_slot.exhaust)

definition reload_ok :: "Config \<Rightarrow> (db_slot \<Rightarrow> open_answer) \<Rightarrow> bool" where
  "reload_ok cfg answers \<longleftrightarrow> (\<forall>d. slot_path cfg d = [] \<or> opens (slot_path cfg d) (answers d))"

lemma reload_databases_effects:
  assumes "reload_databases env cfg answers s = (s', logs)"
  obtains s1 s2 where "slot_effect CountrySlot (country_db cfg) (answers CountrySlot) s s1"
    "slot_effect AsnSlot (asn_db cfg) (answers AsnSlot) s1 s2" "slot_effect CitySlot (city_db cfg) (answers CitySlot) s2 s'"
    "last logs = log_info (if reload_ok cfg answers then ''database reload complete'' else ''database reload finished with errors'')"
proof -
  let ?meta = "\<lambda>f d. f (env_ub env) (env_wall env d)"
  let ?ok1 = "True \<and> (country_db cfg = [] \<or> opens (country_db cfg) (answers CountrySlot))"
  let ?ok2 = "?ok1 \<and> (asn_db cfg = [] \<or> opens (asn_db cfg) (answers AsnSlot))"
  obtain s1 l1 where 1: "reload_slot ''country'' (country_db cfg) (reload_country (answers CountrySlot))
      (?meta country_metadata CountrySlot) (True, s, []) = (?ok1, s1, l1)"
    and e1: "slot_effect CountrySlot (country_db cfg) (answers CountrySlot) s s1"
    by (rule reload_country.reload_slot_effect)
  obtain s2 l2 where 2: "reload_slot ''ASN'' (asn_db cfg) (reload_asn (answers AsnSlot))
      (?meta asn_metadata AsnSlot) (?ok1, s1, l1) = (?ok2, s2, l2)"
    and e2: "slot_effect AsnSlot (asn_db cfg) (answers AsnSlot) s1 s2"
    by (rule reload_asn.reload_slot_effect)
  obtain s3 l3 where 3: "reload_slot ''city'' (city_db cfg) (reload_city (answers CitySlot))
      (?meta city_metadata CitySlot) (?ok2, s2, l2) = (?ok2 \<and> (city_db cfg = [] \<or> opens (city_db cfg) (answers CitySlot)), s3, l3)"
    and e3: "slot_effect CitySlot (city_db cfg) (answers CitySlot) s2 s3"
    by (rule reload_city.reload_slot_effect)
  have "reload_databases env cfg answers s = (s3, l3 @ [log_info (if reload_ok cfg answers
      then ''database reload complete'' else ''database reload finished with errors'')])"
    unfolding reload_databases_def 1 2 3 by (simp add: reload_ok_def all_slots)
  with assms have "s' = s3" and "last logs = log_info (if reload_ok cfg answers
      then ''database reload complete'' else ''database reload finished with errors'')" by auto
  with e1 e2 e3 show ?thesis by (intro that) simp_all
qed

lemma reload_databases_slots:
  assumes "reload_databases env cfg answers s = (s', logs)"
  shows "if opens (slot_path cfg d) (answers d)
    then \<exists>h. slot_handle (fst s') d = Some h \<and> answers d = Inr (mm_metadata h) \<and> next_mapping (snd s) \<le> mapping h
    else slot_handle (fst s') d = slot_handle (fst s) d"
  using assms
proof (rule reload_databases_effects)
  fix s1 s2
  assume e: "slot_effect CountrySlot (country_db cfg) (answers CountrySlot) s s1"
    "slot_effect AsnSlot (asn_db cfg) (answers AsnSlot) s1 s2" "slot_effect CitySlot (city_db cfg) (answers CitySlot) s2 s'"
  have "answers d = Inr (projr (answers d))" if "opens (slot_path cfg d) (answers d)"
    using that by (simp add: opens_def)
  then show ?thesis using e by (cases d) (simp_all add: slot_effect_def)
qed

section \<open>Properties\<close>


definition sample_lib :: mmdb_lib where
  "sample_lib = \<lparr>lookup_sockaddr = \<lambda>_ _. (0, True, (0, 0)),
     get_value = \<lambda>_ path. if path = [''country'', ''iso_code''] then (0, True, Utf8String ''US'') else (9, False, OtherValue)\<rparr>"

definition sample_env :: server_env where
  "sample_env = \<lparr>env_pton4 = dotted_quad, env_pton6 = loopback6, env_mmdb = sample_lib, env_lib_version = ''1.12.2'',
     env_ub = \<lambda>_. 0, env_wall = \<lambda>_. 0, env_steady = 0\<rparr>"

definition country_only :: GeoIpDatabases where
  "country_only = no_databases\<lparr>country_open := True\<rparr>"

definition fresh_worker :: worker_state where
  "fresh_worker = \<lparr>ws_metrics = zero_metrics, ws_log = [], ws_sent = [], ws_closed = []\<rparr>"

lemma accepts_all_bytewise: "accepts_all bytes (replicate (length bytes) (Sent 1))"
proof -
  have "sends_fit n (replicate n (Sent 1))" for n by (induction n) simp_all
  then show ?thesis by (simp add: accepts_all_def useful_sends_def)
qed

definition sample_request :: HttpRequest where
  "sample_request = \<lparr>req_method = ''GET'', req_path = ''/lookup'', req_query = [(''ip'', ''8.8.8.8'')], req_accept = []\<rparr>"

definition sample_reply :: string where
  "sample_reply = build_http_response (lookup_response sample_env country_only (Some ''8.8.8.8'') Json) True"

lemma sample_address: "address_of sample_env ''8.8.8.8'' = Some (SockaddrIn 0 0x08080808)"
  by (simp add: address_of_def sample_env_def dotted_quad_def octet_def isdigit_def nat_of_digits_def)

lemma sample_lookup:
  "\<not> any_db_failed sample_env country_only a \<and> lookup_spec (env_mmdb sample_env) country_only a
     = empty_result\<lparr>found := True, country_code := Some ''US''\<rparr>"
  by (simp add: any_db_failed_def db_failed_def lookup_spec_def country_only_def no_databases_def db_entry_def sample_env_def
      sample_lib_def empty_result_def get_string_def Let_def)


text \<open>C2: every connection ends, and its descriptor is closed exactly once: once the deadline has passed and
  the peer has gone or taken the answer, the worker has returned; all it can have sent is a beginning of one well-formed response whose status is 200,
  400, 404, 405 or 500 -- whatever bytes the client sent.\<close>

theorem connection_ends:
  assumes "\<exists>e \<in> set es. now + 5 * 1000000000 \<le> clock_now e" "SendFailed \<in> set sends"
  shows "\<exists>ws' bytes n. handle_connection env cfg s dbs fd now es sends ws = Some ws'
    \<and> ws_closed ws' = ws_closed ws @ [fd] \<and> ws_sent ws' = ws_sent ws @ take n bytes \<and> proper_reply bytes"
proof -
  obtain rr raw where r: "read_http_head (max_request_bytes cfg) 5 now es = Some (rr, raw)"
    using read_http_head_ends [OF assms(1)] by blast
  have silent: "\<exists>bytes n. ws_sent (close_fd fd ws) = ws_sent ws @ take n bytes \<and> proper_reply bytes"
    by (intro exI [of _ "[]"]) (simp add: close_fd_def proper_reply_def)
  show ?thesis
  proof (cases rr)
    case Ok
    obtain resp is_head m logs where h: "handle_request env s dbs raw (ws_metrics ws) = ((resp, is_head), m, logs)"
      by (metis surj_pair)
    then have "proper_reply (build_http_response resp (\<not> is_head))"
      using handle_request_response [of env s dbs raw "ws_metrics ws"] by (intro response_proper) (simp_all add: response_to_def)
    with Ok r h reply_ends [OF assms(2)] show ?thesis
      by (fastforce simp: handle_connection_def)
  next
    case TooLarge
    have "proper_reply (build_http_response (make_error_response 400 ''request too large'' Json) True)"
      by (rule error_proper) (simp add: known_status_def)
    with TooLarge r reply_ends [OF assms(2)] show ?thesis by (fastforce simp: handle_connection_def Let_def)
  qed (use r silent in \<open>auto simp: handle_connection_def close_fd_def\<close>)
qed

theorem connection_ends_witness:
  "\<exists>ws' bytes n. handle_connection sample_env (default_config 4) 0 country_only 9 0
      [one_shot 0 ''GET'', one_shot 5000000000 []] [Sent 2, SendEINTR, SendFailed] fresh_worker = Some ws'
    \<and> ws_closed ws' = ws_closed fresh_worker @ [9] \<and> ws_sent ws' = ws_sent fresh_worker @ take n bytes \<and> proper_reply bytes"
  by (rule connection_ends) (simp_all add: one_shot_def)

text \<open>C4: the status of the response to a parsed request is decided exactly by the method, the path, the \<^verbatim>\<open>ip\<close>
  parameter and the databases: 405 for any method but GET and HEAD, 400 for a lookup without a valid address, 500 if a database fails
  on the address, 404 for an unknown path or an address without an entry, and 200 in the remaining cases.\<close>

theorem request_status_exact:
  assumes "pton_documented (env_pton4 env) (env_pton6 env)" "parse_http_request raw = Some req"
    and "st = resp_status (response_to env s dbs raw m)" "addr = Option.bind (find_query_param req ''ip'') (address_of env)"
  shows "(st = 405 \<longleftrightarrow> req_method req \<notin> {''GET'', ''HEAD''})
    \<and> (st = 400 \<longleftrightarrow> req_method req \<in> {''GET'', ''HEAD''} \<and> req_path req = ''/lookup'' \<and> addr = None)
    \<and> (st = 500 \<longleftrightarrow> req_method req \<in> {''GET'', ''HEAD''} \<and> req_path req = ''/lookup'' \<and> (\<exists>a. addr = Some a \<and> any_db_failed env dbs a))
    \<and> (st = 404 \<longleftrightarrow> req_method req \<in> {''GET'', ''HEAD''} \<and> (req_path req \<notin> {''/lookup'', ''/health'', ''/metrics''}
        \<or> req_path req = ''/lookup'' \<and> (\<exists>a. addr = Some a \<and> \<not> any_db_failed env dbs a \<and> \<not> found (lookup_spec (env_mmdb env) dbs a))))
    \<and> (st = 200 \<longleftrightarrow> req_method req \<in> {''GET'', ''HEAD''} \<and> (req_path req \<in> {''/health'', ''/metrics''}
        \<or> req_path req = ''/lookup'' \<and> (\<exists>a. addr = Some a \<and> \<not> any_db_failed env dbs a \<and> found (lookup_spec (env_mmdb env) dbs a))))"
proof (cases "req_method req = ''GET'' \<or> req_method req = ''HEAD''")
  case False
  then have "st = 405" using assms(2,3) by (simp add: response_to_def handle_request_def Let_def)
  with False show ?thesis by simp
next
  case True
  show ?thesis
  proof (cases "req_path req = ''/lookup''")
    case False
    with True have "st = (if req_path req \<in> {''/health'', ''/metrics''} then 200 else 404)"
      using assms(3) handled_parsed [OF assms(2) True]
      by (simp add: response_to_def serve_health_def serve_metrics_def Let_def empty_response_def)
    with True False show ?thesis by simp
  next
    case lookup: True
    have "address_of env [] = None" using address_of_nonempty [OF assms(1)] by (cases "address_of env []") auto
    moreover have "st = resp_status (lookup_response env dbs (find_query_param req ''ip'') (negotiate_format (req_accept req)))"
      using assms(3) handled_lookup [OF assms(1,2) True lookup] by (simp add: response_to_def)
    ultimately have "st = (case addr of None \<Rightarrow> 400 | Some a \<Rightarrow> if any_db_failed env dbs a then 500
        else if found (lookup_spec (env_mmdb env) dbs a) then 200 else 404)"
      using assms(4) by (cases "find_query_param req ''ip''") (auto simp: lookup_response_def Let_def split: option.split)
    with True lookup show ?thesis by (cases addr) simp_all
  qed
qed

theorem request_status_exact_witness:
  "resp_status (response_to sample_env 0 country_only (''GET /lookup?ip=x HTTP/1.1'' @ [CR, LF, CR, LF]) zero_metrics) = 400"
proof -
  let ?raw = "''GET /lookup?ip=x HTTP/1.1'' @ [CR, LF, CR, LF]"
  let ?req = "\<lparr>req_method = ''GET'', req_path = ''/lookup'', req_query = [(''ip'', ''x'')], req_accept = []\<rparr>"
  have p: "parse_http_request ?raw = Some ?req" by code_simp
  have "pton_documented (env_pton4 sample_env) (env_pton6 sample_env)"
    using example_pton_documented by (simp add: sample_env_def)
  moreover have "address_of sample_env ''x'' = None"
    by (simp add: address_of_def sample_env_def dotted_quad_def octet_def isdigit_def loopback6_def)
  ultimately show ?thesis
    using request_status_exact [OF _ p refl refl, of sample_env 0 country_only zero_metrics] by (simp add: find_query_param_def)
qed

text \<open>C23: a HEAD request is answered like the same request with GET: of two connections that differ only in the method, the
  bytes sent on the HEAD connection are a response with the same status, the same headers except Content-Type (in particular the Content-Length of the GET
  response's body) and no body; counters and log are changed alike, and both descriptors are closed once.  The kernel accepts all bytes
  in both cases.\<close>

theorem head_like_get:
  assumes "parse_http_request raw1 = Some (req\<lparr>req_method := ''GET''\<rparr>)" "parse_http_request raw2 = Some (req\<lparr>req_method := ''HEAD''\<rparr>)"
    and "read_http_head (max_request_bytes cfg) 5 now1 es1 = Some (Ok, raw1)" "read_http_head (max_request_bytes cfg) 5 now2 es2 = Some (Ok, raw2)"
  shows "\<exists>b1 b2 st ct hs body. read_response b1 = Some (st, (''Content-Type'', ct) # hs, body) \<and> read_response b2 = Some (st, hs, [])
    \<and> (''Content-Length'', nat_to_string (length body)) \<in> set hs
    \<and> (\<forall>sends1 sends2. accepts_all b1 sends1 \<and> accepts_all b2 sends2 \<longrightarrow>
        (\<exists>ws1 ws2. handle_connection env cfg s dbs fd now1 es1 sends1 ws = Some ws1
          \<and> handle_connection env cfg s dbs fd now2 es2 sends2 ws = Some ws2
          \<and> ws_sent ws1 = ws_sent ws @ b1 \<and> ws_sent ws2 = ws_sent ws @ b2
          \<and> ws_metrics ws1 = ws_metrics ws2 \<and> ws_log ws1 = ws_log ws2
          \<and> ws_closed ws1 = ws_closed ws @ [fd] \<and> ws_closed ws2 = ws_closed ws @ [fd]))"
proof -
  obtain resp m logs where h: "handle_request env s dbs raw1 (ws_metrics ws) = ((resp, False), m, logs)"
    "handle_request env s dbs raw2 (ws_metrics ws) = ((resp, True), m, logs)"
    using handled_dispatch [OF assms(1)] handled_dispatch [OF assms(2)] by simp (metis surj_pair)
  let ?b1 = "build_http_response resp True" and ?b2 = "build_http_response resp False"
  have "list_all header_ok (resp_headers resp)"
    using h handle_request_response [of env s dbs raw1 "ws_metrics ws"] by (simp add: response_to_def)
  from read_built_response [OF this, of True] read_built_response [OF this, of False]
  obtain st ct hs body where "read_response ?b1 = Some (st, (''Content-Type'', ct) # hs, body)" "read_response ?b2 = Some (st, hs, [])"
    "(''Content-Length'', nat_to_string (length body)) \<in> set hs"
    by (simp add: automatic_headers_def)
  moreover have "handle_connection env cfg s dbs fd now1 es1 sends1 ws = Some (close_fd fd (ws\<lparr>ws_metrics := record_response (resp_status resp) m,
      ws_log := ws_log ws @ logs, ws_sent := ws_sent ws @ ?b1\<rparr>))" if "accepts_all ?b1 sends1" for sends1
    using assms(3) h that by (simp add: handle_connection_def reply_complete)
  moreover have "handle_connection env cfg s dbs fd now2 es2 sends2 ws = Some (close_fd fd (ws\<lparr>ws_metrics := record_response (resp_status resp) m,
      ws_log := ws_log ws @ logs, ws_sent := ws_sent ws @ ?b2\<rparr>))" if "accepts_all ?b2 sends2" for sends2
    using assms(4) h that by (simp add: handle_connection_def reply_complete)
  ultimately show ?thesis
    by (intro exI [of _ ?b1] exI [of _ ?b2] exI [of _ st] exI [of _ ct] exI [of _ hs] exI [of _ body]) (simp add: close_fd_def)
qed

theorem head_like_get_witness:
  "\<exists>b1 b2 ws1 ws2. handle_connection sample_env (default_config 4) 0 country_only 9 0
      [one_shot 0 (''GET / HTTP/1.1'' @ [CR, LF, CR, LF])] (replicate (length b1) (Sent 1)) fresh_worker = Some ws1
    \<and> handle_connection sample_env (default_config 4) 0 country_only 9 0
      [one_shot 0 (''HEAD / HTTP/1.1'' @ [CR, LF, CR, LF])] (replicate (length b2) (Sent 1)) fresh_worker = Some ws2
    \<and> ws_sent ws1 = b1 \<and> ws_sent ws2 = b2 \<and> ws_metrics ws1 = ws_metrics ws2"
proof -
  let ?req = "\<lparr>req_method = [], req_path = ''/'', req_query = [], req_accept = []\<rparr>"
  have p: "parse_http_request (''GET / HTTP/1.1'' @ [CR, LF, CR, LF]) = Some (?req\<lparr>req_method := ''GET''\<rparr>)"
    "parse_http_request (''HEAD / HTTP/1.1'' @ [CR, LF, CR, LF]) = Some (?req\<lparr>req_method := ''HEAD''\<rparr>)"
    by code_simp+
  have r: "read_http_head (max_request_bytes (default_config 4)) 5 0 [one_shot 0 (''GET / HTTP/1.1'' @ [CR, LF, CR, LF])]
      = Some (Ok, ''GET / HTTP/1.1'' @ [CR, LF, CR, LF])"
    "read_http_head (max_request_bytes (default_config 4)) 5 0 [one_shot 0 (''HEAD / HTTP/1.1'' @ [CR, LF, CR, LF])]
      = Some (Ok, ''HEAD / HTTP/1.1'' @ [CR, LF, CR, LF])"
    by (simp_all add: read_http_head_def one_shot_def default_config_def Let_def)
  from head_like_get [OF p r, of sample_env 0 country_only 9 fresh_worker] accepts_all_bytewise show ?thesis
    by (fastforce simp: fresh_worker_def)
qed

text \<open>C15: the counters add up however the workers interleave: for any order of the atomic updates that a set of connections
  performs, the counters end as if the connections had been served one after the other, and both the number of requests and
  the number of responses, modulo \<open>2\<^sup>6\<^sup>4\<close>, have grown by exactly the number of connections that were answered.\<close>

theorem counters_any_interleaving:
  assumes "mset ops = mset (concat (map (conn_ops cfg) cs))" "serve_all cfg s cs ws = Some ws'"
  shows "ws_metrics ws' = fold apply_metric_op ops (ws_metrics ws)
    \<and> requests_total (ws_metrics ws') = requests_total (ws_metrics ws) + of_nat (length (filter (conn_answered cfg) cs))
    \<and> responses_total (ws_metrics ws') = responses_total (ws_metrics ws) + of_nat (length (filter (conn_answered cfg) cs))"
  using serve_all_counters [OF assms(2)] metric_ops_permute [OF assms(1)] all_ops_counters [of cfg cs "ws_metrics ws"] by simp

definition sample_conn :: conn where
  "sample_conn = \<lparr>conn_env = sample_env, conn_dbs = country_only, conn_fd = 9, conn_now = 0,
     conn_reads = [one_shot 0 ''abcde''], conn_sends = [SendFailed]\<rparr>"

definition tiny_config :: Config where
  "tiny_config = (default_config 4)\<lparr>max_request_bytes := 4\<rparr>"

theorem counters_any_interleaving_witness:
  "\<exists>ws'. serve_all tiny_config 0 [sample_conn, sample_conn] fresh_worker = Some ws'
    \<and> ws_metrics ws' = fold apply_metric_op [CountResponse 400, CountRequest [], CountResponse 400, CountRequest []] zero_metrics
    \<and> requests_total (ws_metrics ws') = 2 \<and> responses_total (ws_metrics ws') = 2"
proof -
  let ?ops = "[CountResponse 400, CountRequest [], CountResponse 400, CountRequest []]"
  have r: "read_http_head (max_request_bytes tiny_config) 5 0 [one_shot 0 ''abcde''] = Some (TooLarge, ''abcde'')"
    by (simp add: read_http_head_def one_shot_def tiny_config_def Let_def)
  have "\<exists>ws'. handle_connection (conn_env sample_conn) tiny_config 0 (conn_dbs sample_conn) (conn_fd sample_conn)
      (conn_now sample_conn) (conn_reads sample_conn) (conn_sends sample_conn) ws = Some ws'" for ws
    using reply_ends [of "[SendFailed]" 9] by (fastforce simp: sample_conn_def handle_connection_def r Let_def)
  then obtain ws' where ws': "serve_all tiny_config 0 [sample_conn, sample_conn] fresh_worker = Some ws'"
    by (metis bind.bind_lunit serve_all.simps)
  have "mset ?ops = mset (concat (map (conn_ops tiny_config) [sample_conn, sample_conn]))"
    by (simp add: conn_ops_def connection_ops_def sample_conn_def r)
  note c = counters_any_interleaving [OF this ws']
  have "requests_total zero_metrics = 0" "responses_total zero_metrics = 0" "ws_metrics fresh_worker = zero_metrics"
    by (simp_all add: requests_total_def responses_total_def zero_metrics_def fresh_worker_def)
  moreover have "conn_answered tiny_config sample_conn" by (simp add: conn_answered_def answered_def sample_conn_def r)
  ultimately show ?thesis using c ws' by (intro exI [of _ ws'] conjI) (simp_all add: known_status_def)
qed

text \<open>C14: SIGHUP reloads every configured database and never loses one: a slot whose file opens holds the new file under a
  fresh mapping, every other slot keeps the handle it had, the handles stay consistent with the mappings (no leak, no double close), and the
  last message says whether anything failed.\<close>

theorem reload_keeps_service:
  assumes "handles_ok s" "reload_databases env cfg answers s = (s', logs)"
  shows "handles_ok s'
    \<and> (\<forall>d. if slot_path cfg d = [] \<or> isl (answers d) then slot_handle (fst s') d = slot_handle (fst s) d
        else \<exists>h. slot_handle (fst s') d = Some h \<and> answers d = Inr (mm_metadata h) \<and> mapping h \<notin> set (live (snd s)))
    \<and> last logs = log_info (if \<forall>d. slot_path cfg d = [] \<or> \<not> isl (answers d) then ''database reload complete''
        else ''database reload finished with errors'')"
  using assms(2)
proof (rule reload_databases_effects)
  fix s1 s2
  assume e: "slot_effect CountrySlot (country_db cfg) (answers CountrySlot) s s1"
    "slot_effect AsnSlot (asn_db cfg) (answers AsnSlot) s1 s2" "slot_effect CitySlot (city_db cfg) (answers CitySlot) s2 s'"
    and l: "last logs = log_info (if reload_ok cfg answers then ''database reload complete'' else ''database reload finished with errors'')"
  have "handles_ok s'" using e assms(1) by (simp add: slot_effect_def)
  moreover have "x \<notin> set (live (snd s))" if "next_mapping (snd s) \<le> x" for x
    using assms(1) that unfolding handles_ok_def case_prod_unfold by (meson leD)
  moreover have "reload_ok cfg answers \<longleftrightarrow> (\<forall>d. slot_path cfg d = [] \<or> \<not> isl (answers d))"
    by (auto simp: reload_ok_def opens_def)
  ultimately show ?thesis using reload_databases_slots [OF assms(2)] l by (simp add: opens_def) metis
qed

theorem reload_keeps_service_witness:
  "\<exists>s' logs. reload_databases sample_env ((default_config 4)\<lparr>city_db := ''c'', asn_db := ''a''\<rparr>)
      (\<lambda>d. if d = CitySlot then Inl ''gone'' else Inr sample_metadata) (no_databases, fresh_heap) = (s', logs)
    \<and> handles_ok s' \<and> slot_handle (fst s') CitySlot = None
    \<and> last logs = log_info ''database reload finished with errors''"
proof -
  obtain s' logs where r: "reload_databases sample_env ((default_config 4)\<lparr>city_db := ''c'', asn_db := ''a''\<rparr>)
      (\<lambda>d. if d = CitySlot then Inl ''gone'' else Inr sample_metadata) (no_databases, fresh_heap) = (s', logs)" by (metis surj_pair)
  have "handles_ok (no_databases, fresh_heap)" by (rule handles_ok_init) (simp_all add: fresh_heap_def)
  from reload_keeps_service [OF this r] r show ?thesis
    by (simp add: all_slots no_databases_def Let_def)
qed

text \<open>C31: the metrics file is replaced in one step: at each moment it holds what it held before or the new contents, never a text being written; no
  other file than the temporary one is touched; and it holds the new contents at the end exactly if no warning was logged.  The new contents are the rendered
  metrics if the buffered text reaches the disk when the stream is closed, and the part of them that did otherwise, since the code does
  not look at the result of closing.\<close>

theorem metrics_file_atomic:
  assumes "write_metrics_file env cfg s dbs m io fs = (states, logs)" "NUL \<notin> set (metrics_file cfg)"
    and "text = render_prometheus_metrics m (collect_db_infos env dbs) NSHGEOIP_VERSION (env_lib_version env) (uptime_seconds env s)"
    and "new = (if length text \<le> io_flushed io then text else take (io_flushed io) text)"
  shows "(\<forall>fs' \<in> set states. fs' (metrics_file cfg) \<in> {fs (metrics_file cfg), Some new}
        \<and> (\<forall>p. p \<notin> {metrics_file cfg, metrics_file cfg @ ''.tmp''} \<longrightarrow> fs' p = fs p))
    \<and> last states (metrics_file cfg) = (if logs = [] then Some new else fs (metrics_file cfg))"
proof -
  have "NUL \<notin> set (metrics_file cfg @ ''.tmp'')" using assms(2) by simp
  then have "c_str (metrics_file cfg @ ''.tmp'') = metrics_file cfg @ ''.tmp''" by (rule c_str_id)
  moreover have "take (io_flushed io) text = new" using assms(4) by simp
  ultimately show ?thesis using assms(1-3)
    by (cases "io_opens io"; cases "io_insert_fails io"; cases "io_rename_fails io")
      (auto simp: write_metrics_file_def Let_def)
qed

definition sample_text :: string where
  "sample_text = render_prometheus_metrics zero_metrics (collect_db_infos sample_env country_only) NSHGEOIP_VERSION
     (env_lib_version sample_env) (uptime_seconds sample_env 0)"

definition sample_io :: metrics_io where
  "sample_io = \<lparr>io_opens = True, io_insert_fails = Some 3, io_flushed = length sample_text, io_rename_fails = None\<rparr>"

theorem metrics_file_atomic_witness:
  "\<exists>states logs. write_metrics_file sample_env ((default_config 4)\<lparr>metrics_file := ''m''\<rparr>) 0 country_only zero_metrics
      sample_io [''m'' \<mapsto> ''old''] = (states, logs) \<and> last states ''m'' = Some ''old''"
proof -
  let ?cfg = "(default_config 4)\<lparr>metrics_file := ''m''\<rparr>"
  obtain states logs where w: "write_metrics_file sample_env ?cfg 0 country_only zero_metrics sample_io [''m'' \<mapsto> ''old''] = (states, logs)"
    by (metis surj_pair)
  then have "logs \<noteq> []" by (auto simp: write_metrics_file_def sample_io_def Let_def)
  with metrics_file_atomic [OF w _ sample_text_def refl] w show ?thesis by (simp add: sample_io_def)
qed

text \<open>If the buffered text cannot be written when the stream is closed, the error is not noticed: the truncated file
  replaces the previous one and nothing is logged.\<close>

theorem metrics_file_truncated:
  "\<exists>states. write_metrics_file env cfg s dbs m \<lparr>io_opens = True, io_insert_fails = None, io_flushed = 0, io_rename_fails = None\<rparr> fs
     = (states, []) \<and> last states (c_str (metrics_file cfg)) = Some []"
  by (simp add: write_metrics_file_def Let_def)

end
