(* ===== verification/Server_Setup.thy ===== *)
theory Server_Setup
  imports Server_Core Thread_Pool
begin

text \<open>
  Start and end of the server: \<^verbatim>\<open>init\<close> with \<^verbatim>\<open>setup_signals\<close>, \<^verbatim>\<open>path_has_live_listener\<close>, \<^verbatim>\<open>ensure_socket_directory\<close>,
  \<^verbatim>\<open>setup_socket\<close>, \<^verbatim>\<open>bind_one_tcp\<close>, \<^verbatim>\<open>setup_tcp_listeners\<close>, then \<^verbatim>\<open>cleanup\<close> and the destructor, all of
  \<^verbatim>\<open>src/src/server.cpp\<close>.

  The operating system is a file system of named objects and a table of open descriptors.  Every system call can fail:
  \<open>sys_fails\<close> says which calls fail and with which \<^verbatim>\<open>errno\<close>; calls that do not fail for such a reason still fail when the file
  system says so (an existing name, a missing file, nobody listening).  \<open>sv_bound\<close> is the kernel's record of the addresses that TCP
  sockets were bound to.  A closed descriptor that was not open sets \<open>sv_bad_fd\<close>.
\<close>

section \<open>The operating system\<close>

datatype errno = EEXIST | ENOENT | EACCES | EADDRINUSE | ECONNREFUSED | EOther nat

datatype syscall =
    SysSigprocmask | SysSignalfd | SysMkdir | SysLstatDir | SysAccess | SysLstatSocket
  | SysProbeSocket | SysConnect | SysUnlinkStale | SysSocket | SysBind | SysChmod | SysListen
  | SysTcpSocket address_family | SysReuseaddr address_family | SysV6only | SysTcpBind address_family
  | SysTcpListen address_family | SysUnlinkCleanup | SysUnlinkDestructor

text \<open>A file is a directory (writable or not), a socket (with a listener or without, and its mode) or something else.\<close>

datatype fs_obj = Directory bool | SocketFile bool nat | OtherFile

record sys =
  sys_fails :: "syscall \<Rightarrow> errno option"
  sys_strerror :: "errno \<Rightarrow> string"
  sys_bind_mode :: nat
  sys_open_db :: "db_slot \<Rightarrow> open_answer"
  sys_ntop4 :: "32 word \<Rightarrow> string"
  sys_ntop6 :: "128 word \<Rightarrow> string"

record server =
  sv_fs :: "string \<Rightarrow> fs_obj option"
  sv_fds :: "int list"
  sv_next_fd :: int
  sv_bad_fd :: bool
  sv_listen_fd :: int
  sv_tcp_listen_fds :: "int list"
  sv_bound :: "(int \<times> sockaddr) list"
  sv_signal_fd :: int
  sv_socket_created :: bool
  sv_dbs :: db_state
  sv_pool :: "ThreadPool option"
  sv_stopped :: "ThreadPool option"
  sv_log :: "log_call list"

definition errno_str :: "sys \<Rightarrow> errno \<Rightarrow> string" where
  "errno_str sys e = sys_strerror sys e"

definition say :: "log_call \<Rightarrow> server \<Rightarrow> server" where
  "say c s = s\<lparr>sv_log := sv_log s @ [c]\<rparr>"

definition open_new_fd :: "server \<Rightarrow> int \<times> server" where
  "open_new_fd s = (sv_next_fd s, s\<lparr>sv_fds := sv_next_fd s # sv_fds s, sv_next_fd := sv_next_fd s + 1\<rparr>)"

definition close_server_fd :: "int \<Rightarrow> server \<Rightarrow> server" where
  "close_server_fd fd s =
     (if fd \<in> set (sv_fds s) then s\<lparr>sv_fds := remove1 fd (sv_fds s)\<rparr> else s\<lparr>sv_bad_fd := True\<rparr>)"

text \<open>
  A step returns the error text, if any, and the new state; \<open>then_ok\<close> is
  \<^verbatim>\<open>if (!f(err)) { return false; }\<close> followed by the rest.
\<close>

type_synonym setup_step = "server \<Rightarrow> string option \<times> server"

definition then_ok :: "setup_step \<Rightarrow> setup_step \<Rightarrow> setup_step" where
  "then_ok f g s = (case f s of (Some err, s1) \<Rightarrow> (Some err, s1) | (None, s1) \<Rightarrow> g s1)"

section \<open>Model\<close>

definition setup_signals :: "sys \<Rightarrow> setup_step" where
  "setup_signals sys s =
     (case sys_fails sys SysSigprocmask of
        Some e \<Rightarrow> (Some (''sigprocmask() failed: '' @ errno_str sys e), s)
      | None \<Rightarrow>
          (case sys_fails sys SysSignalfd of
             Some e \<Rightarrow> (Some (''signalfd() failed: '' @ errno_str sys e), s\<lparr>sv_signal_fd := - 1\<rparr>)
           | None \<Rightarrow> let (fd, s1) = open_new_fd s in (None, s1\<lparr>sv_signal_fd := fd\<rparr>)))"

text \<open>The 108 bytes of \<^verbatim>\<open>sun_path\<close>, the last of which stays zero.\<close>

definition sizeof_sun_path :: nat where
  "sizeof_sun_path = 108"

definition connect_succeeds :: "sys \<Rightarrow> string \<Rightarrow> server \<Rightarrow> bool" where
  "connect_succeeds sys path s \<longleftrightarrow>
     sys_fails sys SysConnect = None \<and> (case sv_fs s path of Some (SocketFile listening _) \<Rightarrow> listening | _ \<Rightarrow> False)"

definition path_has_live_listener :: "sys \<Rightarrow> string \<Rightarrow> server \<Rightarrow> bool \<times> server" where
  "path_has_live_listener sys path s =
     (case sys_fails sys SysProbeSocket of
        Some e \<Rightarrow> (False, s)
      | None \<Rightarrow>
          let (probe_fd, s1) = open_new_fd s;
              rc_ok = connect_succeeds sys (take (sizeof_sun_path - 1) (c_str path)) s1
          in (rc_ok, close_server_fd probe_fd s1))"

definition find_last_of :: "char \<Rightarrow> string \<Rightarrow> nat option" where
  "find_last_of c s = map_option (\<lambda>i. length s - 1 - i) (find_char c (rev s))"

definition ensure_socket_directory :: "sys \<Rightarrow> string \<Rightarrow> setup_step" where
  "ensure_socket_directory sys path s =
     (case find_last_of (CHR ''/'') path of
        None \<Rightarrow> (None, s)
      | Some slash \<Rightarrow>
          if slash = 0 then (None, s)
          else
            let dir = substr path 0 slash;
                mkdir_errno = (case sys_fails sys SysMkdir of Some e \<Rightarrow> Some e
                  | None \<Rightarrow> if sv_fs s (c_str dir) \<noteq> None then Some EEXIST else None)
            in case mkdir_errno of
                 None \<Rightarrow> (None, say (log_info (''created socket directory: '' @ dir))
                   (s\<lparr>sv_fs := (sv_fs s)(c_str dir \<mapsto> Directory True)\<rparr>))
               | Some e \<Rightarrow>
                   if e \<noteq> EEXIST then
                     (Some (''failed to create socket directory '' @ [CHR 0x27] @ dir @ [CHR 0x27] @ '': '' @ errno_str sys e
                       @ '' (if running under systemd, set RuntimeDirectory=nshgeoip; otherwise create it manually, e.g. ''
                       @ [CHR 0x27] @ ''mkdir -p '' @ dir @ [CHR 0x27] @ '')''), s)
                   else
                     (case (sys_fails sys SysLstatDir, sv_fs s (c_str dir)) of
                        (Some e, _) \<Rightarrow> (Some (''failed to stat socket directory '' @ [CHR 0x27] @ dir @ [CHR 0x27] @ '': '' @ errno_str sys e), s)
                      | (None, None) \<Rightarrow> (Some (''failed to stat socket directory '' @ [CHR 0x27] @ dir @ [CHR 0x27] @ '': '' @ errno_str sys ENOENT), s)
                      | (None, Some (Directory writable)) \<Rightarrow>
                          (case sys_fails sys SysAccess of
                             Some e \<Rightarrow> (Some (''socket directory '' @ [CHR 0x27] @ dir @ [CHR 0x27] @ '' exists but is not writable: '' @ errno_str sys e), s)
                           | None \<Rightarrow>
                               if writable then (None, s)
                               else (Some (''socket directory '' @ [CHR 0x27] @ dir @ [CHR 0x27] @ '' exists but is not writable: '' @ errno_str sys EACCES), s))
                      | (None, Some _) \<Rightarrow> (Some (''socket directory path '' @ [CHR 0x27] @ dir @ [CHR 0x27] @ '' exists but is not a directory''), s)))"

text \<open>The first half of \<^verbatim>\<open>setup_socket\<close>: what is at the path already.\<close>

definition remove_stale_socket :: "sys \<Rightarrow> string \<Rightarrow> setup_step" where
  "remove_stale_socket sys path s =
     (case (sys_fails sys SysLstatSocket, sv_fs s (c_str path)) of
        (Some e, _) \<Rightarrow> if e = ENOENT then (None, s) else (Some (''failed to stat socket path '' @ path @ '': '' @ errno_str sys e), s)
      | (None, None) \<Rightarrow> (None, s)
      | (None, Some (SocketFile _ _)) \<Rightarrow>
          (case path_has_live_listener sys path s of
             (True, s1) \<Rightarrow> (Some (''another process is already listening on '' @ path
               @ '' -- refusing to remove its socket. Stop that instance first, or configure a different socket= path.''), s1)
           | (False, s1) \<Rightarrow>
               (case sys_fails sys SysUnlinkStale of
                  Some e \<Rightarrow> (Some (''failed to remove stale socket '' @ path @ '': '' @ errno_str sys e), s1)
                | None \<Rightarrow> (None, say (log_warn (''removed stale socket: '' @ path)) (s1\<lparr>sv_fs := (sv_fs s1)(c_str path := None)\<rparr>))))
      | (None, Some _) \<Rightarrow> (Some (''refusing to remove non-socket file at '' @ path), s))"

text \<open>The second half: create, bind, chmod, listen.\<close>

definition bind_unix_socket :: "sys \<Rightarrow> Config \<Rightarrow> setup_step" where
  "bind_unix_socket sys cfg s =
     (let path = socket_path cfg in
      case sys_fails sys SysSocket of
        Some e \<Rightarrow> (Some (''socket() failed: '' @ errno_str sys e), s\<lparr>sv_listen_fd := - 1\<rparr>)
      | None \<Rightarrow>
          let (fd, s0) = open_new_fd s; s1 = s0\<lparr>sv_listen_fd := fd\<rparr> in
          if length path \<ge> sizeof_sun_path then (Some (''socket path too long: '' @ path), s1)
          else
            (case (sys_fails sys SysBind, sv_fs s1 (c_str path)) of
               (Some e, _) \<Rightarrow> (Some (''bind('' @ path @ '') failed: '' @ errno_str sys e), s1)
             | (None, Some _) \<Rightarrow> (Some (''bind('' @ path @ '') failed: '' @ errno_str sys EADDRINUSE), s1)
             | (None, None) \<Rightarrow>
                 let s2 = s1\<lparr>sv_fs := (sv_fs s1)(c_str path \<mapsto> SocketFile False (sys_bind_mode sys)), sv_socket_created := True\<rparr> in
                 (case sys_fails sys SysChmod of
                    Some e \<Rightarrow> (Some (''chmod('' @ path @ '') failed: '' @ errno_str sys e), s2)
                  | None \<Rightarrow>
                      let s3 = s2\<lparr>sv_fs := (sv_fs s2)(c_str path \<mapsto> SocketFile False (socket_mode cfg))\<rparr> in
                      (case sys_fails sys SysListen of
                         Some e \<Rightarrow> (Some (''listen() failed: '' @ errno_str sys e), s3)
                       | None \<Rightarrow>
                           (None, say (log_info (''listening on unix socket '' @ path @ '' (mode '' @ mode_octal (socket_mode cfg) @ '')''))
                             (s3\<lparr>sv_fs := (sv_fs s3)(c_str path \<mapsto> SocketFile True (socket_mode cfg))\<rparr>))))))"

definition setup_socket :: "sys \<Rightarrow> Config \<Rightarrow> setup_step" where
  "setup_socket sys cfg =
     then_ok (ensure_socket_directory sys (socket_path cfg))
       (then_ok (remove_stale_socket sys (socket_path cfg)) (bind_unix_socket sys cfg))"

text \<open>
  The fields of a \<^typ>\<open>sockaddr\<close> are the numbers that are stored in network order: \<^verbatim>\<open>htons(p)\<close> stores \<open>p\<close>, \<^verbatim>\<open>htonl(INADDR_LOOPBACK)\<close>
  stores 127.0.0.1, \<^verbatim>\<open>in6addr_loopback\<close> is \<open>1\<close>.
\<close>

definition listening_message :: "sys \<Rightarrow> sockaddr \<Rightarrow> string" where
  "listening_message sys addr =
     (case addr of
        SockaddrIn port a \<Rightarrow> ''listening on tcp '' @ sys_ntop4 sys a @ '':'' @ word_text port
      | SockaddrIn6 port a \<Rightarrow> ''listening on tcp '' @ sys_ntop6 sys a @ '':'' @ word_text port
      | SockaddrZero \<Rightarrow> ''listening on tcp :0'')"

definition bind_one_tcp :: "sys \<Rightarrow> address_family \<Rightarrow> sockaddr \<Rightarrow> setup_step" where
  "bind_one_tcp sys fam addr s =
     (case sys_fails sys (SysTcpSocket fam) of
        Some e \<Rightarrow> (Some (''socket() failed for TCP listener: '' @ errno_str sys e), s)
      | None \<Rightarrow>
          let (fd, s1) = open_new_fd s in
          (case sys_fails sys (SysReuseaddr fam) of
             Some e \<Rightarrow> (Some (''setsockopt(SO_REUSEADDR) failed: '' @ errno_str sys e), close_server_fd fd s1)
           | None \<Rightarrow>
               (case (if fam = AF_INET6 then sys_fails sys SysV6only else None) of
                  Some e \<Rightarrow> (Some (''setsockopt(IPV6_V6ONLY) failed: '' @ errno_str sys e), close_server_fd fd s1)
                | None \<Rightarrow>
                    (case sys_fails sys (SysTcpBind fam) of
                       Some e \<Rightarrow> (Some (''bind() failed for TCP listener: '' @ errno_str sys e), close_server_fd fd s1)
                     | None \<Rightarrow>
                         let s2 = s1\<lparr>sv_bound := sv_bound s1 @ [(fd, addr)]\<rparr> in
                         (case sys_fails sys (SysTcpListen fam) of
                            Some e \<Rightarrow> (Some (''listen() failed for TCP listener: '' @ errno_str sys e), close_server_fd fd s2)
                          | None \<Rightarrow>
                              (None, say (log_info (listening_message sys addr))
                                (s2\<lparr>sv_tcp_listen_fds := sv_tcp_listen_fds s2 @ [fd]\<rparr>)))))))"

definition setup_tcp_listeners :: "sys \<Rightarrow> server_env \<Rightarrow> Config \<Rightarrow> setup_step" where
  "setup_tcp_listeners sys env cfg s =
     (if tcp_port cfg = 0 then (None, s)
      else
        let port = (of_int (tcp_port cfg) :: 16 word) in
        if tcp_address cfg = [] then
          then_ok (bind_one_tcp sys AF_INET (SockaddrIn port 0x7F000001))
            (bind_one_tcp sys AF_INET6 (SockaddrIn6 port 1)) s
        else
          (case parse_ip_address (env_pton4 env) (env_pton6 env) (tcp_address cfg) empty_addr of
             (False, _) \<Rightarrow> (Some (''invalid tcp_address: '' @ tcp_address cfg), s)
           | (True, addr) \<Rightarrow>
               (case (addr_family addr, addr_storage addr) of
                  (AF_INET, SockaddrIn _ a) \<Rightarrow> bind_one_tcp sys AF_INET (SockaddrIn port a) s
                | (AF_INET6, SockaddrIn6 _ a) \<Rightarrow> bind_one_tcp sys AF_INET6 (SockaddrIn6 port a) s
                | _ \<Rightarrow> (Some (''unsupported address family for tcp_address: '' @ tcp_address cfg), s))))"

text \<open>One database block of \<^verbatim>\<open>init\<close>.\<close>

definition init_slot ::
  "string \<Rightarrow> string \<Rightarrow> (string \<Rightarrow> db_state \<Rightarrow> string option \<times> db_state) \<Rightarrow> (GeoIpDatabases \<Rightarrow> GeoIpDbMetadata option) \<Rightarrow> setup_step" where
  "init_slot name path open_slot metadata s =
     (if path = [] then (None, s)
      else
        (case open_slot path (sv_dbs s) of
           (Some err, d) \<Rightarrow> (Some err, s\<lparr>sv_dbs := d\<rparr>)
         | (None, d) \<Rightarrow> (None, say (log_info (''opened '' @ name @ '' database: '' @ describe_db path (metadata (fst d))))
             (s\<lparr>sv_dbs := d\<rparr>))))"

definition check_databases :: setup_step where
  "check_databases s =
     (let dbs = fst (sv_dbs s) in
      if \<not> country_open dbs \<and> \<not> asn_open dbs \<and> \<not> city_open dbs
      then (Some ''no databases configured (set country_db, asn_db, and/or city_db)'', s)
      else (None, s))"

definition start_pool :: "Config \<Rightarrow> setup_step" where
  "start_pool cfg s =
     (None, say (log_info (''worker pool started with '' @ int_to_string (threads cfg) @ '' threads''))
       (s\<lparr>sv_pool := Some (new_pool (nat (threads cfg)))\<rparr>))"

definition init :: "sys \<Rightarrow> server_env \<Rightarrow> Config \<Rightarrow> setup_step" where
  "init sys env cfg =
     then_ok (setup_signals sys)
      (then_ok (init_slot ''country'' (country_db cfg) (open_country (sys_open_db sys CountrySlot))
           (country_metadata (env_ub env) (env_wall env CountrySlot)))
       (then_ok (init_slot ''ASN'' (asn_db cfg) (open_asn (sys_open_db sys AsnSlot))
           (asn_metadata (env_ub env) (env_wall env AsnSlot)))
        (then_ok (init_slot ''city'' (city_db cfg) (open_city (sys_open_db sys CitySlot))
           (city_metadata (env_ub env) (env_wall env CitySlot)))
         (then_ok check_databases
          (then_ok (setup_socket sys cfg)
           (then_ok (setup_tcp_listeners sys env cfg) (start_pool cfg)))))))"

text \<open>The constructor, on a machine with the given files and descriptors.\<close>

definition new_server :: "(string \<Rightarrow> fs_obj option) \<Rightarrow> int \<Rightarrow> mmdb_heap \<Rightarrow> server" where
  "new_server fs fd h = \<lparr>sv_fs = fs, sv_fds = [], sv_next_fd = fd, sv_bad_fd = False, sv_listen_fd = - 1,
     sv_tcp_listen_fds = [], sv_bound = [], sv_signal_fd = - 1, sv_socket_created = False, sv_dbs = (no_databases, h), sv_pool = None, sv_stopped = None,
     sv_log = []\<rparr>"

text \<open>Closing the unix listener leaves its socket file without a listener.\<close>

definition stop_listening :: "Config \<Rightarrow> server \<Rightarrow> server" where
  "stop_listening cfg s =
     (case sv_fs s (c_str (socket_path cfg)) of
        Some (SocketFile listening mode) \<Rightarrow>
          if sv_socket_created s then s\<lparr>sv_fs := (sv_fs s)(c_str (socket_path cfg) \<mapsto> SocketFile False mode)\<rparr> else s
      | _ \<Rightarrow> s)"

definition close_listener :: "Config \<Rightarrow> server \<Rightarrow> server" where
  "close_listener cfg s =
     (if sv_listen_fd s \<ge> 0 then stop_listening cfg (close_server_fd (sv_listen_fd s) s) else s)"

definition close_signal :: "server \<Rightarrow> server" where
  "close_signal s = (if sv_signal_fd s \<ge> 0 then close_server_fd (sv_signal_fd s) s else s)"

text \<open>
  \<^verbatim>\<open>pool_->shutdown(); pool_.reset();\<close>: the pool is told to stop and its threads are joined.  \<open>sv_stopped\<close> keeps the pool as it was
  when the joining began; what its workers do from then on is \<^const>\<open>worker_step\<close>.
\<close>

definition stop_pool :: "server \<Rightarrow> server" where
  "stop_pool s = (case sv_pool s of None \<Rightarrow> s | Some p \<Rightarrow> s\<lparr>sv_pool := None, sv_stopped := Some (shutdown p)\<rparr>)"

definition destroy_server :: "sys \<Rightarrow> Config \<Rightarrow> server \<Rightarrow> server" where
  "destroy_server sys cfg s =
     (let s1 = stop_pool s;
          s2 = close_listener cfg s1;
          s3 = fold close_server_fd (sv_tcp_listen_fds s2) s2;
          s4 = close_signal s3;
          s5 = (if sv_socket_created s4 \<and> sys_fails sys SysUnlinkDestructor = None
                then s4\<lparr>sv_fs := (sv_fs s4)(c_str (socket_path cfg) := None)\<rparr> else s4)
      in s5\<lparr>sv_dbs := (no_databases, destroy_databases (fst (sv_dbs s5)) (snd (sv_dbs s5)))\<rparr>)"

definition unlink_errno :: "sys \<Rightarrow> syscall \<Rightarrow> string \<Rightarrow> server \<Rightarrow> errno option" where
  "unlink_errno sys call path s =
     (case sys_fails sys call of Some e \<Rightarrow> Some e | None \<Rightarrow> if sv_fs s path = None then Some ENOENT else None)"

definition unlink_on_cleanup :: "sys \<Rightarrow> Config \<Rightarrow> server \<Rightarrow> server" where
  "unlink_on_cleanup sys cfg s =
     (if \<not> sv_socket_created s then s
      else (case unlink_errno sys SysUnlinkCleanup (c_str (socket_path cfg)) s of
        Some e \<Rightarrow>
          (if e \<noteq> ENOENT then say (log_warn (''failed to remove socket '' @ socket_path cfg @ '': '' @ errno_str sys e)) s
           else say (log_info (''removed socket '' @ socket_path cfg)) s)
      | None \<Rightarrow> say (log_info (''removed socket '' @ socket_path cfg))
          (s\<lparr>sv_fs := (sv_fs s)(c_str (socket_path cfg) := None)\<rparr>))\<lparr>sv_socket_created := False\<rparr>)"

text \<open>\<^verbatim>\<open>if (fd >= 0) { close(fd); fd = -1; }\<close>: the value of the member afterwards.\<close>

definition closed_fd :: "int \<Rightarrow> int" where
  "closed_fd fd = (if fd \<ge> 0 then - 1 else fd)"

definition cleanup :: "sys \<Rightarrow> Config \<Rightarrow> server \<Rightarrow> server" where
  "cleanup sys cfg s =
     (let s1 = stop_pool (say (log_info ''shutting down'') s);
          s2 = (close_listener cfg s1)\<lparr>sv_listen_fd := closed_fd (sv_listen_fd s1)\<rparr>;
          s3 = (fold close_server_fd (sv_tcp_listen_fds s2) s2)\<lparr>sv_tcp_listen_fds := []\<rparr>;
          s4 = unlink_on_cleanup sys cfg s3;
          s5 = (close_signal s4)\<lparr>sv_signal_fd := closed_fd (sv_signal_fd s4)\<rparr>
      in say (log_info ''shutdown complete'') s5)"

section \<open>Descriptors\<close>

definition valid_fd :: "int \<Rightarrow> int list" where
  "valid_fd fd = (if fd \<ge> 0 then [fd] else [])"

definition owned_fds :: "server \<Rightarrow> int list" where
  "owned_fds s = valid_fd (sv_listen_fd s) @ sv_tcp_listen_fds s @ valid_fd (sv_signal_fd s)"

text \<open>The open descriptors are exactly those the object remembers, each once, and the databases' handles are consistent.\<close>

definition fds_ok :: "server \<Rightarrow> bool" where
  "fds_ok s \<longleftrightarrow> mset (sv_fds s) = mset (owned_fds s) \<and> distinct (sv_fds s) \<and> (\<forall>fd \<in> set (sv_fds s). 0 \<le> fd \<and> fd < sv_next_fd s)
     \<and> \<not> sv_bad_fd s \<and> 0 \<le> sv_next_fd s \<and> handles_ok (sv_dbs s)"

text \<open>
  Steps are composed like programs with an exceptional exit: from a state with \<open>P\<close>, the step ends in \<open>Q\<close> or fails in \<open>E\<close>.
\<close>

fun outcome :: "(server \<Rightarrow> bool) \<Rightarrow> (server \<Rightarrow> bool) \<Rightarrow> string option \<times> server \<Rightarrow> bool" where
  "outcome Q E (None, s) = Q s"
| "outcome Q E (Some err, s) = E s"

definition triple :: "(server \<Rightarrow> bool) \<Rightarrow> setup_step \<Rightarrow> (server \<Rightarrow> bool) \<Rightarrow> (server \<Rightarrow> bool) \<Rightarrow> bool" where
  "triple P f Q E \<longleftrightarrow> (\<forall>s. P s \<longrightarrow> outcome Q E (f s))"

lemma tripleI: "(\<And>s. P s \<Longrightarrow> outcome Q E (f s)) \<Longrightarrow> triple P f Q E"
  by (simp add: triple_def)

lemma tripleD: "triple P f Q E \<Longrightarrow> P s \<Longrightarrow> outcome Q E (f s)"
  by (simp add: triple_def)

lemma outcome_then_ok:
  assumes "outcome Q E (f s)" "triple Q g R E"
  shows "outcome R E (then_ok f g s)"
proof -
  obtain r s1 where f: "f s = (r, s1)" by force
  show ?thesis using assms f tripleD [OF assms(2), of s1] by (cases r) (simp_all add: then_ok_def)
qed

lemma triple_then_ok: "triple P f Q E \<Longrightarrow> triple Q g R E \<Longrightarrow> triple P (then_ok f g) R E"
  by (rule tripleI) (auto intro: outcome_then_ok dest: tripleD)

lemma outcome_same [simp]: "outcome Q Q x = Q (snd x)"
  by (cases "(Q, Q, x)" rule: outcome.cases) simp_all

lemma outcome_const: "Q s \<Longrightarrow> E s \<Longrightarrow> outcome Q E (r, s)"
  by (cases r) simp_all

lemma outcome_mono: "outcome Q E x \<Longrightarrow> (\<And>s. Q s \<Longrightarrow> Q' s) \<Longrightarrow> (\<And>s. E s \<Longrightarrow> E' s) \<Longrightarrow> outcome Q' E' x"
  by (cases "(Q, E, x)" rule: outcome.cases) simp_all

lemma triple_pre: "triple P f Q E \<Longrightarrow> (\<And>s. P' s \<Longrightarrow> P s) \<Longrightarrow> triple P' f Q E"
  by (simp add: triple_def)

lemma fds_ok_say [simp]: "fds_ok (say c s) = fds_ok s"
  by (simp add: fds_ok_def owned_fds_def say_def)

lemma fds_ok_fs [simp]: "fds_ok (s\<lparr>sv_fs := x\<rparr>) = fds_ok s" "fds_ok (s\<lparr>sv_pool := p\<rparr>) = fds_ok s"
  "fds_ok (s\<lparr>sv_socket_created := b\<rparr>) = fds_ok s" "fds_ok (s\<lparr>sv_bound := bs\<rparr>) = fds_ok s"
  by (simp_all add: fds_ok_def owned_fds_def)

lemma say_fields [simp]:
  "sv_listen_fd (say c s) = sv_listen_fd s" "sv_tcp_listen_fds (say c s) = sv_tcp_listen_fds s" "sv_signal_fd (say c s) = sv_signal_fd s"
  "sv_next_fd (say c s) = sv_next_fd s" "sv_dbs (say c s) = sv_dbs s" "sv_fds (say c s) = sv_fds s" "sv_bad_fd (say c s) = sv_bad_fd s"
  "sv_socket_created (say c s) = sv_socket_created s" "sv_fs (say c s) = sv_fs s" "sv_pool (say c s) = sv_pool s" "sv_bound (say c s) = sv_bound s"
  by (simp_all add: say_def)

lemma stop_pool_fields [simp]:
  "sv_listen_fd (stop_pool s) = sv_listen_fd s" "sv_tcp_listen_fds (stop_pool s) = sv_tcp_listen_fds s" "sv_signal_fd (stop_pool s) = sv_signal_fd s"
  "sv_next_fd (stop_pool s) = sv_next_fd s" "sv_dbs (stop_pool s) = sv_dbs s" "sv_fds (stop_pool s) = sv_fds s" "sv_bad_fd (stop_pool s) = sv_bad_fd s"
  "sv_socket_created (stop_pool s) = sv_socket_created s" "sv_fs (stop_pool s) = sv_fs s" "sv_pool (stop_pool s) = None"
  "sv_stopped (stop_pool s) = (case sv_pool s of None \<Rightarrow> sv_stopped s | Some p \<Rightarrow> Some (shutdown p))" "sv_log (stop_pool s) = sv_log s"
  by (simp_all add: stop_pool_def split: option.split)

lemma open_new_fd_case [simp]: "(case open_new_fd s of (fd, s1) \<Rightarrow> f fd s1) = f (sv_next_fd s) (snd (open_new_fd s))"
  by (simp add: open_new_fd_def)

text \<open>Opening a probe and closing it again changes nothing but the counter.\<close>

lemma open_close: "close_server_fd (sv_next_fd s) (snd (open_new_fd s)) = s\<lparr>sv_next_fd := sv_next_fd s + 1\<rparr>"
  by (simp add: close_server_fd_def open_new_fd_def)

lemma open_bound_close:
  "close_server_fd (sv_next_fd s) ((snd (open_new_fd s))\<lparr>sv_bound := b\<rparr>) = s\<lparr>sv_next_fd := sv_next_fd s + 1, sv_bound := b\<rparr>"
  by (simp add: close_server_fd_def open_new_fd_def)

lemma fds_ok_next: "fds_ok s \<Longrightarrow> fds_ok (s\<lparr>sv_next_fd := sv_next_fd s + 1\<rparr>)"
  by (auto simp: fds_ok_def owned_fds_def)

lemma fds_ok_fresh: "fds_ok s \<Longrightarrow> sv_next_fd s \<notin> set (sv_fds s) \<and> 0 \<le> sv_next_fd s"
  by (auto simp: fds_ok_def)

definition only_unix :: "server \<Rightarrow> bool" where
  "only_unix s \<longleftrightarrow> sv_listen_fd s = - 1"

definition no_signal :: "server \<Rightarrow> bool" where
  "no_signal s \<longleftrightarrow> sv_signal_fd s = - 1"

lemma fds_ok_signal:
  assumes "fds_ok s" "no_signal s"
  shows "fds_ok ((snd (open_new_fd s))\<lparr>sv_signal_fd := sv_next_fd s\<rparr>)"
  using assms by (auto simp: fds_ok_def owned_fds_def no_signal_def open_new_fd_def valid_fd_def)

lemma fds_ok_listen:
  assumes "fds_ok s" "only_unix s"
  shows "fds_ok ((snd (open_new_fd s))\<lparr>sv_listen_fd := sv_next_fd s\<rparr>)"
  using assms by (auto simp: fds_ok_def owned_fds_def only_unix_def open_new_fd_def valid_fd_def)

lemma fds_ok_tcp:
  assumes "fds_ok s"
  shows "fds_ok ((snd (open_new_fd s))\<lparr>sv_tcp_listen_fds := sv_tcp_listen_fds s @ [sv_next_fd s]\<rparr>)"
  using assms by (auto simp: fds_ok_def owned_fds_def open_new_fd_def)

lemma signals_fds: "triple (\<lambda>s. fds_ok s \<and> no_signal s \<and> only_unix s) (setup_signals sys) (\<lambda>s. fds_ok s \<and> only_unix s) fds_ok"
proof (rule tripleI)
  fix s assume s: "fds_ok s \<and> no_signal s \<and> only_unix s"
  have "s\<lparr>sv_signal_fd := - 1\<rparr> = s" using s by (simp add: no_signal_def)
  with s fds_ok_signal [of s] show "outcome (\<lambda>s. fds_ok s \<and> only_unix s) fds_ok (setup_signals sys s)"
    by (auto simp: setup_signals_def only_unix_def open_new_fd_def split: option.split)
qed

lemma init_slot_fds:
  assumes "\<And>d. handles_ok d \<Longrightarrow> handles_ok (snd (open_slot path d))"
  shows "triple (\<lambda>s. fds_ok s \<and> only_unix s) (init_slot name path open_slot metadata) (\<lambda>s. fds_ok s \<and> only_unix s) fds_ok"
proof (rule tripleI)
  fix s assume s: "fds_ok s \<and> only_unix s"
  then have "handles_ok (snd (open_slot path (sv_dbs s)))" using assms by (simp add: fds_ok_def)
  with s show "outcome (\<lambda>s. fds_ok s \<and> only_unix s) fds_ok (init_slot name path open_slot metadata s)"
    by (auto simp: init_slot_def fds_ok_def owned_fds_def only_unix_def say_def split: prod.split option.split)
qed

lemma check_databases_fds: "triple (\<lambda>s. fds_ok s \<and> only_unix s) check_databases (\<lambda>s. fds_ok s \<and> only_unix s) fds_ok"
  by (rule tripleI) (simp add: check_databases_def Let_def)

lemma only_unix_simps [simp]: "only_unix (say c s) = only_unix s" "only_unix (s\<lparr>sv_fs := x\<rparr>) = only_unix s"
  by (simp_all add: only_unix_def say_def)

lemma find_last_of_bound: "find_last_of c s = Some i \<Longrightarrow> i < length s"
  by (auto simp: find_last_of_def dest!: find_char_Some_bound)

text \<open>Either nothing changes, or a directory that did not exist is created and the step succeeds.\<close>

lemma ensure_effect:
  obtains r where "ensure_socket_directory sys path s = (r, s)"
  | slash c where "slash < length path" "sv_fs s (c_str (substr path 0 slash)) = None"
      "ensure_socket_directory sys path s =
        (None, say c (s\<lparr>sv_fs := (sv_fs s)(c_str (substr path 0 slash) \<mapsto> Directory True)\<rparr>))"
proof (cases "find_last_of (CHR ''/'') path")
  case None
  then show ?thesis by (intro that(1) [of None]) (simp add: ensure_socket_directory_def)
next
  case (Some slash)
  define dir where "dir = substr path 0 slash"
  show ?thesis
  proof (cases "slash \<noteq> 0 \<and> sys_fails sys SysMkdir = None \<and> sv_fs s (c_str dir) = None")
    case True
    then show ?thesis using Some find_last_of_bound [OF Some]
      by (intro that(2) [of slash "log_info (''created socket directory: '' @ dir)"])
        (simp_all add: ensure_socket_directory_def Let_def dir_def del: substr_0)
  next
    case False
    with Some have "snd (ensure_socket_directory sys path s) = s"
      by (simp add: ensure_socket_directory_def Let_def del: substr_0 flip: dir_def split: option.split fs_obj.split prod.split) auto
    then show ?thesis by (intro that(1) [of "fst (ensure_socket_directory sys path s)"]) (metis prod.collapse)
  qed
qed

lemma ensure_fds: "triple (\<lambda>s. fds_ok s \<and> only_unix s) (ensure_socket_directory sys path) (\<lambda>s. fds_ok s \<and> only_unix s) fds_ok"
proof (rule tripleI)
  fix s assume "fds_ok s \<and> only_unix s"
  then show "outcome (\<lambda>s. fds_ok s \<and> only_unix s) fds_ok (ensure_socket_directory sys path s)"
    by (cases rule: ensure_effect [of sys path s]) (simp_all add: outcome_const)
qed

text \<open>A probe leaves the state as it was, but for the descriptor counter.\<close>

lemma probe_state:
  obtains b n where "path_has_live_listener sys path s = (b, s\<lparr>sv_next_fd := n\<rparr>)" "n = sv_next_fd s \<or> n = sv_next_fd s + 1"
    "b \<longleftrightarrow> sys_fails sys SysProbeSocket = None \<and> connect_succeeds sys (take 107 (c_str path)) s"
proof -
  have c: "connect_succeeds sys q (snd (open_new_fd s)) = connect_succeeds sys q s" for q
    by (simp add: connect_succeeds_def open_new_fd_def)
  show ?thesis
  proof (cases "sys_fails sys SysProbeSocket")
    case None
    then have "path_has_live_listener sys path s = (connect_succeeds sys (take 107 (c_str path)) s, s\<lparr>sv_next_fd := sv_next_fd s + 1\<rparr>)"
      by (simp add: path_has_live_listener_def open_close c sizeof_sun_path_def)
    with None show ?thesis
      by (intro that [of "connect_succeeds sys (take 107 (c_str path)) s" "sv_next_fd s + 1"]) simp_all
  next
    case (Some e)
    then show ?thesis by (intro that [of False "sv_next_fd s"]) (simp_all add: path_has_live_listener_def)
  qed
qed

lemma fds_ok_counter: "fds_ok s \<Longrightarrow> n = sv_next_fd s \<or> n = sv_next_fd s + 1 \<Longrightarrow> fds_ok (s\<lparr>sv_next_fd := n\<rparr>)"
  using fds_ok_next by auto

lemma stale_fds: "triple (\<lambda>s. fds_ok s \<and> only_unix s) (remove_stale_socket sys path) (\<lambda>s. fds_ok s \<and> only_unix s) fds_ok"
proof (rule tripleI)
  fix s assume s: "fds_ok s \<and> only_unix s"
  obtain b n where p: "path_has_live_listener sys path s = (b, s\<lparr>sv_next_fd := n\<rparr>)"
    and n: "n = sv_next_fd s \<or> n = sv_next_fd s + 1" by (rule probe_state)
  have "fds_ok (s\<lparr>sv_next_fd := n\<rparr>) \<and> only_unix (s\<lparr>sv_next_fd := n\<rparr>)"
    using s fds_ok_counter [OF _ n] by (simp add: only_unix_def)
  with s p show "outcome (\<lambda>s. fds_ok s \<and> only_unix s) fds_ok (remove_stale_socket sys path s)"
    by (simp add: remove_stale_socket_def split: option.split fs_obj.split bool.split)
qed

lemma bind_unix_fds: "triple (\<lambda>s. fds_ok s \<and> only_unix s) (bind_unix_socket sys cfg) fds_ok fds_ok"
proof (rule tripleI)
  fix s assume s: "fds_ok s \<and> only_unix s"
  then have "s\<lparr>sv_listen_fd := - 1\<rparr> = s" by (simp add: only_unix_def)
  with s fds_ok_listen [of s] show "outcome fds_ok fds_ok (bind_unix_socket sys cfg s)"
    by (simp add: bind_unix_socket_def Let_def split: option.split)
qed

lemma bind_tcp_fds: "triple fds_ok (bind_one_tcp sys fam addr) fds_ok fds_ok"
proof (rule tripleI)
  fix s assume s: "fds_ok s"
  have "sv_tcp_listen_fds (snd (open_new_fd s)) = sv_tcp_listen_fds s" by (simp add: open_new_fd_def)
  moreover have "fds_ok (t\<lparr>sv_bound := b, sv_tcp_listen_fds := l\<rparr>) = fds_ok (t\<lparr>sv_tcp_listen_fds := l\<rparr>)" for t b l
    by (simp add: fds_ok_def owned_fds_def)
  ultimately show "outcome fds_ok fds_ok (bind_one_tcp sys fam addr s)"
    using s fds_ok_tcp [of s] fds_ok_next [of s]
    by (simp add: bind_one_tcp_def open_close open_bound_close Let_def split: option.split)
qed

text \<open>A property that every TCP binding keeps is kept by setting up the TCP listeners.\<close>

lemma tcp_keeps:
  assumes "\<And>fam addr. triple I (bind_one_tcp sys fam addr) I I"
  shows "triple I (setup_tcp_listeners sys env cfg) I I"
proof (rule tripleI)
  fix s assume s: "I s"
  have one: "I (snd (bind_one_tcp sys fam addr s))" for fam addr using tripleD [OF assms s] by simp
  have two: "I (snd (then_ok (bind_one_tcp sys f1 a1) (bind_one_tcp sys f2 a2) s))" for f1 a1 f2 a2
    using tripleD [OF triple_then_ok [OF assms assms] s] by simp
  obtain ok addr where p: "parse_ip_address (env_pton4 env) (env_pton6 env) (tcp_address cfg) empty_addr = (ok, addr)" by force
  from s one two p show "outcome I I (setup_tcp_listeners sys env cfg s)"
    by (cases ok; cases "addr_family addr"; cases "addr_storage addr") (simp_all add: setup_tcp_listeners_def Let_def)
qed

lemma pool_fds: "triple fds_ok (start_pool cfg) fds_ok E"
  by (rule tripleI) (simp add: start_pool_def)

lemma open_slot_handles:
  "handles_ok d \<Longrightarrow> handles_ok (snd (open_country a p d))" "handles_ok d \<Longrightarrow> handles_ok (snd (open_asn a p d))"
  "handles_ok d \<Longrightarrow> handles_ok (snd (open_city a p d))"
  by (cases d; simp add: handles_ok_opens)+

lemma init_fds: "triple (\<lambda>s. fds_ok s \<and> no_signal s \<and> only_unix s) (init sys env cfg) fds_ok fds_ok"
  unfolding init_def setup_socket_def
  by (intro triple_then_ok) (rule signals_fds init_slot_fds open_slot_handles check_databases_fds ensure_fds stale_fds
      bind_unix_fds tcp_keeps [OF bind_tcp_fds] pool_fds | assumption)+

section \<open>Shutting down\<close>

text \<open>Both ways of shutting down close the owned descriptors in the same order.\<close>

lemma stop_listening_fields [simp]:
  "sv_fds (stop_listening cfg s) = sv_fds s" "sv_bad_fd (stop_listening cfg s) = sv_bad_fd s"
  "sv_tcp_listen_fds (stop_listening cfg s) = sv_tcp_listen_fds s" "sv_signal_fd (stop_listening cfg s) = sv_signal_fd s"
  "sv_socket_created (stop_listening cfg s) = sv_socket_created s" "sv_dbs (stop_listening cfg s) = sv_dbs s"
  "sv_listen_fd (stop_listening cfg s) = sv_listen_fd s"
  by (simp_all add: stop_listening_def split: option.split fs_obj.split)

lemma close_one:
  assumes "mset (sv_fds s) = mset (fd # rest)" "distinct (sv_fds s)"
  shows "close_server_fd fd s = s\<lparr>sv_fds := remove1 fd (sv_fds s)\<rparr>" "mset (remove1 fd (sv_fds s)) = mset rest"
proof -
  have "fd \<in> set (sv_fds s)" using assms(1) by (metis list.set_intros(1) set_mset_mset)
  then show "close_server_fd fd s = s\<lparr>sv_fds := remove1 fd (sv_fds s)\<rparr>" by (simp add: close_server_fd_def)
  show "mset (remove1 fd (sv_fds s)) = mset rest" using assms(1) by simp
qed

definition closable :: "int list \<Rightarrow> server \<Rightarrow> bool" where
  "closable fds s \<longleftrightarrow> mset (sv_fds s) = mset fds \<and> distinct fds \<and> \<not> sv_bad_fd s"

lemma closable_distinct: "closable fds s \<Longrightarrow> distinct (sv_fds s)"
  by (metis closable_def mset_eq_imp_distinct_iff)

lemma closable_step: "closable (fd # fds) s \<Longrightarrow> closable fds (close_server_fd fd s)"
  using close_one [of s fd fds] closable_distinct [of "fd # fds" s] by (simp add: closable_def)

lemma closable_fold: "closable (xs @ ys) s \<Longrightarrow> closable ys (fold close_server_fd xs s)"
proof (induction xs arbitrary: s)
  case (Cons x xs)
  from Cons.prems have "closable (xs @ ys) (close_server_fd x s)" using closable_step by simp
  then show ?case using Cons.IH by simp
qed simp

lemma close_keeps [simp]:
  "sv_fs (close_server_fd fd s) = sv_fs s" "sv_tcp_listen_fds (close_server_fd fd s) = sv_tcp_listen_fds s"
  "sv_signal_fd (close_server_fd fd s) = sv_signal_fd s" "sv_socket_created (close_server_fd fd s) = sv_socket_created s"
  "sv_dbs (close_server_fd fd s) = sv_dbs s" "sv_listen_fd (close_server_fd fd s) = sv_listen_fd s"
  by (simp_all add: close_server_fd_def)

lemma fold_close_keeps [simp]:
  "sv_fs (fold close_server_fd xs s) = sv_fs s" "sv_signal_fd (fold close_server_fd xs s) = sv_signal_fd s"
  "sv_socket_created (fold close_server_fd xs s) = sv_socket_created s" "sv_dbs (fold close_server_fd xs s) = sv_dbs s"
  "sv_listen_fd (fold close_server_fd xs s) = sv_listen_fd s"
  by (induction xs arbitrary: s) simp_all

lemma fds_ok_closable: "fds_ok s \<Longrightarrow> closable (owned_fds s) s"
  unfolding fds_ok_def closable_def by (metis mset_eq_imp_distinct_iff)

lemma closable_irrelevant [simp]:
  "closable fds (s\<lparr>sv_fs := x\<rparr>) = closable fds s" "closable fds (s\<lparr>sv_pool := p\<rparr>) = closable fds s"
  "closable fds (s\<lparr>sv_socket_created := b\<rparr>) = closable fds s" "closable fds (s\<lparr>sv_dbs := d\<rparr>) = closable fds s"
  "closable fds (s\<lparr>sv_listen_fd := n\<rparr>) = closable fds s" "closable fds (s\<lparr>sv_tcp_listen_fds := ns\<rparr>) = closable fds s"
  "closable fds (s\<lparr>sv_signal_fd := n\<rparr>) = closable fds s" "closable fds (say c s) = closable fds s"
  "closable fds (stop_listening cfg s) = closable fds s" "closable fds (stop_pool s) = closable fds s"
  by (simp_all add: closable_def say_def)

lemma close_listener_keeps [simp]:
  "sv_tcp_listen_fds (close_listener cfg s) = sv_tcp_listen_fds s" "sv_signal_fd (close_listener cfg s) = sv_signal_fd s"
  "sv_socket_created (close_listener cfg s) = sv_socket_created s" "sv_dbs (close_listener cfg s) = sv_dbs s"
  "p \<noteq> c_str (socket_path cfg) \<Longrightarrow> sv_fs (close_listener cfg s) p = sv_fs s p"
  "\<not> sv_socket_created s \<Longrightarrow> sv_fs (close_listener cfg s) = sv_fs s"
  by (simp_all add: close_listener_def stop_listening_def split: option.split fs_obj.split)

lemma closable_listener:
  "closable (valid_fd (sv_listen_fd s) @ rest) s \<Longrightarrow> closable rest (close_listener cfg s)"
  by (auto simp: close_listener_def valid_fd_def closable_step split: if_splits)

lemma closable_signal: "closable (valid_fd (sv_signal_fd s)) s \<Longrightarrow> closable [] (close_signal s)"
  by (auto simp: close_signal_def valid_fd_def closable_step split: if_splits)

text \<open>The three kinds of descriptors, released in order, with anything else happening in between.\<close>

lemma release_all:
  assumes "closable (owned_fds s) s" "s1 = close_listener cfg s"
    and "closable (sv_tcp_listen_fds s @ tail) s1 \<Longrightarrow> closable tail s2"
    and "tail = valid_fd (sv_signal_fd s)" "sv_signal_fd s2 = sv_signal_fd s"
  shows "closable [] (close_signal s2)"
proof -
  have "closable (sv_tcp_listen_fds s @ tail) s1"
    unfolding assms(2) by (rule closable_listener) (use assms(1,4) in \<open>simp add: owned_fds_def\<close>)
  with assms(3-5) show ?thesis by (intro closable_signal) simp
qed

lemma close_signal_keeps [simp]:
  "sv_fs (close_signal s) = sv_fs s" "sv_socket_created (close_signal s) = sv_socket_created s" "sv_dbs (close_signal s) = sv_dbs s"
  "sv_listen_fd (close_signal s) = sv_listen_fd s" "sv_tcp_listen_fds (close_signal s) = sv_tcp_listen_fds s"
  by (simp_all add: close_signal_def)

lemma closable_Nil: "closable [] s \<longleftrightarrow> sv_fds s = [] \<and> \<not> sv_bad_fd s"
  by (auto simp: closable_def)

lemma destroy_releases:
  assumes "fds_ok s"
  shows "sv_fds (destroy_server sys cfg s) = [] \<and> \<not> sv_bad_fd (destroy_server sys cfg s)
    \<and> live (snd (sv_dbs (destroy_server sys cfg s))) = [] \<and> \<not> bad_close (snd (sv_dbs (destroy_server sys cfg s)))"
proof -
  let ?s = "stop_pool s"
  let ?s3 = "fold close_server_fd (sv_tcp_listen_fds s) (close_listener cfg ?s)"
  have "closable [] (close_signal ?s3)"
  proof (rule release_all [of ?s])
    show "closable (owned_fds ?s) ?s" using fds_ok_closable [OF assms] by (simp add: owned_fds_def)
  qed (use closable_fold in \<open>simp_all\<close>)
  moreover have "handles_ok (sv_dbs s)" using assms by (simp add: fds_ok_def)
  then have "live (destroy_databases (fst (sv_dbs s)) (snd (sv_dbs s))) = []
    \<and> \<not> bad_close (destroy_databases (fst (sv_dbs s)) (snd (sv_dbs s)))" by (intro destroy_closes_all) simp
  ultimately show ?thesis
    by (simp add: destroy_server_def Let_def closable_Nil)
qed

lemma unlink_keeps [simp]:
  "sv_fds (unlink_on_cleanup sys cfg s) = sv_fds s" "sv_bad_fd (unlink_on_cleanup sys cfg s) = sv_bad_fd s"
  "sv_signal_fd (unlink_on_cleanup sys cfg s) = sv_signal_fd s" "sv_dbs (unlink_on_cleanup sys cfg s) = sv_dbs s"
  "sv_listen_fd (unlink_on_cleanup sys cfg s) = sv_listen_fd s" "sv_tcp_listen_fds (unlink_on_cleanup sys cfg s) = sv_tcp_listen_fds s"
  "sv_next_fd (unlink_on_cleanup sys cfg s) = sv_next_fd s" "sv_pool (unlink_on_cleanup sys cfg s) = sv_pool s"
  "\<not> sv_socket_created (unlink_on_cleanup sys cfg s)"
  "closable fds (unlink_on_cleanup sys cfg s) = closable fds s"
  by (simp_all add: unlink_on_cleanup_def say_def closable_def split: option.split)

lemma next_fd_keeps [simp]:
  "sv_next_fd (close_listener cfg s) = sv_next_fd s" "sv_next_fd (fold close_server_fd xs s) = sv_next_fd s"
  "sv_next_fd (close_signal s) = sv_next_fd s"
proof -
  have c: "sv_next_fd (close_server_fd fd s) = sv_next_fd s" for fd s by (simp add: close_server_fd_def)
  show "sv_next_fd (close_listener cfg s) = sv_next_fd s" "sv_next_fd (close_signal s) = sv_next_fd s"
    by (simp_all add: close_listener_def stop_listening_def close_signal_def c split: option.split fs_obj.split)
  show "sv_next_fd (fold close_server_fd xs s) = sv_next_fd s" by (induction xs arbitrary: s) (simp_all add: c)
qed

lemma cleanup_releases:
  assumes "fds_ok s"
  shows "fds_ok (cleanup sys cfg s) \<and> sv_fds (cleanup sys cfg s) = [] \<and> \<not> sv_socket_created (cleanup sys cfg s)"
proof -
  let ?s1 = "stop_pool (say (log_info ''shutting down'') s)"
  let ?s2 = "(close_listener cfg ?s1)\<lparr>sv_listen_fd := closed_fd (sv_listen_fd s)\<rparr>"
  let ?s3 = "(fold close_server_fd (sv_tcp_listen_fds s) ?s2)\<lparr>sv_tcp_listen_fds := []\<rparr>"
  have "closable [] (close_signal (unlink_on_cleanup sys cfg ?s3))"
  proof (rule release_all [of ?s1])
    show "closable (owned_fds ?s1) ?s1" using fds_ok_closable [OF assms] by (simp add: owned_fds_def)
    show "close_listener cfg ?s1 = close_listener cfg ?s1" ..
  qed (use closable_fold in \<open>simp_all\<close>)
  then have c: "sv_fds (close_signal (unlink_on_cleanup sys cfg ?s3)) = []" "\<not> sv_bad_fd (close_signal (unlink_on_cleanup sys cfg ?s3))"
    by (simp_all add: closable_Nil)
  have "cleanup sys cfg s = say (log_info ''shutdown complete'') ((close_signal (unlink_on_cleanup sys cfg ?s3))
      \<lparr>sv_signal_fd := closed_fd (sv_signal_fd s)\<rparr>)"
    by (simp add: cleanup_def Let_def)
  moreover have "valid_fd (closed_fd fd) = []" for fd by (simp add: valid_fd_def closed_fd_def)
  ultimately show ?thesis using assms c by (simp add: fds_ok_def owned_fds_def)
qed

section \<open>Files\<close>

text \<open>
  No file but the socket is touched, except that a missing directory is created; at the socket path is what was there, nothing, or
  the server's own socket.
\<close>

definition fs_inv :: "(string \<Rightarrow> fs_obj option) \<Rightarrow> string \<Rightarrow> server \<Rightarrow> bool" where
  "fs_inv fs path s \<longleftrightarrow> (\<forall>p. p \<noteq> path \<longrightarrow> fs p \<noteq> None \<longrightarrow> sv_fs s p = fs p)
     \<and> (sv_socket_created s \<or> sv_fs s path = fs path \<or> sv_fs s path = None)"

lemma fs_inv_cong: "sv_fs s = sv_fs t \<Longrightarrow> sv_socket_created s = sv_socket_created t \<Longrightarrow> fs_inv fs path s = fs_inv fs path t"
  by (simp add: fs_inv_def)

lemma fs_inv_simps [simp]:
  "fs_inv fs path (say c s) = fs_inv fs path s" "fs_inv fs path (s\<lparr>sv_dbs := d\<rparr>) = fs_inv fs path s"
  "fs_inv fs path (s\<lparr>sv_pool := p\<rparr>) = fs_inv fs path s" "fs_inv fs path (s\<lparr>sv_signal_fd := n\<rparr>) = fs_inv fs path s"
  "fs_inv fs path (s\<lparr>sv_listen_fd := n\<rparr>) = fs_inv fs path s" "fs_inv fs path (s\<lparr>sv_bound := b\<rparr>) = fs_inv fs path s"
  "fs_inv fs path (s\<lparr>sv_tcp_listen_fds := ns\<rparr>) = fs_inv fs path s"
  "fs_inv fs path (s\<lparr>sv_next_fd := n\<rparr>) = fs_inv fs path s" "fs_inv fs path (close_server_fd fd s) = fs_inv fs path s"
  "fs_inv fs path (snd (open_new_fd s)) = fs_inv fs path s"
  by (rule fs_inv_cong; simp add: say_def open_new_fd_def)+

lemma substr_not_path: "slash < length path \<Longrightarrow> substr path 0 slash \<noteq> path"
  by (metis length_take min.absorb4 nless_le substr_0)

lemma no_NUL_substr: "NUL \<notin> set s \<Longrightarrow> c_str (substr s 0 n) = substr s 0 n"
  by (metis c_str_id in_set_takeD substr_0)

lemma signals_fs: "triple (fs_inv fs path) (setup_signals sys) (fs_inv fs path) (fs_inv fs path)"
  by (rule tripleI) (simp add: setup_signals_def split: option.split)

lemma init_slot_fs: "triple (fs_inv fs path) (init_slot name file open_slot metadata) (fs_inv fs path) (fs_inv fs path)"
  by (rule tripleI) (simp add: init_slot_def split: option.split prod.split)

lemma check_fs: "triple (fs_inv fs path) check_databases (fs_inv fs path) (fs_inv fs path)"
  by (rule tripleI) (simp add: check_databases_def Let_def)

lemma ensure_fs:
  assumes "NUL \<notin> set path"
  shows "triple (fs_inv fs path) (ensure_socket_directory sys path) (fs_inv fs path) (fs_inv fs path)"
proof (rule tripleI)
  fix s assume s: "fs_inv fs path s"
  have "fs_inv fs path (s\<lparr>sv_fs := (sv_fs s)(substr path 0 k \<mapsto> d)\<rparr>)" if "k < length path" "sv_fs s (substr path 0 k) = None" for k d
    using s that substr_not_path [OF that(1)] by (auto simp: fs_inv_def simp del: substr_0)
  with s show "outcome (fs_inv fs path) (fs_inv fs path) (ensure_socket_directory sys path s)"
    using assms by (cases rule: ensure_effect [of sys path s]) (simp_all add: no_NUL_substr del: substr_0)
qed

lemma stale_fs:
  assumes "NUL \<notin> set path"
  shows "triple (fs_inv fs path) (remove_stale_socket sys path) (fs_inv fs path) (fs_inv fs path)"
proof (rule tripleI)
  fix s assume s: "fs_inv fs path s"
  obtain b n where p: "path_has_live_listener sys path s = (b, s\<lparr>sv_next_fd := n\<rparr>)" by (rule probe_state)
  have "fs_inv fs path (s\<lparr>sv_next_fd := n, sv_fs := (sv_fs s)(path := None)\<rparr>)"
    using s by (auto simp: fs_inv_def)
  with s p assms show "outcome (fs_inv fs path) (fs_inv fs path) (remove_stale_socket sys path s)"
    by (simp add: remove_stale_socket_def split: option.split fs_obj.split bool.split)
qed

lemma bind_unix_fs:
  assumes "NUL \<notin> set (socket_path cfg)"
  shows "triple (fs_inv fs (socket_path cfg)) (bind_unix_socket sys cfg) (fs_inv fs (socket_path cfg)) (fs_inv fs (socket_path cfg))"
proof (rule tripleI)
  fix s assume s: "fs_inv fs (socket_path cfg) s"
  with assms show "outcome (fs_inv fs (socket_path cfg)) (fs_inv fs (socket_path cfg)) (bind_unix_socket sys cfg s)"
    by (auto simp: bind_unix_socket_def Let_def fs_inv_def open_new_fd_def split: option.split)
qed

lemma bind_tcp_fs: "triple (fs_inv fs path) (bind_one_tcp sys fam addr) (fs_inv fs path) (fs_inv fs path)"
  by (rule tripleI) (simp add: bind_one_tcp_def Let_def split: option.split)

lemma pool_fs: "triple (fs_inv fs path) (start_pool cfg) (fs_inv fs path) E"
  by (rule tripleI) (simp add: start_pool_def)

lemma init_fs:
  assumes "NUL \<notin> set (socket_path cfg)"
  shows "triple (fs_inv fs (socket_path cfg)) (init sys env cfg) (fs_inv fs (socket_path cfg)) (fs_inv fs (socket_path cfg))"
  unfolding init_def setup_socket_def
  by (intro triple_then_ok)
    (rule signals_fs init_slot_fs check_fs ensure_fs [OF assms] stale_fs [OF assms] bind_unix_fs [OF assms]
      tcp_keeps [OF bind_tcp_fs] pool_fs)+

text \<open>Neither way of shutting down touches another file, and the socket the server created is gone in the end.\<close>

lemma destroy_fs:
  assumes "fs_inv fs (socket_path cfg) s" "NUL \<notin> set (socket_path cfg)" "sys_fails sys SysUnlinkDestructor = None"
  shows "(\<forall>p. p \<noteq> socket_path cfg \<longrightarrow> fs p \<noteq> None \<longrightarrow> sv_fs (destroy_server sys cfg s) p = fs p)
    \<and> sv_fs (destroy_server sys cfg s) (socket_path cfg) \<in> {fs (socket_path cfg), None}"
  using assms by (cases "sv_socket_created s") (auto simp: destroy_server_def Let_def fs_inv_def)

lemma cleanup_fs:
  assumes "fs_inv fs (socket_path cfg) s" "NUL \<notin> set (socket_path cfg)" "sys_fails sys SysUnlinkCleanup = None"
  shows "fs_inv fs (socket_path cfg) (cleanup sys cfg s)"
  using assms
  by (cases "sv_socket_created s")
    (auto simp: cleanup_def unlink_on_cleanup_def unlink_errno_def Let_def fs_inv_def split: option.split)

section \<open>Foreign files at the socket path\<close>

text \<open>What a start must not remove: anything but a socket, or a socket somebody listens on.\<close>

fun in_use :: "fs_obj \<Rightarrow> bool" where
  "in_use (SocketFile listening _) = listening"
| "in_use _ = True"

definition untouched :: "string \<Rightarrow> fs_obj \<Rightarrow> server \<Rightarrow> bool" where
  "untouched path obj s \<longleftrightarrow> sv_fs s path = Some obj \<and> \<not> sv_socket_created s"

lemma untouched_simps [simp]:
  "untouched path obj (say c s) = untouched path obj s" "untouched path obj (s\<lparr>sv_dbs := d\<rparr>) = untouched path obj s"
  "untouched path obj (s\<lparr>sv_signal_fd := n\<rparr>) = untouched path obj s" "untouched path obj (s\<lparr>sv_next_fd := n\<rparr>) = untouched path obj s"
  "untouched path obj (s\<lparr>sv_listen_fd := n\<rparr>) = untouched path obj s" "untouched path obj (snd (open_new_fd s)) = untouched path obj s"
  by (simp_all add: untouched_def open_new_fd_def)

lemma triple_False: "triple (\<lambda>s. False) f Q E"
  by (simp add: triple_def)

lemma ensure_untouched: "triple (untouched path obj) (ensure_socket_directory sys path) (untouched path obj) (untouched path obj)"
proof (rule tripleI)
  fix s assume "untouched path obj s"
  then show "outcome (untouched path obj) (untouched path obj) (ensure_socket_directory sys path s)"
    by (cases rule: ensure_effect [of sys path s]) (auto simp: untouched_def simp del: substr_0)
qed

lemma stale_untouched:
  assumes "NUL \<notin> set path" "length path < 108" "in_use obj" "sys_fails sys SysProbeSocket = None" "sys_fails sys SysConnect = None"
  shows "triple (untouched path obj) (remove_stale_socket sys path) (untouched path obj) (untouched path obj)"
proof (rule tripleI)
  fix s assume s: "untouched path obj s"
  obtain b n where p: "path_has_live_listener sys path s = (b, s\<lparr>sv_next_fd := n\<rparr>)"
    and b: "b \<longleftrightarrow> sys_fails sys SysProbeSocket = None \<and> connect_succeeds sys (take 107 (c_str path)) s" by (rule probe_state)
  have "b" if "obj = SocketFile l m" for l m
    using that assms s by (simp add: b connect_succeeds_def untouched_def)
  with s p assms(1) show "outcome (untouched path obj) (untouched path obj) (remove_stale_socket sys path s)"
    by (cases obj) (auto simp: remove_stale_socket_def untouched_def split: option.split)
qed

lemma bind_untouched:
  assumes "NUL \<notin> set (socket_path cfg)"
  shows "triple (untouched (socket_path cfg) obj) (bind_unix_socket sys cfg) (\<lambda>s. False) (untouched (socket_path cfg) obj)"
proof (rule tripleI)
  fix s assume s: "untouched (socket_path cfg) obj s"
  then have "sv_fs (snd (open_new_fd s)) (socket_path cfg) = Some obj" by (simp add: untouched_def open_new_fd_def)
  with s assms show "outcome (\<lambda>s. False) (untouched (socket_path cfg) obj) (bind_unix_socket sys cfg s)"
    by (simp add: bind_unix_socket_def Let_def split: option.split)
qed

lemma init_untouched:
  assumes "NUL \<notin> set (socket_path cfg)" "length (socket_path cfg) < 108" "in_use obj"
    "sys_fails sys SysProbeSocket = None" "sys_fails sys SysConnect = None"
  shows "triple (untouched (socket_path cfg) obj) (init sys env cfg) (\<lambda>s. False) (untouched (socket_path cfg) obj)"
proof -
  let ?U = "untouched (socket_path cfg) obj"
  have "triple ?U (setup_signals sys) ?U ?U" by (rule tripleI) (simp add: setup_signals_def split: option.split)
  moreover have "triple ?U (init_slot name path open_slot metadata) ?U ?U" for name path open_slot metadata
    by (rule tripleI) (simp add: init_slot_def split: option.split prod.split)
  moreover have "triple ?U check_databases ?U ?U" by (rule tripleI) (simp add: check_databases_def Let_def)
  ultimately show ?thesis
    unfolding init_def setup_socket_def
    by (intro triple_then_ok) (rule ensure_untouched stale_untouched [OF assms] bind_untouched [OF assms(1)] triple_False | assumption)+
qed

lemma destroy_untouched: "untouched (socket_path cfg) obj s \<Longrightarrow> sv_fs (destroy_server sys cfg s) (socket_path cfg) = Some obj"
  by (simp add: destroy_server_def Let_def untouched_def)

text \<open>
  The limit on the length of the path matters: a longer path is probed under its first 107 bytes, and the socket is removed before
  the length is checked.
\<close>

lemma long_path_steals_socket:
  assumes "\<And>c. sys_fails sys c = None" "108 \<le> length path" "NUL \<notin> set path" "CHR ''/'' \<notin> set path" "socket_path cfg = path"
    and "sv_fs s path = Some (SocketFile True m)" "sv_fs s (take 107 path) = None"
  shows "\<exists>err s'. setup_socket sys cfg s = (Some err, s') \<and> sv_fs s' path = None"
proof -
  obtain b n where p: "path_has_live_listener sys path s = (b, s\<lparr>sv_next_fd := n\<rparr>)"
    and b: "b \<longleftrightarrow> sys_fails sys SysProbeSocket = None \<and> connect_succeeds sys (take 107 (c_str path)) s" by (rule probe_state)
  have "\<not> b" using assms b by (simp add: connect_succeeds_def)
  then show ?thesis
    using assms p
    by (simp add: setup_socket_def then_ok_def ensure_socket_directory_def find_last_of_def remove_stale_socket_def
        bind_unix_socket_def Let_def sizeof_sun_path_def open_new_fd_def)
qed

section \<open>A successful start\<close>

definition any_open :: "server \<Rightarrow> bool" where
  "any_open s \<longleftrightarrow> (\<exists>d. slot_handle (fst (sv_dbs s)) d \<noteq> None)"

definition started :: "server \<Rightarrow> bool" where
  "started s \<longleftrightarrow> sv_tcp_listen_fds s = [] \<and> sv_bound s = [] \<and> 0 \<le> sv_signal_fd s \<and> 0 \<le> sv_next_fd s"

definition unix_ready :: "Config \<Rightarrow> server \<Rightarrow> bool" where
  "unix_ready cfg s \<longleftrightarrow> 0 \<le> sv_signal_fd s \<and> 0 \<le> sv_listen_fd s \<and> any_open s \<and> sv_socket_created s \<and> length (socket_path cfg) < 108
     \<and> sv_fs s (c_str (socket_path cfg)) = Some (SocketFile True (socket_mode cfg))"

lemma signals_started: "triple (\<lambda>s. sv_tcp_listen_fds s = [] \<and> sv_bound s = [] \<and> 0 \<le> sv_next_fd s) (setup_signals sys) started (\<lambda>_. True)"
  by (rule tripleI) (simp add: setup_signals_def started_def open_new_fd_def split: option.split)

lemma slot_started: "triple started (init_slot name file open_slot metadata) started (\<lambda>_. True)"
  by (rule tripleI) (simp add: init_slot_def started_def split: option.split prod.split)

lemma check_open: "triple started check_databases (\<lambda>s. started s \<and> any_open s) (\<lambda>_. True)"
proof (rule tripleI)
  fix s assume "started s"
  moreover have "any_open s \<longleftrightarrow> country_open (fst (sv_dbs s)) \<or> asn_open (fst (sv_dbs s)) \<or> city_open (fst (sv_dbs s))"
    using all_slots [of "\<lambda>d. slot_handle (fst (sv_dbs s)) d = None"] by (simp add: any_open_def) (simp split: if_splits)
  ultimately show "outcome (\<lambda>s. started s \<and> any_open s) (\<lambda>_. True) (check_databases s)"
    by (simp add: check_databases_def Let_def)
qed

lemma ensure_started: "triple (\<lambda>s. started s \<and> any_open s) (ensure_socket_directory sys path) (\<lambda>s. started s \<and> any_open s) (\<lambda>_. True)"
proof (rule tripleI)
  fix s assume "started s \<and> any_open s"
  then show "outcome (\<lambda>s. started s \<and> any_open s) (\<lambda>_. True) (ensure_socket_directory sys path s)"
    by (cases rule: ensure_effect [of sys path s]) (simp_all add: outcome_const started_def any_open_def del: substr_0)
qed

lemma stale_started: "triple (\<lambda>s. started s \<and> any_open s) (remove_stale_socket sys path) (\<lambda>s. started s \<and> any_open s) (\<lambda>_. True)"
proof (rule tripleI)
  fix s assume s: "started s \<and> any_open s"
  obtain b n where p: "path_has_live_listener sys path s = (b, s\<lparr>sv_next_fd := n\<rparr>)"
    and "n = sv_next_fd s \<or> n = sv_next_fd s + 1" by (rule probe_state)
  then have "0 \<le> n" using s by (auto simp: started_def)
  with s p show "outcome (\<lambda>s. started s \<and> any_open s) (\<lambda>_. True) (remove_stale_socket sys path s)"
    by (simp add: remove_stale_socket_def started_def any_open_def split: option.split fs_obj.split bool.split)
qed

text \<open>The TCP listeners are bound to the given addresses, in order.\<close>

definition tcp_at :: "sockaddr list \<Rightarrow> server \<Rightarrow> bool" where
  "tcp_at addrs s \<longleftrightarrow> length (sv_tcp_listen_fds s) = length addrs \<and> sv_bound s = zip (sv_tcp_listen_fds s) addrs"

lemma bind_ready:
  "triple (\<lambda>s. started s \<and> any_open s) (bind_unix_socket sys cfg) (\<lambda>s. unix_ready cfg s \<and> tcp_at [] s) (\<lambda>_. True)"
  by (rule tripleI)
    (simp add: bind_unix_socket_def started_def any_open_def unix_ready_def tcp_at_def open_new_fd_def sizeof_sun_path_def Let_def split: option.split)

lemma tcp_one_ready:
  "triple (\<lambda>s. unix_ready cfg s \<and> tcp_at addrs s) (bind_one_tcp sys fam addr)
     (\<lambda>s. unix_ready cfg s \<and> tcp_at (addrs @ [addr]) s) (\<lambda>_. True)"
  by (rule tripleI)
    (simp add: bind_one_tcp_def unix_ready_def any_open_def tcp_at_def open_new_fd_def say_def Let_def split: option.split)

text \<open>The addresses a configuration asks for: none without a port; both loopback addresses by default; else the one given.\<close>

definition tcp_endpoints :: "server_env \<Rightarrow> Config \<Rightarrow> sockaddr list option" where
  "tcp_endpoints env cfg =
     (if tcp_port cfg = 0 then Some []
      else if tcp_address cfg = [] then
        Some [SockaddrIn (of_int (tcp_port cfg)) 0x7F000001, SockaddrIn6 (of_int (tcp_port cfg)) 1]
      else
        (case env_pton4 env (c_str (tcp_address cfg)) of
           Some a \<Rightarrow> Some [SockaddrIn (of_int (tcp_port cfg)) a]
         | None \<Rightarrow> map_option (\<lambda>a. [SockaddrIn6 (of_int (tcp_port cfg)) a]) (env_pton6 env (c_str (tcp_address cfg)))))"

definition tcp_as_configured :: "server_env \<Rightarrow> Config \<Rightarrow> server \<Rightarrow> bool" where
  "tcp_as_configured env cfg s \<longleftrightarrow> (\<exists>addrs. tcp_endpoints env cfg = Some addrs \<and> tcp_at addrs s)"

lemma tcp_ready:
  "triple (\<lambda>s. unix_ready cfg s \<and> tcp_at [] s) (setup_tcp_listeners sys env cfg)
     (\<lambda>s. unix_ready cfg s \<and> tcp_as_configured env cfg s) (\<lambda>_. True)"
proof (rule tripleI)
  fix s assume s: "unix_ready cfg s \<and> tcp_at [] s"
  let ?Q = "\<lambda>s. unix_ready cfg s \<and> tcp_as_configured env cfg s"
  have one: "outcome ?Q (\<lambda>_. True) (bind_one_tcp sys fam addr s)" if "tcp_endpoints env cfg = Some [addr]" for fam addr
    by (rule outcome_mono [OF tripleD [OF tcp_one_ready s]]) (use that in \<open>simp_all add: tcp_as_configured_def\<close>)
  have two: "outcome ?Q (\<lambda>_. True) (then_ok (bind_one_tcp sys f1 a1) (bind_one_tcp sys f2 a2) s)"
    if "tcp_endpoints env cfg = Some [a1, a2]" for f1 a1 f2 a2
    by (rule outcome_mono [OF tripleD [OF triple_then_ok [OF tcp_one_ready tcp_one_ready] s]])
      (use that in \<open>simp_all add: tcp_as_configured_def\<close>)
  show "outcome ?Q (\<lambda>_. True) (setup_tcp_listeners sys env cfg s)"
  proof (cases "tcp_port cfg = 0 \<or> tcp_address cfg = []")
    case True
    then show ?thesis using s two by (auto simp: setup_tcp_listeners_def tcp_endpoints_def tcp_as_configured_def Let_def)
  next
    case False
    then show ?thesis
      using one by (auto simp: setup_tcp_listeners_def tcp_endpoints_def parse_ip_address_def empty_addr_def Let_def split: option.split)
  qed
qed

definition ready :: "server_env \<Rightarrow> Config \<Rightarrow> server \<Rightarrow> bool" where
  "ready env cfg s \<longleftrightarrow> unix_ready cfg s \<and> tcp_as_configured env cfg s \<and> sv_pool s = Some (new_pool (nat (threads cfg)))"

lemma pool_ready:
  "triple (\<lambda>s. unix_ready cfg s \<and> tcp_as_configured env cfg s) (start_pool cfg) (ready env cfg) (\<lambda>_. True)"
  by (rule tripleI) (simp add: start_pool_def ready_def unix_ready_def any_open_def tcp_as_configured_def tcp_at_def say_def)

lemma init_ready:
  "triple (\<lambda>s. sv_tcp_listen_fds s = [] \<and> sv_bound s = [] \<and> 0 \<le> sv_next_fd s) (init sys env cfg) (ready env cfg) (\<lambda>_. True)"
  unfolding init_def setup_socket_def
  by (intro triple_then_ok)
    (rule signals_started slot_started check_open ensure_started stale_started bind_ready tcp_ready pool_ready)+

lemma ready_pool: "0 \<le> fd \<Longrightarrow> init sys env cfg (new_server fs fd h) = (None, s) \<Longrightarrow> sv_pool s = Some (new_pool (nat (threads cfg)))"
  using tripleD [OF init_ready [of sys env cfg], of "new_server fs fd h"]
  by (simp add: new_server_def ready_def unix_ready_def)

lemma ready_created: "0 \<le> fd \<Longrightarrow> init sys env cfg (new_server fs fd h) = (None, s) \<Longrightarrow> sv_socket_created s"
  using tripleD [OF init_ready [of sys env cfg], of "new_server fs fd h"]
  by (simp add: new_server_def ready_def unix_ready_def)

section \<open>Properties\<close>

lemma new_server_ok:
  assumes "0 \<le> fd" "live h = []" "\<not> bad_close h"
  shows "fds_ok (new_server fs fd h)" "no_signal (new_server fs fd h)" "only_unix (new_server fs fd h)"
    "fs_inv fs path (new_server fs fd h)"
  using assms handles_ok_init [of h]
  by (simp_all add: new_server_def fds_ok_def owned_fds_def valid_fd_def no_signal_def only_unix_def fs_inv_def)

text \<open>C12: nothing is left behind: whatever system call fails during the start, and also after a successful start with or
  without the regular cleanup, the destructor leaves no descriptor open, closes none twice, releases every database mapping,
  and removes the socket the server created; no other existing file has been touched.\<close>

theorem nothing_left_behind:
  assumes "0 \<le> fd" "live h = []" "\<not> bad_close h" "NUL \<notin> set (socket_path cfg)"
    and "sys_fails sys SysUnlinkDestructor = None" "sys_fails sys SysUnlinkCleanup = None"
    and "init sys env cfg (new_server fs fd h) = (err, s)"
    and "s' = destroy_server sys cfg (if regular then cleanup sys cfg s else s)"
  shows "sv_fds s' = [] \<and> \<not> sv_bad_fd s' \<and> live (snd (sv_dbs s')) = [] \<and> \<not> bad_close (snd (sv_dbs s'))
    \<and> sv_fs s' (socket_path cfg) \<in> {fs (socket_path cfg), None}
    \<and> (\<forall>p. p \<noteq> socket_path cfg \<longrightarrow> fs p \<noteq> None \<longrightarrow> sv_fs s' p = fs p)"
proof -
  note new = new_server_ok [OF assms(1-3)]
  have f: "fds_ok s" using tripleD [OF init_fds [of sys env cfg], of "new_server fs fd h"] new assms(7) by simp
  have i: "fs_inv fs (socket_path cfg) s"
    using tripleD [OF init_fs [OF assms(4), of fs sys env], of "new_server fs fd h"] new(4) assms(7) by simp
  let ?t = "if regular then cleanup sys cfg s else s"
  have "fds_ok ?t" using f cleanup_releases [OF f] by simp
  moreover have "fs_inv fs (socket_path cfg) ?t" using i cleanup_fs [OF i assms(4,6)] by simp
  ultimately show ?thesis using destroy_releases destroy_fs [OF _ assms(4,5)] assms(8) by simp
qed

definition sample_sys :: "syscall set \<Rightarrow> sys" where
  "sample_sys bad = \<lparr>sys_fails = (\<lambda>c. if c \<in> bad then Some (EOther 24) else None), sys_strerror = (\<lambda>_. ''error''),
     sys_bind_mode = 493, sys_open_db = (\<lambda>_. Inr sample_metadata), sys_ntop4 = (\<lambda>_. ''127.0.0.1''), sys_ntop6 = (\<lambda>_. ''::1'')\<rparr>"

definition sample_config :: Config where
  "sample_config = (default_config 4)\<lparr>city_db := ''c.mmdb'', socket_path := ''/run/s'', tcp_port := 8080\<rparr>"

lemma sample_config_path: "NUL \<notin> set (socket_path sample_config)" "length (socket_path sample_config) < 108"
  by (simp_all add: sample_config_def)

theorem nothing_left_behind_witness:
  "\<exists>err s. init (sample_sys {SysTcpBind AF_INET6}) sample_env sample_config (new_server Map.empty 3 fresh_heap) = (err, s)
    \<and> sv_fds (destroy_server (sample_sys {SysTcpBind AF_INET6}) sample_config s) = []
    \<and> sv_fs (destroy_server (sample_sys {SysTcpBind AF_INET6}) sample_config s) (socket_path sample_config) = None"
proof -
  let ?sys = "sample_sys {SysTcpBind AF_INET6}"
  obtain err s where i: "init ?sys sample_env sample_config (new_server Map.empty 3 fresh_heap) = (err, s)" by (metis surj_pair)
  from nothing_left_behind [OF _ _ _ sample_config_path(1) _ _ i refl, where regular = False] i show ?thesis
    by (simp add: fresh_heap_def sample_sys_def)
qed

text \<open>C13: a start does not take the socket of a running server: if something other than a socket, or a socket on which another process listens, is
  at the socket path, the start fails and leaves it as it is, and so does the destructor -- provided that the path is shorter than the 108 bytes of
  \<^verbatim>\<open>sun_path\<close> and that the probe can open a descriptor and its \<^verbatim>\<open>connect\<close> fails only if nobody listens.  Without these conditions it does not
  hold; \<open>long_path_steals_socket\<close> is a counterexample.\<close>

theorem init_never_steals:
  assumes "NUL \<notin> set (socket_path cfg)" "length (socket_path cfg) < 108"
    and "fs (socket_path cfg) = Some obj" "case obj of SocketFile listening _ \<Rightarrow> listening | _ \<Rightarrow> True"
    and "sys_fails sys SysProbeSocket = None" "sys_fails sys SysConnect = None"
  shows "\<exists>err s. init sys env cfg (new_server fs fd h) = (Some err, s) \<and> sv_fs s (socket_path cfg) = Some obj
    \<and> sv_fs (destroy_server sys cfg s) (socket_path cfg) = Some obj"
proof -
  have "in_use obj" using assms(4) by (cases obj) simp_all
  note t = init_untouched [OF assms(1,2) this assms(5,6), of env]
  have "untouched (socket_path cfg) obj (new_server fs fd h)" using assms(3) by (simp add: untouched_def new_server_def)
  from tripleD [OF t this] have "\<exists>err s. init sys env cfg (new_server fs fd h) = (Some err, s) \<and> untouched (socket_path cfg) obj s"
    by (cases "init sys env cfg (new_server fs fd h)"; cases "fst (init sys env cfg (new_server fs fd h))") auto
  then show ?thesis using destroy_untouched by (auto simp: untouched_def)
qed

theorem init_never_steals_witness:
  "\<exists>err s. init (sample_sys {}) sample_env sample_config (new_server [''/run/s'' \<mapsto> SocketFile True 432] 3 fresh_heap) = (Some err, s)
    \<and> sv_fs s (socket_path sample_config) = Some (SocketFile True 432)
    \<and> sv_fs (destroy_server (sample_sys {}) sample_config s) (socket_path sample_config) = Some (SocketFile True 432)"
  by (rule init_never_steals [OF sample_config_path]) (simp_all add: sample_config_def sample_sys_def)

text \<open>C30: a successful start means a server that is reachable and ready: the unix socket exists with the configured mode and a
  listener; the TCP listeners are bound to exactly the configured addresses and port, in order -- 127.0.0.1 and ::1 by default, the one address of
  \<^verbatim>\<open>tcp_address\<close> if it is set, none without a port; signals are routed to a descriptor, the pool has the configured number of workers,
  and at least one database is open; exactly these descriptors are open.\<close>

theorem init_success_exact:
  assumes "0 \<le> fd" "live h = []" "\<not> bad_close h" "NUL \<notin> set (socket_path cfg)"
    and "init sys env cfg (new_server fs fd h) = (None, s)"
  shows "sv_fs s (socket_path cfg) = Some (SocketFile True (socket_mode cfg))
    \<and> (\<exists>addrs. sv_bound s = zip (sv_tcp_listen_fds s) addrs \<and> length (sv_tcp_listen_fds s) = length addrs
        \<and> (if tcp_port cfg = 0 then addrs = []
           else if tcp_address cfg = [] then
             addrs = [SockaddrIn (of_int (tcp_port cfg)) 0x7F000001, SockaddrIn6 (of_int (tcp_port cfg)) 1]
           else (\<exists>a. env_pton4 env (c_str (tcp_address cfg)) = Some a \<and> addrs = [SockaddrIn (of_int (tcp_port cfg)) a])
             \<or> (\<exists>a. env_pton4 env (c_str (tcp_address cfg)) = None \<and> env_pton6 env (c_str (tcp_address cfg)) = Some a
                 \<and> addrs = [SockaddrIn6 (of_int (tcp_port cfg)) a])))
    \<and> mset (sv_fds s) = {#sv_listen_fd s, sv_signal_fd s#} + mset (sv_tcp_listen_fds s) \<and> distinct (sv_fds s)
    \<and> sv_pool s = Some (new_pool (nat (threads cfg))) \<and> (\<exists>d. slot_handle (fst (sv_dbs s)) d \<noteq> None)"
proof -
  note new = new_server_ok [OF assms(1-3)]
  have f: "fds_ok s" using tripleD [OF init_fds [of sys env cfg], of "new_server fs fd h"] new assms(5) by simp
  have r: "ready env cfg s"
    using tripleD [OF init_ready [of sys env cfg], of "new_server fs fd h"] assms(1,5) by (simp add: new_server_def)
  then obtain addrs where "tcp_endpoints env cfg = Some addrs" "tcp_at addrs s" by (auto simp: ready_def tcp_as_configured_def)
  then show ?thesis
    using f r assms(4)
    by (intro conjI exI [of _ addrs])
      (auto simp: ready_def unix_ready_def any_open_def tcp_endpoints_def tcp_at_def fds_ok_def owned_fds_def valid_fd_def
        split: if_splits option.splits)
qed

lemma sample_init:
  "\<exists>s. init (sample_sys {}) sample_env sample_config (new_server [''/run'' \<mapsto> Directory True] 3 fresh_heap) = (None, s)"
  by (simp add: init_def setup_socket_def then_ok_def setup_signals_def init_slot_def check_databases_def
      ensure_socket_directory_def find_last_of_def remove_stale_socket_def bind_unix_socket_def setup_tcp_listeners_def
      bind_one_tcp_def start_pool_def sample_sys_def sample_config_def new_server_def open_new_fd_def default_config_def
      sizeof_sun_path_def no_databases_def fresh_heap_def slot_defs c_str_def Let_def)

theorem init_success_exact_witness:
  "\<exists>s fd4 fd6. init (sample_sys {}) sample_env sample_config (new_server [''/run'' \<mapsto> Directory True] 3 fresh_heap) = (None, s)
    \<and> sv_fs s (socket_path sample_config) = Some (SocketFile True 432)
    \<and> sv_bound s = [(fd4, SockaddrIn 8080 0x7F000001), (fd6, SockaddrIn6 8080 1)] \<and> sv_tcp_listen_fds s = [fd4, fd6]"
proof -
  obtain s where i: "init (sample_sys {}) sample_env sample_config (new_server [''/run'' \<mapsto> Directory True] 3 fresh_heap) = (None, s)"
    using sample_init by blast
  have c: "tcp_port sample_config = 8080" "tcp_address sample_config = []" "socket_mode sample_config = 432"
    by (simp_all add: sample_config_def default_config_def)
  have h: "live fresh_heap = []" "\<not> bad_close fresh_heap" by (simp_all add: fresh_heap_def)
  from init_success_exact [OF _ h sample_config_path(1) i]
  have fs: "sv_fs s (socket_path sample_config) = Some (SocketFile True 432)"
    and b: "sv_bound s = zip (sv_tcp_listen_fds s) [SockaddrIn 8080 0x7F000001, SockaddrIn6 8080 1]" "length (sv_tcp_listen_fds s) = 2"
    by (simp_all add: c)
  then obtain fd4 fd6 where "sv_tcp_listen_fds s = [fd4, fd6]" by (auto simp: numeral_2_eq_2 length_Suc_conv)
  with i fs b show ?thesis by (intro exI [of _ s] exI [of _ fd4] exI [of _ fd6]) simp
qed

end
