(* ===== verification/Server_Run.thy ===== *)
theory Server_Run
  imports Server_Setup
begin

text \<open>
  The main thread: \<^verbatim>\<open>Server::run\<close> of \<^verbatim>\<open>src/src/server.cpp\<close>.

  One element of \<open>run_env\<close> holds the answers of the system during one pass of the loop: the clock, the result of \<^verbatim>\<open>poll\<close> for
  the timeout it is given, which listeners are readable, the results of \<^verbatim>\<open>accept4\<close> on each of them, what was read from the signal descriptor, and
  what a reload or a metrics write meets.  The loop returns \<^const>\<open>None\<close> if the answers run out before it ends.
\<close>

section \<open>Model\<close>

datatype run_poll = PollEvents | PollInterrupted | PollError string

datatype accept_answer = Accepted int | AcceptEAGAIN | AcceptEINTR | AcceptFailed string

datatype signal_read = NoSignal | ShortRead | SIGTERM | SIGINT | SIGHUP | OtherSignal

record run_env =
  rv_now :: int
  rv_poll :: "int \<Rightarrow> run_poll"
  rv_readable :: "nat \<Rightarrow> bool"
  rv_accepts :: "nat \<Rightarrow> accept_answer list"
  rv_signal :: signal_read
  rv_env :: server_env
  rv_open_db :: "db_slot \<Rightarrow> open_answer"
  rv_metrics :: Metrics
  rv_now_write :: int
  rv_io :: metrics_io
  rv_now_next :: int

record run_state =
  rn_server :: server
  rn_next_write :: int
  rn_files :: file_system

text \<open>\<^verbatim>\<open>duration_cast<milliseconds>\<close> rounds towards zero; the result is narrowed to a 32-bit \<^verbatim>\<open>int\<close>.\<close>

definition to_millis :: "int \<Rightarrow> int" where
  "to_millis ns = (if ns \<ge> 0 then ns div 1000000 else - ((- ns) div 1000000))"

definition poll_timeout_ms :: "Config \<Rightarrow> int \<Rightarrow> int \<Rightarrow> int" where
  "poll_timeout_ms cfg next_metrics_write now =
     (if metrics_file cfg = [] then - 1
      else let remaining_ms = to_millis (next_metrics_write - now) in to_int32 (if remaining_ms > 0 then remaining_ms else 0))"

definition submit_server :: "int \<Rightarrow> server \<Rightarrow> server" where
  "submit_server fd s = s\<lparr>sv_pool := map_option (submit fd) (sv_pool s)\<rparr>"

text \<open>Draining one listener.\<close>

fun accept_loop :: "accept_answer list \<Rightarrow> server \<Rightarrow> server option" where
  "accept_loop [] s = None"
| "accept_loop (Accepted fd # as) s = accept_loop as (submit_server fd s)"
| "accept_loop (AcceptEAGAIN # as) s = Some s"
| "accept_loop (AcceptEINTR # as) s = Some s"
| "accept_loop (AcceptFailed err # as) s = Some (say (log_warn (''accept() failed: '' @ err)) s)"

fun accept_listeners :: "run_env \<Rightarrow> nat list \<Rightarrow> server \<Rightarrow> server option" where
  "accept_listeners e [] s = Some s"
| "accept_listeners e (i # is) s =
     (if rv_readable e i then Option.bind (accept_loop (rv_accepts e i) s) (accept_listeners e is)
      else accept_listeners e is s)"

definition handle_signal :: "Config \<Rightarrow> run_env \<Rightarrow> server \<Rightarrow> bool \<times> server" where
  "handle_signal cfg e s =
     (case rv_signal e of
        SIGTERM \<Rightarrow> (False, say (log_info (''received signal '' @ ''SIGTERM'' @ '', shutting down'')) s)
      | SIGINT \<Rightarrow> (False, say (log_info (''received signal '' @ ''SIGINT'' @ '', shutting down'')) s)
      | SIGHUP \<Rightarrow>
          let s1 = say (log_info ''received SIGHUP, reloading databases'') s;
              (d, logs) = reload_databases (rv_env e) cfg (rv_open_db e) (sv_dbs s1)
          in (True, s1\<lparr>sv_dbs := d, sv_log := sv_log s1 @ logs\<rparr>)
      | _ \<Rightarrow> (True, s))"

definition write_metrics_if_due :: "Config \<Rightarrow> int \<Rightarrow> run_env \<Rightarrow> run_state \<Rightarrow> run_state" where
  "write_metrics_if_due cfg start_time e r =
     (if metrics_file cfg \<noteq> [] \<and> rv_now_write e \<ge> rn_next_write r then
        (case write_metrics_file (rv_env e) cfg start_time (fst (sv_dbs (rn_server r))) (rv_metrics e) (rv_io e) (rn_files r) of
           (states, logs) \<Rightarrow>
             r\<lparr>rn_files := last states, rn_server := (rn_server r)\<lparr>sv_log := sv_log (rn_server r) @ logs\<rparr>,
               rn_next_write := rv_now_next e + metrics_interval_seconds cfg * 1000000000\<rparr>)
      else r)"

text \<open>One pass behind a successful \<^verbatim>\<open>poll\<close>: \<^verbatim>\<open>running\<close> and the state.\<close>

definition run_pass :: "Config \<Rightarrow> int \<Rightarrow> run_env \<Rightarrow> run_state \<Rightarrow> (bool \<times> run_state) option" where
  "run_pass cfg start_time e r =
     (case accept_listeners e [0..<Suc (length (sv_tcp_listen_fds (rn_server r)))] (rn_server r) of
        None \<Rightarrow> None
      | Some s1 \<Rightarrow>
          let (running, s2) = handle_signal cfg e s1
          in Some (running, write_metrics_if_due cfg start_time e (r\<lparr>rn_server := s2\<rparr>)))"

fun run_loop :: "Config \<Rightarrow> int \<Rightarrow> run_env list \<Rightarrow> run_state \<Rightarrow> run_state option" where
  "run_loop cfg start_time [] r = None"
| "run_loop cfg start_time (e # es) r =
     (case rv_poll e (poll_timeout_ms cfg (rn_next_write r) (rv_now e)) of
        PollInterrupted \<Rightarrow> run_loop cfg start_time es r
      | PollError err \<Rightarrow> Some (r\<lparr>rn_server := say (log_error (''poll() failed: '' @ err)) (rn_server r)\<rparr>)
      | PollEvents \<Rightarrow>
          (case run_pass cfg start_time e r of
             None \<Rightarrow> None
           | Some (running, r1) \<Rightarrow> if running then run_loop cfg start_time es r1 else Some r1))"

text \<open>The exit code, the server after \<^verbatim>\<open>cleanup\<close>, and the file system.\<close>

definition run :: "sys \<Rightarrow> Config \<Rightarrow> int \<Rightarrow> int \<Rightarrow> run_env list \<Rightarrow> server \<Rightarrow> file_system \<Rightarrow> (int \<times> server \<times> file_system) option" where
  "run sys cfg start_time now es s files =
     (case run_loop cfg start_time es \<lparr>rn_server = say (log_info ''nshgeoip ready'') s, rn_next_write = now, rn_files = files\<rparr> of
        None \<Rightarrow> None
      | Some r \<Rightarrow> Some (0, cleanup sys cfg (rn_server r), rn_files r))"

section \<open>Connections handed over\<close>

fun accepted_run :: "accept_answer list \<Rightarrow> int list" where
  "accepted_run (Accepted fd # as) = fd # accepted_run as"
| "accepted_run _ = []"

definition accepted_in :: "nat \<Rightarrow> run_env \<Rightarrow> int list" where
  "accepted_in n e = concat (map (\<lambda>i. if rv_readable e i then accepted_run (rv_accepts e i) else []) [0..<Suc n])"

lemma submit_list:
  "\<not> stop p \<Longrightarrow> \<not> stop (fold submit fds p) \<and> submitted (fold submit fds p) = submitted p @ fds
     \<and> queue (fold submit fds p) = queue p @ fds \<and> workers (fold submit fds p) = workers p \<and> closed (fold submit fds p) = closed p"
  by (induction fds arbitrary: p) (simp_all add: submit_def)

lemma submit_reach: "ts_reach I pool_step p \<Longrightarrow> ts_reach I pool_step (fold submit fds p)"
  by (induction fds arbitrary: p) (auto intro: ts_step p_submit)

text \<open>The state without its log.\<close>

definition sans_log :: "server \<Rightarrow> server" where
  "sans_log s = s\<lparr>sv_log := []\<rparr>"

lemma sans_log_fields [simp]:
  "sv_pool (sans_log s) = sv_pool s" "sv_dbs (sans_log s) = sv_dbs s" "sv_tcp_listen_fds (sans_log s) = sv_tcp_listen_fds s"
  "sv_fs (sans_log s) = sv_fs s" "sv_socket_created (sans_log s) = sv_socket_created s" "fds_ok (sans_log s) = fds_ok s"
  "sans_log (say c s) = sans_log s" "sans_log (s\<lparr>sv_log := l\<rparr>) = sans_log s" "sans_log (s\<lparr>sv_dbs := d\<rparr>) = (sans_log s)\<lparr>sv_dbs := d\<rparr>"
  "sans_log (s\<lparr>sv_pool := p\<rparr>) = (sans_log s)\<lparr>sv_pool := p\<rparr>"
  by (simp_all add: sans_log_def say_def fds_ok_def owned_fds_def)

text \<open>All that accepting changes is the pool and the log.\<close>

definition pool_log :: "(ThreadPool \<Rightarrow> ThreadPool) \<Rightarrow> server \<Rightarrow> server \<Rightarrow> bool" where
  "pool_log f s s' \<longleftrightarrow> sans_log s' = (sans_log s)\<lparr>sv_pool := map_option f (sv_pool s)\<rparr>"

lemma pool_log_refl: "pool_log (\<lambda>p. p) s s" "pool_log (\<lambda>p. p) s (say c s)"
  by (simp_all add: pool_log_def option.map_ident)

lemma pool_log_pool: "pool_log f s t \<Longrightarrow> sv_pool t = map_option f (sv_pool s)"
  unfolding pool_log_def by (drule arg_cong [of _ _ sv_pool]) simp

lemma pool_log_trans: "pool_log f s t \<Longrightarrow> pool_log g t u \<Longrightarrow> pool_log (g \<circ> f) s u"
  using pool_log_pool [of f s t] by (simp add: pool_log_def option.map_comp)

lemma pool_log_submit: "pool_log (submit fd) s (submit_server fd s)"
  by (simp add: pool_log_def submit_server_def)

lemma accept_loop_effect: "accept_loop as s = Some s' \<Longrightarrow> pool_log (fold submit (accepted_run as)) s s'"
proof (induction as s rule: accept_loop.induct)
  case (2 fd as s)
  then show ?case using pool_log_trans [OF pool_log_submit] by (simp add: comp_def)
qed (auto simp: pool_log_refl id_def)

lemma accept_listeners_effect:
  "accept_listeners e is s = Some s' \<Longrightarrow>
     pool_log (fold submit (concat (map (\<lambda>i. if rv_readable e i then accepted_run (rv_accepts e i) else []) is))) s s'"
proof (induction e "is" s rule: accept_listeners.induct)
  case (1 e s)
  then show ?case by (simp add: pool_log_refl id_def)
next
  case (2 e i js s)
  show ?case
  proof (cases "rv_readable e i")
    case True
    with "2.prems" obtain t where t: "accept_loop (rv_accepts e i) s = Some t" "accept_listeners e js t = Some s'"
      by (auto simp: bind_eq_Some_conv)
    from pool_log_trans [OF accept_loop_effect [OF t(1)] "2.IH"(1) [OF True t]] True show ?thesis by (simp add: comp_def)
  next
    case False
    with 2 show ?thesis by simp
  qed
qed

lemma handle_signal_effect:
  "fst (handle_signal cfg e s) \<longleftrightarrow> rv_signal e \<notin> {SIGTERM, SIGINT}"
  "sans_log (snd (handle_signal cfg e s)) = (sans_log s)\<lparr>sv_dbs :=
     (if rv_signal e = SIGHUP then fst (reload_databases (rv_env e) cfg (rv_open_db e) (sv_dbs s)) else sv_dbs s)\<rparr>"
  by (cases "rv_signal e"; simp add: handle_signal_def Let_def case_prod_unfold; simp add: sans_log_def)+

lemma metrics_step_effect [simp]: "sans_log (rn_server (write_metrics_if_due cfg start_time e r)) = sans_log (rn_server r)"
  by (simp add: write_metrics_if_due_def case_prod_unfold)

text \<open>One pass: the accepted connections go to the pool, a SIGHUP may change the databases, and nothing else of the server changes.\<close>

lemma run_pass_effect:
  assumes "run_pass cfg start_time e r = Some (running, r1)"
  shows "running \<longleftrightarrow> rv_signal e \<notin> {SIGTERM, SIGINT}"
    "sans_log (rn_server r1) = (sans_log (rn_server r))\<lparr>
       sv_pool := map_option (fold submit (accepted_in (length (sv_tcp_listen_fds (rn_server r))) e)) (sv_pool (rn_server r)),
       sv_dbs := (if rv_signal e = SIGHUP then fst (reload_databases (rv_env e) cfg (rv_open_db e) (sv_dbs (rn_server r)))
         else sv_dbs (rn_server r))\<rparr>"
proof -
  obtain s1 where a: "accept_listeners e [0..<Suc (length (sv_tcp_listen_fds (rn_server r)))] (rn_server r) = Some s1"
    and r: "running = fst (handle_signal cfg e s1)"
      "r1 = write_metrics_if_due cfg start_time e (r\<lparr>rn_server := snd (handle_signal cfg e s1)\<rparr>)"
    using assms by (auto simp: run_pass_def case_prod_unfold Let_def split: option.splits simp del: upt_Suc)
  from accept_listeners_effect [OF a]
  have p: "pool_log (fold submit (accepted_in (length (sv_tcp_listen_fds (rn_server r))) e)) (rn_server r) s1"
    by (simp add: accepted_in_def del: upt_Suc)
  then have "sv_dbs s1 = sv_dbs (rn_server r)" unfolding pool_log_def by (drule_tac arg_cong [of _ _ sv_dbs]) simp
  with p r handle_signal_effect [of cfg e s1]
  show "running \<longleftrightarrow> rv_signal e \<notin> {SIGTERM, SIGINT}"
    "sans_log (rn_server r1) = (sans_log (rn_server r))\<lparr>
       sv_pool := map_option (fold submit (accepted_in (length (sv_tcp_listen_fds (rn_server r))) e)) (sv_pool (rn_server r)),
       sv_dbs := (if rv_signal e = SIGHUP then fst (reload_databases (rv_env e) cfg (rv_open_db e) (sv_dbs (rn_server r)))
         else sv_dbs (rn_server r))\<rparr>"
    by (simp_all add: pool_log_def)
qed

lemma run_loop_keeps:
  assumes "\<And>e r b r1. I (sans_log (rn_server r)) \<Longrightarrow> run_pass cfg start_time e r = Some (b, r1) \<Longrightarrow> I (sans_log (rn_server r1))"
  shows "run_loop cfg start_time es r = Some r' \<Longrightarrow> I (sans_log (rn_server r)) \<Longrightarrow> I (sans_log (rn_server r'))"
proof (induction es arbitrary: r)
  case (Cons e es)
  then show ?case
    using assms by (auto split: run_poll.splits option.splits if_splits)
qed simp

lemma reload_slots_open:
  assumes "slot_handle (fst s) d \<noteq> None"
  shows "slot_handle (fst (fst (reload_databases env cfg answers s))) d \<noteq> None"
  using reload_databases_slots [of env cfg answers s "fst (reload_databases env cfg answers s)" "snd (reload_databases env cfg answers s)" d]
    assms by (auto split: if_splits)

lemma reload_handles:
  assumes "handles_ok s"
  shows "handles_ok (fst (reload_databases env cfg answers s))"
proof (rule reload_databases_effects [of env cfg answers s "fst (reload_databases env cfg answers s)" "snd (reload_databases env cfg answers s)"])
  fix s1 s2
  assume "slot_effect CountrySlot (country_db cfg) (answers CountrySlot) s s1"
    "slot_effect AsnSlot (asn_db cfg) (answers AsnSlot) s1 s2"
    "slot_effect CitySlot (city_db cfg) (answers CitySlot) s2 (fst (reload_databases env cfg answers s))"
  with assms show ?thesis by (simp add: slot_effect_def)
qed simp

text \<open>What the loop keeps: consistent descriptors and handles, the files, and every open database.\<close>

definition run_inv :: "(string \<Rightarrow> fs_obj option) \<Rightarrow> string \<Rightarrow> db_slot set \<Rightarrow> server \<Rightarrow> bool" where
  "run_inv fs path slots s \<longleftrightarrow> fds_ok s \<and> fs_inv fs path s \<and> (\<forall>d \<in> slots. slot_handle (fst (sv_dbs s)) d \<noteq> None)"

lemma run_inv_sans_log [simp]: "run_inv fs path slots (sans_log s) = run_inv fs path slots s"
  by (simp add: run_inv_def fs_inv_def)

lemma run_inv_pass:
  assumes "run_inv fs path slots (sans_log (rn_server r))" "run_pass cfg start_time e r = Some (b, r1)"
  shows "run_inv fs path slots (sans_log (rn_server r1))"
proof -
  let ?d = "fst (reload_databases (rv_env e) cfg (rv_open_db e) (sv_dbs (rn_server r)))"
  have "handles_ok (sv_dbs (rn_server r))" using assms(1) by (simp add: run_inv_def fds_ok_def)
  then have "handles_ok ?d" by (rule reload_handles)
  moreover have "\<forall>d \<in> slots. slot_handle (fst ?d) d \<noteq> None"
    using assms(1) reload_slots_open by (simp add: run_inv_def)
  ultimately show ?thesis
    using assms(1) unfolding run_pass_effect(2) [OF assms(2)]
    by (simp add: run_inv_def fds_ok_def owned_fds_def fs_inv_def)
qed

lemma run_inv_loop: "run_loop cfg start_time es r = Some r' \<Longrightarrow> run_inv fs path slots (rn_server r) \<Longrightarrow> run_inv fs path slots (rn_server r')"
  using run_loop_keeps [of "run_inv fs path slots" cfg start_time es r r', OF run_inv_pass] by simp

lemma run_created: "run_loop cfg start_time es r = Some r' \<Longrightarrow> sv_socket_created (rn_server r') = sv_socket_created (rn_server r)"
proof -
  assume r: "run_loop cfg start_time es r = Some r'"
  have "sv_socket_created (sans_log (rn_server r1)) = c"
    if "sv_socket_created (sans_log (rn_server r)) = c" "run_pass cfg start_time e r = Some (b, r1)" for e r b r1 c
    using that(1) unfolding run_pass_effect(2) [OF that(2)] by simp
  from run_loop_keeps [of "\<lambda>s. sv_socket_created s = sv_socket_created (rn_server r)" cfg start_time, OF this r] show ?thesis by simp
qed

lemma cleanup_dbs [simp]: "sv_dbs (cleanup sys cfg s) = sv_dbs s"
  by (simp add: cleanup_def Let_def)

lemma cleanup_pool:
  "sv_pool (cleanup sys cfg s) = None"
  "sv_stopped (cleanup sys cfg s) = (case sv_pool s of None \<Rightarrow> sv_stopped s | Some p \<Rightarrow> Some (shutdown p))"
proof -
  have [simp]: "sv_pool (close_server_fd fd s) = sv_pool s" for fd s by (simp add: close_server_fd_def)
  have [simp]: "sv_pool (fold close_server_fd xs s) = sv_pool s" for xs s by (induction xs arbitrary: s) simp_all
  have [simp]: "sv_pool (close_listener cfg s) = sv_pool s" "sv_pool (close_signal s) = sv_pool s" for s
    by (simp_all add: close_listener_def close_signal_def stop_listening_def split: option.split fs_obj.split)
  have [simp]: "sv_stopped (close_server_fd fd s) = sv_stopped s" for fd s by (simp add: close_server_fd_def)
  have [simp]: "sv_stopped (fold close_server_fd xs s) = sv_stopped s" for xs s by (induction xs arbitrary: s) simp_all
  have [simp]: "sv_stopped (close_listener cfg s) = sv_stopped s" "sv_stopped (close_signal s) = sv_stopped s"
    "sv_stopped (unlink_on_cleanup sys cfg s) = sv_stopped s" for s
    by (simp_all add: close_listener_def close_signal_def stop_listening_def unlink_on_cleanup_def say_def split: option.split fs_obj.split)
  have [simp]: "sv_stopped (say c s) = sv_stopped s" for c s by (simp add: say_def)
  show "sv_pool (cleanup sys cfg s) = None"
    "sv_stopped (cleanup sys cfg s) = (case sv_pool s of None \<Rightarrow> sv_stopped s | Some p \<Rightarrow> Some (shutdown p))"
    by (simp_all add: cleanup_def Let_def split: option.split)
qed

lemma cleanup_removes:
  "sv_socket_created s \<Longrightarrow> NUL \<notin> set (socket_path cfg) \<Longrightarrow> sys_fails sys SysUnlinkCleanup = None \<Longrightarrow>
     sv_fs (cleanup sys cfg s) (socket_path cfg) = None"
  by (simp add: cleanup_def unlink_on_cleanup_def unlink_errno_def Let_def split: option.split)

section \<open>The passes of the loop\<close>

fun passes :: "Config \<Rightarrow> int \<Rightarrow> run_env list \<Rightarrow> run_state \<Rightarrow> run_env list" where
  "passes cfg start_time [] r = []"
| "passes cfg start_time (e # es) r =
     (case rv_poll e (poll_timeout_ms cfg (rn_next_write r) (rv_now e)) of
        PollInterrupted \<Rightarrow> passes cfg start_time es r
      | PollError err \<Rightarrow> []
      | PollEvents \<Rightarrow>
          (case run_pass cfg start_time e r of
             None \<Rightarrow> []
           | Some (running, r1) \<Rightarrow> e # (if running then passes cfg start_time es r1 else [])))"

lemma pass_pool:
  assumes "run_pass cfg start_time e r = Some (b, r1)"
  shows "sv_pool (rn_server r1) = map_option (fold submit (accepted_in (length (sv_tcp_listen_fds (rn_server r))) e)) (sv_pool (rn_server r))"
    "sv_tcp_listen_fds (rn_server r1) = sv_tcp_listen_fds (rn_server r)"
  using run_pass_effect(2) [OF assms, THEN arg_cong [of _ _ sv_pool]]
    run_pass_effect(2) [OF assms, THEN arg_cong [of _ _ sv_tcp_listen_fds]] by simp_all

lemma loop_pool:
  "run_loop cfg start_time es r = Some r' \<Longrightarrow>
     sv_pool (rn_server r') = map_option (fold submit (concat (map (accepted_in (length (sv_tcp_listen_fds (rn_server r))))
       (passes cfg start_time es r)))) (sv_pool (rn_server r))"
proof (induction es arbitrary: r)
  case (Cons e es)
  show ?case
  proof (cases "rv_poll e (poll_timeout_ms cfg (rn_next_write r) (rv_now e))")
    case PollEvents
    with Cons.prems obtain b r1 where p: "run_pass cfg start_time e r = Some (b, r1)"
      and l: "if b then run_loop cfg start_time es r1 = Some r' else r' = r1"
      by (auto split: option.splits if_splits)
    show ?thesis
    proof (cases b)
      case True
      with Cons.IH [of r1] l have "sv_pool (rn_server r') = map_option (fold submit (concat (map (accepted_in
          (length (sv_tcp_listen_fds (rn_server r1)))) (passes cfg start_time es r1)))) (sv_pool (rn_server r1))" by simp
      with True PollEvents p pass_pool [OF p] show ?thesis by (simp add: option.map_comp comp_def)
    next
      case False
      with l PollEvents p pass_pool [OF p] show ?thesis by simp
    qed
  qed (use Cons in \<open>auto simp: option.map_ident id_def\<close>)
qed simp

section \<open>The loop ends\<close>

definition accepts_end :: "run_env \<Rightarrow> bool" where
  "accepts_end e \<longleftrightarrow> (\<forall>i. \<exists>a \<in> set (rv_accepts e i). \<forall>fd. a \<noteq> Accepted fd)"

definition stop_request :: "run_env \<Rightarrow> bool" where
  "stop_request e \<longleftrightarrow> (\<forall>t. rv_poll e t = PollEvents) \<and> rv_signal e \<in> {SIGTERM, SIGINT}"

lemma accept_loop_ends: "\<exists>a \<in> set as. \<forall>fd. a \<noteq> Accepted fd \<Longrightarrow> \<exists>s'. accept_loop as s = Some s'"
  by (induction as s rule: accept_loop.induct) auto

lemma accept_listeners_end: "accepts_end e \<Longrightarrow> \<exists>s'. accept_listeners e is s = Some s'"
proof (induction "is" arbitrary: s)
  case (Cons i js)
  then obtain s1 where "accept_loop (rv_accepts e i) s = Some s1"
    using accept_loop_ends [of "rv_accepts e i" s] by (auto simp: accepts_end_def)
  with Cons show ?case by simp
qed simp

lemma run_pass_ends: "accepts_end e \<Longrightarrow> \<exists>b r1. run_pass cfg start_time e r = Some (b, r1)"
  using accept_listeners_end [of e "[0..<Suc (length (sv_tcp_listen_fds (rn_server r)))]" "rn_server r"]
  by (auto simp: run_pass_def case_prod_unfold Let_def simp del: upt_Suc)

lemma run_loop_ends:
  "list_all accepts_end es \<Longrightarrow> \<exists>e \<in> set es. stop_request e \<Longrightarrow> \<exists>r'. run_loop cfg start_time es r = Some r'"
proof (induction es arbitrary: r)
  case (Cons e es)
  obtain b r1 where p: "run_pass cfg start_time e r = Some (b, r1)"
    using run_pass_ends [of e] Cons.prems(1) by fastforce
  show ?case
  proof (cases "stop_request e")
    case True
    then have "\<not> b" using run_pass_effect(1) [OF p] by (simp add: stop_request_def)
    with True p show ?thesis by (simp add: stop_request_def)
  next
    case False
    with Cons p show ?thesis by (auto split: run_poll.split)
  qed
qed simp

section \<open>The timeout\<close>

lemma poll_timeout_bounds:
  assumes "metrics_file cfg \<noteq> []" "next - now \<le> n * 1000000000" "0 \<le> n" "n \<le> 86400"
  shows "0 \<le> poll_timeout_ms cfg next now \<and> poll_timeout_ms cfg next now \<le> n * 1000
    \<and> poll_timeout_ms cfg next now * 1000000 \<le> max 0 (next - now)"
proof -
  define m where "m = (if to_millis (next - now) > 0 then to_millis (next - now) else 0)"
  have "to_millis (next - now) \<le> n * 1000" using assms(2,3) by (simp add: to_millis_def) linarith
  then have m: "0 \<le> m" "m \<le> n * 1000" using assms(3) by (simp_all add: m_def)
  moreover have "to_int32 m = m" using m assms(4) by (intro to_int32_id) simp_all
  moreover have "m * 1000000 \<le> max 0 (next - now)" by (simp add: m_def to_millis_def) linarith
  ultimately show ?thesis using assms(1) by (simp add: poll_timeout_ms_def Let_def flip: m_def)
qed

text \<open>The timeouts handed to \<^verbatim>\<open>poll\<close>, and a clock that does not run backwards.\<close>

fun timeouts :: "Config \<Rightarrow> int \<Rightarrow> run_env list \<Rightarrow> run_state \<Rightarrow> int list" where
  "timeouts cfg start_time [] r = []"
| "timeouts cfg start_time (e # es) r =
     poll_timeout_ms cfg (rn_next_write r) (rv_now e) #
     (case rv_poll e (poll_timeout_ms cfg (rn_next_write r) (rv_now e)) of
        PollInterrupted \<Rightarrow> timeouts cfg start_time es r
      | PollError err \<Rightarrow> []
      | PollEvents \<Rightarrow>
          (case run_pass cfg start_time e r of
             Some (True, r1) \<Rightarrow> timeouts cfg start_time es r1 | _ \<Rightarrow> []))"

fun steady_clock :: "int \<Rightarrow> run_env list \<Rightarrow> bool" where
  "steady_clock t [] = True"
| "steady_clock t (e # es) = (t \<le> rv_now e \<and> rv_now e \<le> rv_now_write e \<and> rv_now_write e \<le> rv_now_next e \<and> steady_clock (rv_now_next e) es)"

lemma run_pass_next:
  assumes "run_pass cfg start_time e r = Some (b, r1)"
  shows "rn_next_write r1 = rn_next_write r \<or> rn_next_write r1 = rv_now_next e + metrics_interval_seconds cfg * 1000000000"
  using assms by (auto simp: run_pass_def write_metrics_if_due_def case_prod_unfold Let_def split: option.splits if_splits simp del: upt_Suc)

lemma timeouts_bounded:
  assumes "metrics_file cfg \<noteq> []" "1 \<le> metrics_interval_seconds cfg" "metrics_interval_seconds cfg \<le> 86400"
  shows "steady_clock t es \<Longrightarrow> rn_next_write r \<le> t + metrics_interval_seconds cfg * 1000000000 \<Longrightarrow>
    \<forall>ms \<in> set (timeouts cfg start_time es r). 0 \<le> ms \<and> ms \<le> metrics_interval_seconds cfg * 1000"
proof (induction es arbitrary: r t)
  case (Cons e es)
  let ?n = "metrics_interval_seconds cfg"
  have c: "t \<le> rv_now e" "rv_now e \<le> rv_now_next e" "steady_clock (rv_now_next e) es" using Cons.prems(1) by simp_all
  have head: "0 \<le> poll_timeout_ms cfg (rn_next_write r) (rv_now e) \<and> poll_timeout_ms cfg (rn_next_write r) (rv_now e) \<le> ?n * 1000"
    using poll_timeout_bounds [OF assms(1), of "rn_next_write r" "rv_now e" ?n] Cons.prems(2) c(1) assms(2,3) by simp
  have tail: "\<forall>ms \<in> set (timeouts cfg start_time es r1). 0 \<le> ms \<and> ms \<le> ?n * 1000"
    if "rn_next_write r1 = rn_next_write r \<or> rn_next_write r1 = rv_now_next e + ?n * 1000000000" for r1
    using that c Cons.prems(2) by (intro Cons.IH [OF c(3)]) linarith
  show ?case
  proof (cases "rv_poll e (poll_timeout_ms cfg (rn_next_write r) (rv_now e))")
    case PollEvents
    show ?thesis
    proof (cases "run_pass cfg start_time e r")
      case None
      with PollEvents head show ?thesis by simp
    next
      case (Some x)
      obtain b r1 where "x = (b, r1)" by force
      with Some PollEvents head tail [OF run_pass_next [of cfg start_time e r b r1]] show ?thesis by (cases b) simp_all
    qed
  qed (use head tail [of r] in simp_all)
qed simp

text \<open>The exit code does not tell a failing \<^verbatim>\<open>poll\<close> from a clean stop.\<close>

lemma poll_failure_exits_zero:
  "\<forall>t. rv_poll e t = PollError err \<Longrightarrow> \<exists>s' files'. run sys cfg start_time now (e # es) s files = Some (0, s', files')"
  by (simp add: run_def)

section \<open>Properties\<close>

text \<open>Every connection the main thread accepts is handed to the worker pool exactly once and in the order of acceptance,
  over all listeners and all passes of the loop, up to the end of the pass in which the signal arrives; none is dropped or closed.\<close>

theorem run_hands_over:
  assumes "run_loop cfg start_time es r = Some r'" "sv_pool (rn_server r) = Some p" "\<not> stop p"
    and "n = length (sv_tcp_listen_fds (rn_server r))"
  shows "\<exists>p'. sv_pool (rn_server r') = Some p' \<and> \<not> stop p' \<and> closed p' = closed p
    \<and> submitted p' = submitted p @ concat (map (accepted_in n) (passes cfg start_time es r))
    \<and> queue p' = queue p @ concat (map (accepted_in n) (passes cfg start_time es r))"
  using loop_pool [OF assms(1)] assms(2,4) submit_list [OF assms(3)] by auto

definition sample_pass :: "signal_read \<Rightarrow> accept_answer list \<Rightarrow> run_env" where
  "sample_pass sig as = \<lparr>rv_now = 0, rv_poll = (\<lambda>_. PollEvents), rv_readable = (\<lambda>i. i = 0), rv_accepts = (\<lambda>_. as @ [AcceptEAGAIN]),
     rv_signal = sig, rv_env = sample_env, rv_open_db = (\<lambda>_. Inr sample_metadata), rv_metrics = zero_metrics, rv_now_write = 0,
     rv_io = sample_io, rv_now_next = 0\<rparr>"

definition sample_run :: run_state where
  "sample_run = \<lparr>rn_server = (new_server Map.empty 3 fresh_heap)\<lparr>sv_pool := Some (new_pool 2)\<rparr>, rn_next_write = 0, rn_files = Map.empty\<rparr>"

lemma sample_run_ends:
  "\<exists>code s1 files'. run (sample_sys {}) sample_config 0 0 [sample_pass SIGTERM [Accepted 8]] s Map.empty = Some (code, s1, files')"
proof -
  have "list_all accepts_end [sample_pass SIGTERM [Accepted 8]]" "\<exists>e \<in> set [sample_pass SIGTERM [Accepted 8]]. stop_request e"
    by (auto simp: accepts_end_def stop_request_def sample_pass_def)
  from run_loop_ends [OF this] obtain r' where "run_loop sample_config 0 [sample_pass SIGTERM [Accepted 8]]
      \<lparr>rn_server = say (log_info ''nshgeoip ready'') s, rn_next_write = 0, rn_files = Map.empty\<rparr> = Some r'"
    by blast
  then show ?thesis by (simp add: run_def del: run_loop.simps)
qed

theorem run_hands_over_witness:
  "\<exists>r' p'. run_loop sample_config 0 [sample_pass SIGHUP [Accepted 7, Accepted 9], sample_pass SIGTERM [Accepted 8]] sample_run = Some r'
    \<and> sv_pool (rn_server r') = Some p' \<and> submitted p' = [7, 9, 8]"
proof -
  let ?es = "[sample_pass SIGHUP [Accepted 7, Accepted 9], sample_pass SIGTERM [Accepted 8]]"
  have ends: "accepts_end (sample_pass sig as)" for sig as
    unfolding accepts_end_def sample_pass_def by (auto intro: bexI [of _ AcceptEAGAIN])
  have "list_all accepts_end ?es" by (simp add: ends)
  moreover have "\<exists>e \<in> set ?es. stop_request e" by (simp add: stop_request_def sample_pass_def)
  ultimately obtain r' where r: "run_loop sample_config 0 ?es sample_run = Some r'" using run_loop_ends by blast
  obtain b r1 where p1: "run_pass sample_config 0 (sample_pass SIGHUP [Accepted 7, Accepted 9]) sample_run = Some (b, r1)"
    using run_pass_ends [OF ends] by blast
  obtain b' r2 where p2: "run_pass sample_config 0 (sample_pass SIGTERM [Accepted 8]) r1 = Some (b', r2)"
    using run_pass_ends [OF ends] by blast
  have "b" "\<not> b'" using run_pass_effect(1) [OF p1] run_pass_effect(1) [OF p2] by (simp_all add: sample_pass_def)
  with p1 p2 have "passes sample_config 0 ?es sample_run = ?es" by (simp add: sample_pass_def)
  moreover have "accepted_in 0 (sample_pass sig as) = accepted_run (as @ [AcceptEAGAIN])" for sig as
    by (simp add: accepted_in_def sample_pass_def)
  ultimately have "\<exists>p'. sv_pool (rn_server r') = Some p' \<and> submitted p' = [7, 9, 8]"
    using run_hands_over [OF r, of "new_pool 2" 0]
    by (simp add: sample_run_def new_server_def new_pool_def del: passes.simps) blast
  with r show ?thesis by blast
qed

text \<open>C19: the daemon stops when it is told to: once SIGTERM or SIGINT is delivered, the run ends with exit code 0 after finitely many passes, whatever else
  happens before, and no descriptor is left open.\<close>

theorem run_stops:
  assumes "list_all accepts_end es" "\<exists>e \<in> set es. stop_request e" "fds_ok s"
  shows "\<exists>s' files'. run sys cfg start_time now es s files = Some (0, s', files') \<and> sv_fds s' = [] \<and> sv_pool s' = None"
proof -
  let ?r = "\<lparr>rn_server = say (log_info ''nshgeoip ready'') s, rn_next_write = now, rn_files = files\<rparr>"
  obtain r' where r: "run_loop cfg start_time es ?r = Some r'" using run_loop_ends [OF assms(1,2)] by blast
  have "run_inv (sv_fs s) (socket_path cfg) {} (rn_server ?r)" using assms(3) by (simp add: run_inv_def fs_inv_def)
  from run_inv_loop [OF r this] have f: "fds_ok (rn_server r')" by (simp add: run_inv_def)
  have "sv_pool (cleanup sys cfg (rn_server r')) = None" by (rule cleanup_pool(1))
  with r cleanup_releases [OF f] show ?thesis by (simp add: run_def)
qed

theorem run_stops_witness:
  "\<exists>s' files'. run (sample_sys {}) sample_config 0 0 [sample_pass SIGHUP [], sample_pass SIGINT [Accepted 5]]
      (new_server Map.empty 3 fresh_heap) Map.empty = Some (0, s', files') \<and> sv_fds s' = [] \<and> sv_pool s' = None"
proof (rule run_stops)
  show "list_all accepts_end [sample_pass SIGHUP [], sample_pass SIGINT [Accepted 5]]"
    by (auto simp: accepts_end_def sample_pass_def)
  show "fds_ok (new_server Map.empty 3 fresh_heap)" by (rule new_server_ok) (simp_all add: fresh_heap_def)
qed (simp add: stop_request_def sample_pass_def)

text \<open>C7: no accepted connection is lost when the daemon stops: the pool that is told to stop at the end of a run has been given exactly the
  connections accepted since the start, and however workers and main thread were interleaved, when the workers have left their loops each of these
  connections has been handled exactly once and none was closed unanswered.\<close>

theorem graceful_shutdown:
  assumes "0 \<le> fd" "init sys env cfg (new_server fs fd h) = (None, s)" "1 \<le> threads cfg"
    and "run sys cfg start_time now es s files = Some (code, s1, files')"
    and "accepted = concat (map (accepted_in (length (sv_tcp_listen_fds s)))
      (passes cfg start_time es \<lparr>rn_server = say (log_info ''nshgeoip ready'') s, rn_next_write = now, rn_files = files\<rparr>))"
  shows "\<exists>p. sv_stopped s1 = Some p \<and> stop p \<and> submitted p = accepted \<and> closed p = []
    \<and> ts_reach (\<lambda>p. p = new_pool (nat (threads cfg))) pool_step p
    \<and> (\<forall>q q'. ts_reach (\<lambda>p. p = new_pool (nat (threads cfg))) pool_step q \<and> stop q \<and> submitted q = accepted
         \<and> worker_step\<^sup>*\<^sup>* q q' \<and> (\<nexists>r. worker_step q' r) \<longrightarrow> queue q' = [] \<and> mset (handled q') = mset accepted)"
proof -
  let ?n = "nat (threads cfg)"
  let ?r = "\<lparr>rn_server = say (log_info ''nshgeoip ready'') s, rn_next_write = now, rn_files = files\<rparr>"
  let ?p = "fold submit accepted (new_pool ?n)"
  obtain r where r: "run_loop cfg start_time es ?r = Some r" "s1 = cleanup sys cfg (rn_server r)"
    using assms(4) by (auto simp: run_def split: option.splits)
  have "sv_pool (rn_server r) = Some ?p"
    using loop_pool [OF r(1)] ready_pool [OF assms(1,2)] assms(5) by simp
  then have "sv_stopped s1 = Some (shutdown ?p)" using r(2) cleanup_pool(2) by simp
  moreover have "\<not> stop (new_pool ?n)" "submitted (new_pool ?n) = []" "closed (new_pool ?n) = []" by (simp_all add: new_pool_def)
  then have "stop (shutdown ?p)" "submitted (shutdown ?p) = accepted" "closed (shutdown ?p) = []"
    using submit_list [of "new_pool ?n" accepted] by (simp_all add: shutdown_def)
  moreover have "ts_reach (\<lambda>p. p = new_pool ?n) pool_step (shutdown ?p)"
    using submit_reach [OF reach_new] by (rule ts_step) (rule p_shutdown)
  moreover have "queue q' = [] \<and> mset (handled q') = mset accepted"
    if "ts_reach (\<lambda>p. p = new_pool ?n) pool_step q" "stop q" "submitted q = accepted" "worker_step\<^sup>*\<^sup>* q q'" "\<nexists>r. worker_step q' r" for q q'
    using drained [OF pool.reach_inv [OF that(1)] that(2) _ that(4,5)] worker_steps_submitted [OF that(4)] that(3) assms(3) by simp
  ultimately show ?thesis by blast
qed

theorem graceful_shutdown_witness:
  "\<exists>s code s1 files' p. init (sample_sys {}) sample_env sample_config (new_server [''/run'' \<mapsto> Directory True] 3 fresh_heap) = (None, s)
    \<and> run (sample_sys {}) sample_config 0 0 [sample_pass SIGTERM [Accepted 8]] s Map.empty = Some (code, s1, files')
    \<and> sv_stopped s1 = Some p \<and> stop p \<and> closed p = []"
proof -
  obtain s where i: "init (sample_sys {}) sample_env sample_config (new_server [''/run'' \<mapsto> Directory True] 3 fresh_heap) = (None, s)"
    using sample_init by blast
  obtain code s1 files' where r: "run (sample_sys {}) sample_config 0 0 [sample_pass SIGTERM [Accepted 8]] s Map.empty = Some (code, s1, files')"
    using sample_run_ends by blast
  have "1 \<le> threads sample_config" by (simp add: sample_config_def default_config_def default_thread_count_def)
  from graceful_shutdown [OF _ i this r refl] i r show ?thesis by fastforce
qed

text \<open>C37: the main thread never sleeps past the next metrics write: with a metrics file, every timeout given to \<^verbatim>\<open>poll\<close> is between zero and the
  configured interval in milliseconds -- so the narrowing to \<^verbatim>\<open>int\<close> loses nothing and it never waits forever -- and without one it is always infinite.\<close>

theorem poll_timeouts_exact:
  assumes "1 \<le> metrics_interval_seconds cfg" "metrics_interval_seconds cfg \<le> 86400" "steady_clock now es" "rn_next_write r = now"
  shows "\<forall>ms \<in> set (timeouts cfg start_time es r).
    if metrics_file cfg = [] then ms = - 1 else 0 \<le> ms \<and> ms \<le> metrics_interval_seconds cfg * 1000"
proof (cases "metrics_file cfg = []")
  case True
  have "\<forall>ms \<in> set (timeouts cfg start_time es r). ms = - 1" for es r
    using True by (induction es arbitrary: r) (auto simp: poll_timeout_ms_def split: run_poll.splits option.splits bool.splits)
  with True show ?thesis by simp
next
  case False
  with timeouts_bounded [OF False assms(1-3), of r start_time] assms(1,4) show ?thesis by simp
qed

theorem poll_timeouts_exact_witness:
  "list_all (\<lambda>ms. 0 \<le> ms \<and> ms \<le> 60000)
     (timeouts (sample_config\<lparr>metrics_file := ''m''\<rparr>) 0 [sample_pass SIGHUP [], sample_pass SIGTERM []] sample_run)"
  using poll_timeouts_exact [of "sample_config\<lparr>metrics_file := ''m''\<rparr>" 0 "[sample_pass SIGHUP [], sample_pass SIGTERM []]" sample_run 0]
  by (simp add: list_all_iff sample_config_def default_config_def sample_pass_def sample_run_def del: timeouts.simps)

text \<open>C11: the whole life of the daemon: after a successful start and any run -- any connections, reloads that succeed or fail, metrics writes,
  even a failing \<^verbatim>\<open>poll\<close> -- every database that was open at the start was still open at the end of the run; after the destructor no descriptor and no mapping is left, the
  socket is gone, and no other existing file was touched.\<close>

theorem daemon_lifecycle:
  assumes "0 \<le> fd" "live h = []" "\<not> bad_close h" "NUL \<notin> set (socket_path cfg)"
    and "sys_fails sys SysUnlinkDestructor = None" "sys_fails sys SysUnlinkCleanup = None"
    and "init sys env cfg (new_server fs fd h) = (None, s)" "run sys cfg start_time now es s files = Some (code, s1, files')"
    and "s' = destroy_server sys cfg s1"
  shows "code = 0 \<and> (\<forall>d. slot_handle (fst (sv_dbs s)) d \<noteq> None \<longrightarrow> slot_handle (fst (sv_dbs s1)) d \<noteq> None)
    \<and> sv_fds s' = [] \<and> \<not> sv_bad_fd s' \<and> live (snd (sv_dbs s')) = [] \<and> \<not> bad_close (snd (sv_dbs s'))
    \<and> sv_fs s' (socket_path cfg) = None \<and> (\<forall>p. p \<noteq> socket_path cfg \<longrightarrow> fs p \<noteq> None \<longrightarrow> sv_fs s' p = fs p)"
proof -
  let ?r = "\<lparr>rn_server = say (log_info ''nshgeoip ready'') s, rn_next_write = now, rn_files = files\<rparr>"
  let ?slots = "{d. slot_handle (fst (sv_dbs s)) d \<noteq> None}"
  note new = new_server_ok [OF assms(1-3)]
  have "fds_ok s" using tripleD [OF init_fds [of sys env cfg], of "new_server fs fd h"] new assms(7) by simp
  moreover have "fs_inv fs (socket_path cfg) s"
    using tripleD [OF init_fs [OF assms(4), of fs sys env], of "new_server fs fd h"] new(4) assms(7) by simp
  ultimately have start: "run_inv fs (socket_path cfg) ?slots (rn_server ?r)" by (simp add: run_inv_def)
  obtain r where r: "run_loop cfg start_time es ?r = Some r" and c: "code = 0" "s1 = cleanup sys cfg (rn_server r)"
    using assms(8) by (auto simp: run_def split: option.splits)
  from run_inv_loop [OF r start] have i: "fds_ok (rn_server r)" "fs_inv fs (socket_path cfg) (rn_server r)"
    "\<forall>d \<in> ?slots. slot_handle (fst (sv_dbs (rn_server r))) d \<noteq> None" by (simp_all add: run_inv_def)
  have f1: "fds_ok s1" "\<not> sv_socket_created s1" using cleanup_releases [OF i(1)] c(2) by simp_all
  have f2: "fs_inv fs (socket_path cfg) s1" using cleanup_fs [OF i(2) assms(4,6)] c(2) by simp
  have "sv_socket_created (rn_server r)"
    using run_created [OF r] ready_created [OF assms(1,7)] by simp
  then have "sv_fs s1 (socket_path cfg) = None" using cleanup_removes [of "rn_server r" cfg sys] assms(4,6) c(2) by simp
  then have "sv_fs s' (socket_path cfg) = None"
    using f1(2) assms(9) by (simp add: destroy_server_def Let_def)
  with destroy_releases [OF f1(1), of sys cfg] destroy_fs [OF f2 assms(4,5)] i(3) c assms(9) show ?thesis
    by (simp add: cleanup_dbs)
qed

theorem daemon_lifecycle_witness:
  "\<exists>s code s1 files'. init (sample_sys {}) sample_env sample_config (new_server [''/run'' \<mapsto> Directory True] 3 fresh_heap) = (None, s)
    \<and> run (sample_sys {}) sample_config 0 0 [sample_pass SIGTERM [Accepted 8]] s Map.empty = Some (code, s1, files')
    \<and> code = 0 \<and> sv_fs (destroy_server (sample_sys {}) sample_config s1) ''/run'' = Some (Directory True)"
proof -
  obtain s where i: "init (sample_sys {}) sample_env sample_config (new_server [''/run'' \<mapsto> Directory True] 3 fresh_heap) = (None, s)"
    using sample_init by blast
  obtain code s1 files' where r: "run (sample_sys {}) sample_config 0 0 [sample_pass SIGTERM [Accepted 8]] s Map.empty = Some (code, s1, files')"
    using sample_run_ends by blast
  have "sys_fails (sample_sys {}) c = None" for c by (simp add: sample_sys_def)
  with daemon_lifecycle [OF _ _ _ sample_config_path(1) _ _ i r refl] i r show ?thesis
    by (simp add: fresh_heap_def sample_config_def)
qed

end
