(* ===== verification/Main_Cli.thy ===== *)
theory Main_Cli
  imports Server_Run
begin

text \<open>
  The program: \<^verbatim>\<open>src/src/main.cpp\<close>, from the command line to the exit code.

  \<open>parse_args\<close> is the option loop; it ends with the options or with an early exit (code, standard output,
  standard error).  \<open>main_program\<close> then runs one of the three modes: the metadata printer, the health check, which is a client of the
  daemon, or the daemon itself.  What the process asks of the system is the record \<open>main_env\<close>.
\<close>

section \<open>Constants and help\<close>

definition kDefaultConfigPath :: string where
  "kDefaultConfigPath = ''/etc/nshgeoip/nshgeoip.conf''"

definition kDefaultGeoipDirs :: "string list" where
  "kDefaultGeoipDirs = [''/var/lib/GeoIP'', ''/var/lib/crowdsec/data'']"

record ConfigParam =
  param_key :: string
  param_env :: string
  param_desc :: string
  param_default :: string

definition kParams :: "ConfigParam list" where
  "kParams =
     [\<lparr> param_key = ''country_db='', param_env = ''NSHGEOIP_COUNTRY_DB'', param_desc = ''Country MMDB path'', param_default = ''disabled'' \<rparr>,
      \<lparr> param_key = ''asn_db='', param_env = ''NSHGEOIP_ASN_DB'', param_desc = ''ASN MMDB path'', param_default = ''disabled'' \<rparr>,
      \<lparr> param_key = ''city_db='', param_env = ''NSHGEOIP_CITY_DB'', param_desc = ''City MMDB path'', param_default = ''disabled'' \<rparr>,
      \<lparr> param_key = ''socket='', param_env = ''NSHGEOIP_SOCKET'', param_desc = ''UNIX socket path'', param_default = ''/run/nshgeoip/nshgeoip.sock'' \<rparr>,
      \<lparr> param_key = ''socket_mode='', param_env = ''NSHGEOIP_SOCKET_MODE'', param_desc = ''UNIX socket permissions (octal)'', param_default = ''0660'' \<rparr>,
      \<lparr> param_key = ''threads='', param_env = ''NSHGEOIP_THREADS'', param_desc = ''Worker thread pool size (1-256)'', param_default = ''CPU cores, clamped to 4-20'' \<rparr>,
      \<lparr> param_key = ''max_request_bytes='', param_env = ''NSHGEOIP_MAX_REQUEST_BYTES'', param_desc = ''Max request header bytes (256-1048576)'', param_default = ''8192'' \<rparr>,
      \<lparr> param_key = ''debug_log='', param_env = ''NSHGEOIP_DEBUG_LOG'', param_desc = ''Log rejected/malformed requests'', param_default = ''false'' \<rparr>,
      \<lparr> param_key = ''tcp_port='', param_env = ''NSHGEOIP_TCP_PORT'', param_desc = ''Optional TCP listener port (1-65535), 0=disabled'', param_default = ''0'' \<rparr>,
      \<lparr> param_key = ''tcp_address='', param_env = ''NSHGEOIP_TCP_ADDRESS'', param_desc = ''TCP bind address, empty=IPv4+IPv6 loopback'', param_default = ''(loopback)'' \<rparr>,
      \<lparr> param_key = ''metrics_file='', param_env = ''NSHGEOIP_METRICS_FILE'', param_desc = ''Path to periodically write Prometheus metrics to'', param_default = ''disabled'' \<rparr>,
      \<lparr> param_key = ''metrics_interval_seconds='', param_env = ''NSHGEOIP_METRICS_INTERVAL_SECONDS'', param_desc = ''How often to write metrics_file (1-86400)'', param_default = ''60'' \<rparr>]"

definition pad_right :: "nat \<Rightarrow> string \<Rightarrow> string" where
  "pad_right n s = s @ replicate (n - length s) SP"

definition param_row :: "string \<Rightarrow> string \<Rightarrow> string \<Rightarrow> string \<Rightarrow> string" where
  "param_row key env desc dflt = pad_right 27 key @ '' '' @ pad_right 35 env @ '' '' @ pad_right 52 desc @ '' '' @ dflt @ [LF]"

definition text_lines :: "string list \<Rightarrow> string" where
  "text_lines ls = concat (map (\<lambda>l. l @ [LF]) ls)"

definition print_help :: "32 word \<Rightarrow> string \<Rightarrow> string" where
  "print_help cores argv0 =
     text_lines
     [''nshgeoip is a small local GeoIP lookup daemon. It answers'',
      '''GET /lookup?ip=<address>' over a UNIX domain socket (and, optionally,'',
      ''TCP) using MaxMind MMDB databases, for use with NGINX auth_request or'',
      ''any other local client. It also always answers 'GET /health' (a minimal'',
      ''text status by default, or JSON with 'Accept: application/json') and'',
      '''GET /metrics' (Prometheus text format) -- neither has its own on/off'',
      ''switch; restrict access with NGINX (or your firewall) if needed.'',
      [],
      ''Usage: '' @ c_str argv0 @ '' [--config PATH] | --check-db PATH [--format table|json|ini]'',
      ''                | --health-check [--socket PATH | --port PORT] | --version | --help'',
      [],
      ''  --config PATH        Path to config file (default: '' @ c_str kDefaultConfigPath @ '')'',
      ''  --check-db PATH      Print an .mmdb file's own metadata (type, build date/age,'',
      ''                       node count, languages, ...) and exit -- a diagnostic mode,'',
      ''                       independent of any configured country_db/asn_db/city_db'',
      ''  --format FORMAT      table (default), json, or ini -- only with --check-db;'',
      ''                       json/ini use libmaxminddb's own field names (database_type,'',
      ''                       ip_version, node_count, ...) plus build_date/age_days'',
      ''  --health-check       Query a running instance's /health over its UNIX socket (or'',
      ''                       TCP with --port) and exit 0 (HTTP 200) or 1 (anything else) --'',
      ''                       meant for Docker HEALTHCHECK / Kubernetes probes; does not read'',
      ''                       any config file or environment variable'',
      ''  --socket PATH        UNIX socket to check -- only with --health-check'',
      ''                       (default: '' @ c_str (socket_path (default_config cores)) @ '')'',
      ''  --port PORT          Check via TCP 127.0.0.1:PORT instead of a UNIX socket --'',
      ''                       only with --health-check'',
      ''  --version            Print version and exit'',
      ''  --help               Print this help and exit'',
      [],
      ''Every config file key below also has an NSHGEOIP_<KEY> environment'',
      ''variable that overrides it. The config file itself is optional at the'',
      ''default path (but not when --config names a path explicitly), so a'',
      ''container can run on environment variables alone. Precedence:'',
      ''environment > config file > default.'',
      []]
     @ param_row ''CONFIG KEY'' ''ENVIRONMENT VARIABLE'' ''DESCRIPTION'' ''DEFAULT''
     @ concat (map (\<lambda>p. param_row (param_key p) (param_env p) (param_desc p) (param_default p)) kParams)
     @ text_lines
     [[],
      ''Any of country_db/asn_db/city_db left unset (by all of the above) falls'',
      ''back to GeoLite2-{Country,ASN,City}.mmdb under the first of these'',
      ''directories where that file actually exists (checked at startup, and'',
      ''logged when a fallback is used):'']
     @ concat (map (\<lambda>dir. ''  '' @ c_str dir @ [LF]) kDefaultGeoipDirs)
     @ text_lines
     [''country_db's auto-detection is skipped entirely once city_db ends up set'',
      ''(by config or by this same auto-detection) -- a real GeoLite2-City.mmdb'',
      ''already carries country/continent data, so there is nothing a separate'',
      ''Country database would add.'']"

section \<open>Health check\<close>

text \<open>What the client connects to, and the answers of the system: the descriptor of the new socket, error texts, or the bytes of the one
  \<^verbatim>\<open>read\<close> (none: the peer closed).\<close>

datatype health_target = TcpLoopback "16 word" | UnixPath string

record client_io =
  cl_socket :: "string + int"
  cl_connect :: "health_target \<Rightarrow> string option"
  cl_write :: "string \<Rightarrow> string option"
  cl_read :: "string + string"

definition kRequest :: string where
  "kRequest = ''GET /health HTTP/1.1'' @ CRLF @ ''Host: localhost'' @ CRLF @ ''Connection: close'' @ CRLF @ CRLF"

definition health_target :: "string \<Rightarrow> int \<Rightarrow> health_target" where
  "health_target path port = (if port \<noteq> 0 then TcpLoopback (word_of_int port) else UnixPath (c_str path))"

text \<open>The error, if any, and the descriptors the process has open, given those it had before.\<close>

definition check_health :: "string \<Rightarrow> int \<Rightarrow> client_io \<Rightarrow> int list \<Rightarrow> string option \<times> int list" where
  "check_health path port io fds0 =
     (case cl_socket io of
        Inl e \<Rightarrow> (Some (''socket() failed: '' @ e), fds0)
      | Inr fd \<Rightarrow>
          let fds = fd # fds0 in
          if port = 0 \<and> length path \<ge> sizeof_sun_path then (Some (''socket path too long: '' @ path), remove1 fd fds)
          else
            (case cl_connect io (health_target path port) of
               Some e \<Rightarrow>
                 (Some (if port \<noteq> 0 then ''connect to 127.0.0.1:'' @ int_to_string port @ '' failed: '' @ e
                        else ''connect to '' @ path @ '' failed: '' @ e), remove1 fd fds)
             | None \<Rightarrow>
                 (case cl_write io kRequest of
                    Some e \<Rightarrow> (Some (''write failed: '' @ e), remove1 fd fds)
                  | None \<Rightarrow>
                      let fds = remove1 fd fds in
                      (case cl_read io of
                         Inl e \<Rightarrow> (Some (''read failed: '' @ e), fds)
                       | Inr bytes \<Rightarrow>
                           if bytes = [] then (Some ''connection closed with no response'', fds)
                           else
                             let buf = c_str (take 63 bytes) in
                             if take 12 buf \<noteq> ''HTTP/1.1 200'' then
                               (Some (''unexpected response: ''
                                 @ (case find_str CRLF buf of None \<Rightarrow> buf | Some i \<Rightarrow> substr buf 0 i)), fds)
                             else (None, fds)))))"

section \<open>Options\<close>

record cli =
  cli_config_path :: string
  cli_config_explicit :: bool
  cli_check_db :: bool
  cli_check_db_path :: string
  cli_check_db_format :: string
  cli_health_check :: bool
  cli_health_socket :: string
  cli_health_port :: int

definition no_options :: cli where
  "no_options = \<lparr>cli_config_path = kDefaultConfigPath, cli_config_explicit = False, cli_check_db = False,
     cli_check_db_path = [], cli_check_db_format = ''table'', cli_health_check = False, cli_health_socket = [], cli_health_port = 0\<rparr>"

datatype exit = Exit (exit_code: int) (exit_out: string) (exit_err: string)

definition usage_error :: "string \<Rightarrow> exit" where
  "usage_error msg = Exit 2 [] (msg @ [LF])"

fun parse_args :: "32 word \<Rightarrow> string \<Rightarrow> string list \<Rightarrow> cli \<Rightarrow> exit + cli" where
  "parse_args cores argv0 [] c = Inr c"
| "parse_args cores argv0 (arg # rest) c =
     (if arg = ''--version'' then Inl (Exit 0 (''nshgeoip '' @ NSHGEOIP_VERSION @ [LF]) [])
      else if arg = ''--help'' \<or> arg = ''-h'' then Inl (Exit 0 (print_help cores argv0) [])
      else if arg = ''--check-db'' then
        (case rest of
           [] \<Rightarrow> Inl (usage_error ''--check-db requires a path argument'')
         | v # rest' \<Rightarrow> parse_args cores argv0 rest' (c\<lparr>cli_check_db_path := v, cli_check_db := True\<rparr>))
      else if arg = ''--format'' then
        (case rest of
           [] \<Rightarrow> Inl (usage_error ''--format requires a value (table, json, or ini)'')
         | v # rest' \<Rightarrow> parse_args cores argv0 rest' (c\<lparr>cli_check_db_format := v\<rparr>))
      else if arg = ''--config'' then
        (case rest of
           [] \<Rightarrow> Inl (usage_error ''--config requires a path argument'')
         | v # rest' \<Rightarrow> parse_args cores argv0 rest' (c\<lparr>cli_config_path := v, cli_config_explicit := True\<rparr>))
      else if arg = ''--health-check'' then parse_args cores argv0 rest (c\<lparr>cli_health_check := True\<rparr>)
      else if arg = ''--socket'' then
        (case rest of
           [] \<Rightarrow> Inl (usage_error ''--socket requires a path argument'')
         | v # rest' \<Rightarrow> parse_args cores argv0 rest' (c\<lparr>cli_health_socket := v\<rparr>))
      else if arg = ''--port'' then
        (case rest of
           [] \<Rightarrow> Inl (usage_error ''--port requires a value'')
         | v # rest' \<Rightarrow>
             (case parse_port v of
                None \<Rightarrow> Inl (usage_error (''invalid --port value: '' @ v))
              | Some p \<Rightarrow> parse_args cores argv0 rest' (c\<lparr>cli_health_port := p\<rparr>)))
      else Inl (Exit 2 (print_help cores argv0) (''unknown argument: '' @ arg @ [LF])))"

section \<open>The three modes\<close>

record main_env =
  me_cores :: "32 word"
  me_exists :: "string \<Rightarrow> bool"
  me_content :: "string \<Rightarrow> string option"
  me_getenv :: getenv_fun
  me_regular :: "string \<Rightarrow> bool"
  me_server_env :: server_env
  me_open_db :: "string \<Rightarrow> open_answer"
  me_wall :: int
  me_client :: client_io
  me_sys :: sys
  me_fs :: "string \<Rightarrow> fs_obj option"
  me_first_fd :: int
  me_heap :: mmdb_heap
  me_start :: int
  me_now :: int
  me_passes :: "run_env list"
  me_files :: file_system

definition metadata_format :: "string \<Rightarrow> DbMetadataFormat option" where
  "metadata_format s =
     (if s = ''table'' then Some TableFormat else if s = ''json'' then Some JsonFormat
      else if s = ''ini'' then Some IniFormat else None)"

text \<open>\<^verbatim>\<open>--check-db\<close>; \<^const>\<open>None\<close> is the crash of the printers on a missing description.\<close>

definition check_db_mode :: "main_env \<Rightarrow> cli \<Rightarrow> exit option" where
  "check_db_mode me c =
     (case metadata_format (cli_check_db_format c) of
        None \<Rightarrow> Some (Exit 2 [] (''unknown --format value: '' @ cli_check_db_format c @ '' (expected table, json, or ini)'' @ [LF]))
      | Some fmt \<Rightarrow>
          (case fst (print_db_metadata (env_ub (me_server_env me)) (me_wall me)
              (env_lib_version (me_server_env me)) (me_open_db me (cli_check_db_path c)) (cli_check_db_path c) fmt (me_heap me)) of
             Inl e \<Rightarrow> Some (Exit 1 [] (''Error: '' @ c_str e @ [LF]))
           | Inr None \<Rightarrow> None
           | Inr (Some text) \<Rightarrow> Some (Exit 0 text [])))"

definition health_check_mode :: "main_env \<Rightarrow> cli \<Rightarrow> exit" where
  "health_check_mode me c =
     (if cli_health_socket c \<noteq> [] \<and> cli_health_port c \<noteq> 0
      then Exit 2 [] (''--socket and --port are mutually exclusive'' @ [LF])
      else
        let path = (if cli_health_socket c = [] then socket_path (default_config (me_cores me)) else cli_health_socket c) in
        (case fst (check_health path (cli_health_port c) (me_client me) []) of
           Some e \<Rightarrow> Exit 1 [] (''status=fail: '' @ c_str e @ [LF])
         | None \<Rightarrow> Exit 0 (''status=ok'' @ [LF]) []))"

definition or_disabled :: "string \<Rightarrow> string" where
  "or_disabled s = (if s = [] then ''(disabled)'' else s)"

text \<open>The configuration the daemon starts with: the fatal message, or the configuration; and the log so far.\<close>

definition load_settings :: "main_env \<Rightarrow> cli \<Rightarrow> (string + Config) \<times> log_call list" where
  "load_settings me c =
     (let cfg0 = default_config (me_cores me);
          (r1, logs1) =
            (if me_exists me (cli_config_path c) then
               (case load_config (cli_config_path c) (me_content me (cli_config_path c)) cfg0 [] of
                  (Some e, _, _) \<Rightarrow> (Inl (''failed to load config: '' @ e), [log_info (''using config file: '' @ cli_config_path c)])
                | (None, cfg1, warnings) \<Rightarrow>
                    (Inr cfg1, log_info (''using config file: '' @ cli_config_path c) # map log_warn warnings))
             else if cli_config_explicit c then (Inl (''config file not found: '' @ cli_config_path c), [])
             else (Inr cfg0, [log_info (''no config file at '' @ cli_config_path c @ '', using defaults and environment variables'')]))
      in case r1 of
           Inl e \<Rightarrow> (Inl e, logs1)
         | Inr cfg1 \<Rightarrow>
             (case apply_env_overrides (me_getenv me) cfg1 of
                (Some e, _) \<Rightarrow> (Inl (''failed to apply environment variables: '' @ e), logs1)
              | (None, cfg2) \<Rightarrow>
                  (case apply_default_db_paths (me_regular me) kDefaultGeoipDirs cfg2 [] of
                     (cfg3, found_notes) \<Rightarrow> (Inr cfg3, logs1 @ map log_info found_notes))))"

definition settings_log :: "Config \<Rightarrow> log_call list" where
  "settings_log cfg =
     [log_info (''country_db = '' @ or_disabled (country_db cfg)), log_info (''asn_db = '' @ or_disabled (asn_db cfg)),
      log_info (''city_db = '' @ or_disabled (city_db cfg)), log_info (''socket = '' @ socket_path cfg),
      log_info (''threads = '' @ int_to_string (threads cfg)),
      log_info (''tcp_port = '' @ (if tcp_port cfg \<noteq> 0 then int_to_string (tcp_port cfg) else ''(disabled)''))]
     @ (if tcp_port cfg \<noteq> 0
        then [log_info (''tcp_address = '' @ (if tcp_address cfg = [] then ''(loopback)'' else tcp_address cfg))] else [])
     @ [log_info (''metrics_file = '' @ or_disabled (metrics_file cfg))]
     @ (if metrics_file cfg \<noteq> []
        then [log_info (''metrics_interval_seconds = '' @ int_to_string (metrics_interval_seconds cfg))] else [])"

record daemon_result =
  dr_code :: int
  dr_log :: "log_call list"
  dr_server :: "server option"

text \<open>The daemon; \<^const>\<open>None\<close> if it is still running when the answers of the system end.\<close>

definition daemon_mode :: "main_env \<Rightarrow> cli \<Rightarrow> daemon_result option" where
  "daemon_mode me c =
     (let start = [log_info (''nshgeoip '' @ NSHGEOIP_VERSION @ '' starting''),
            log_info (''libmaxminddb version: '' @ env_lib_version (me_server_env me))];
          (r, logs) = load_settings me c
      in case r of
           Inl e \<Rightarrow> Some \<lparr>dr_code = 1, dr_log = start @ logs @ [log_fatal e], dr_server = None\<rparr>
         | Inr cfg \<Rightarrow>
             let logs1 = start @ logs @ settings_log cfg in
             (case init (me_sys me) (me_server_env me) cfg (new_server (me_fs me) (me_first_fd me) (me_heap me)) of
                (Some e, s) \<Rightarrow>
                  Some \<lparr>dr_code = 1, dr_log = logs1 @ sv_log s @ [log_fatal (''startup failed: '' @ e)],
                    dr_server = Some (destroy_server (me_sys me) cfg s)\<rparr>
              | (None, s) \<Rightarrow>
                  (case run (me_sys me) cfg (me_start me) (me_now me) (me_passes me) s (me_files me) of
                     None \<Rightarrow> None
                   | Some (code, s1, _) \<Rightarrow>
                       Some \<lparr>dr_code = code, dr_log = logs1 @ sv_log s1, dr_server = Some (destroy_server (me_sys me) cfg s1)\<rparr>)))"

datatype outcome_of_main = Exits exit | Daemon daemon_result | Crash | StillRunning

definition main_program :: "main_env \<Rightarrow> string \<Rightarrow> string list \<Rightarrow> outcome_of_main" where
  "main_program me argv0 args =
     (case parse_args (me_cores me) argv0 args no_options of
        Inl e \<Rightarrow> Exits e
      | Inr c \<Rightarrow>
          if cli_check_db c then (case check_db_mode me c of None \<Rightarrow> Crash | Some e \<Rightarrow> Exits e)
          else if \<not> cli_health_check c \<and> (cli_health_socket c \<noteq> [] \<or> cli_health_port c \<noteq> 0)
          then Exits (usage_error ''--socket and --port only apply together with --health-check'')
          else if cli_health_check c then Exits (health_check_mode me c)
          else (case daemon_mode me c of None \<Rightarrow> StillRunning | Some d \<Rightarrow> Daemon d))"

section \<open>The health check as a client of the daemon\<close>

lemma take_c_str_prefix:
  assumes "NUL \<notin> set lit" "length lit \<le> n"
  shows "take (length lit) (c_str (take n s)) = lit \<longleftrightarrow> prefix lit s"
proof
  assume t: "take (length lit) (c_str (take n s)) = lit"
  have "prefix (c_str (take n s)) (take n s)" unfolding c_str_def by (rule takeWhile_is_prefix)
  then have "prefix lit (take n s)" using t take_is_prefix prefix_order.trans by metis
  then show "prefix lit s" using take_is_prefix prefix_order.trans by blast
next
  assume "prefix lit s"
  then obtain r where "s = lit @ r" by (auto simp: prefix_def)
  with assms have "take n s = lit @ take (n - length lit) r" by simp
  moreover have "c_str (lit @ x) = lit @ c_str x" for x
    using assms(1) unfolding c_str_def by (subst takeWhile_append2) auto
  ultimately show "take (length lit) (c_str (take n s)) = lit" by simp
qed

lemma health_request: "parse_http_request kRequest = Some \<lparr>req_method = ''GET'', req_path = ''/health'', req_query = [], req_accept = []\<rparr>"
  by code_simp

lemma health_response:
  "fst (handle_request env s dbs kRequest m) =
     (empty_response\<lparr>resp_status := 200, resp_format := Text, resp_body := ''status=ok'' @ [LF]\<rparr>, False)"
proof -
  have "\<not> accept_wants_json []" by code_simp
  then show ?thesis using handled_parsed [OF health_request] by (simp add: serve_health_def Let_def)
qed

section \<open>Command lines\<close>

text \<open>The options of the help text, each in its documented form; a command line is any sequence of them.\<close>

datatype cli_option =
    WithConfig string | WithCheckDb string | WithFormat string | WithHealthCheck | WithSocket string | WithPort nat

fun option_words :: "cli_option \<Rightarrow> string list" where
  "option_words (WithConfig path) = [''--config'', path]"
| "option_words (WithCheckDb path) = [''--check-db'', path]"
| "option_words (WithFormat fmt) = [''--format'', fmt]"
| "option_words WithHealthCheck = [''--health-check'']"
| "option_words (WithSocket path) = [''--socket'', path]"
| "option_words (WithPort n) = [''--port'', nat_to_string n]"

text \<open>The last value given, or the default.\<close>

definition last_given :: "(cli_option \<Rightarrow> 'a option) \<Rightarrow> 'a \<Rightarrow> cli_option list \<Rightarrow> 'a" where
  "last_given f dflt os = last (dflt # List.map_filter f os)"

fun config_value :: "cli_option \<Rightarrow> string option" where
  "config_value (WithConfig path) = Some path"
| "config_value _ = None"

fun check_db_value :: "cli_option \<Rightarrow> string option" where
  "check_db_value (WithCheckDb path) = Some path"
| "check_db_value _ = None"

fun format_value :: "cli_option \<Rightarrow> string option" where
  "format_value (WithFormat fmt) = Some fmt"
| "format_value _ = None"

fun socket_value :: "cli_option \<Rightarrow> string option" where
  "socket_value (WithSocket path) = Some path"
| "socket_value _ = None"

fun port_value :: "cli_option \<Rightarrow> int option" where
  "port_value (WithPort n) = Some (int n)"
| "port_value _ = None"

lemma last_given_simps [simp]:
  "last_given f d [] = d"
  "last_given f d (x # os) = last_given f (case f x of None \<Rightarrow> d | Some v \<Rightarrow> v) os"
  by (auto simp: last_given_def List.map_filter_def split: option.split)

lemma parse_port_print: "1 \<le> p \<Longrightarrow> p \<le> 65535 \<Longrightarrow> parse_port (nat_to_string (nat p)) = Some p"
  using parse_ranged_nat_base [of 10 1 "nat p" 65535] by (simp add: parse_port_def nat_to_string_def)

lemma parse_args_options:
  assumes "\<forall>n. WithPort n \<in> set os \<longrightarrow> 1 \<le> n \<and> n \<le> 65535"
  shows "parse_args cores argv0 (concat (map option_words os)) c = Inr
    \<lparr>cli_config_path = last_given config_value (cli_config_path c) os,
     cli_config_explicit = (cli_config_explicit c \<or> (\<exists>path. WithConfig path \<in> set os)),
     cli_check_db = (cli_check_db c \<or> (\<exists>path. WithCheckDb path \<in> set os)),
     cli_check_db_path = last_given check_db_value (cli_check_db_path c) os,
     cli_check_db_format = last_given format_value (cli_check_db_format c) os,
     cli_health_check = (cli_health_check c \<or> WithHealthCheck \<in> set os),
     cli_health_socket = last_given socket_value (cli_health_socket c) os,
     cli_health_port = last_given port_value (cli_health_port c) os\<rparr>"
  using assms
proof (induction os arbitrary: c)
  case (Cons x os)
  have "parse_port (nat_to_string n) = Some (int n)" if "x = WithPort n" for n
    using Cons.prems that parse_port_print [of "int n"] by simp
  with Cons show ?case by (cases x) (simp_all add: ex_disj_distrib)
qed simp

section \<open>Settings\<close>

lemma load_settings_valid:
  assumes "load_settings me c = (Inr cfg, logs)"
  shows "config_valid cfg"
proof -
  have default: "config_valid (default_config (me_cores me))" by (rule default_config_valid)
  obtain cfg1 where c: "config_valid cfg1" "fst (apply_env_overrides (me_getenv me) cfg1) = None"
    "cfg = fst (apply_default_db_paths (me_regular me) kDefaultGeoipDirs (snd (apply_env_overrides (me_getenv me) cfg1)) [])"
    using assms default load_config_valid [OF default, of "cli_config_path c" "me_content me (cli_config_path c)" "[]"]
    by (auto simp: load_settings_def Let_def case_prod_unfold split: sum.splits option.splits if_splits)
  from c(2) have "apply_env_overrides (me_getenv me) cfg1 = (None, snd (apply_env_overrides (me_getenv me) cfg1))"
    by (metis prod.collapse)
  then have "snd (apply_env_overrides (me_getenv me) cfg1) = env_config (me_getenv me) cfg1"
    by (simp only: apply_env_overrides_closed)
  with c show ?thesis by (simp add: env_config_valid apply_default_db_paths_valid)
qed

lemma init_ends_ok:
  assumes "0 \<le> fd" "live h = []" "\<not> bad_close h" "init sys env cfg (new_server fs fd h) = (e, s)"
  shows "fds_ok s"
  using tripleD [OF init_fds [of sys env cfg], of "new_server fs fd h"] new_server_ok [OF assms(1-3)] assms(4) by simp

lemma run_ends_ok:
  assumes "fds_ok s" "run sys cfg start_time now es s files = Some (code, s1, files')"
  shows "code = 0 \<and> fds_ok s1"
proof -
  obtain r where r: "run_loop cfg start_time es \<lparr>rn_server = say (log_info ''nshgeoip ready'') s, rn_next_write = now, rn_files = files\<rparr> = Some r"
    and c: "code = 0" "s1 = cleanup sys cfg (rn_server r)"
    using assms(2) by (auto simp: run_def split: option.splits)
  from run_inv_loop [OF r, of "sv_fs s" "socket_path cfg" "{}"] assms(1) have "fds_ok (rn_server r)"
    by (simp add: run_inv_def fs_inv_def)
  with cleanup_releases c show ?thesis by blast
qed

lemma run_last_log:
  "run sys cfg start_time now es s files = Some (code, s1, files') \<Longrightarrow> \<exists>l. sv_log s1 = l @ [log_info ''shutdown complete'']"
  by (auto simp: run_def cleanup_def Let_def say_def split: option.splits)

text \<open>The default the help text gives for the port cannot be written down in a file.\<close>

lemma tcp_port_zero_rejected: "apply_key ''tcp_port'' ''0'' cfg = Rejected ''invalid tcp_port (expected 1-65535)''"
proof -
  have "parse_port ''0'' = None" by code_simp
  then show ?thesis by (simp add: apply_key_def accept_value_def)
qed

text \<open>A comment behind a value, as in the documentation's example, is part of the value.\<close>

lemma readme_tcp_example_rejected:
  "apply_key ''tcp_port'' ''8080        # 0 or unset = disabled (default)'' cfg = Rejected ''invalid tcp_port (expected 1-65535)''"
proof -
  have "parse_port ''8080        # 0 or unset = disabled (default)'' = None" by code_simp
  then show ?thesis by (simp add: apply_key_def accept_value_def)
qed

text \<open>What the health check looks for in the bytes it has read.\<close>

lemma status_200_length: "length ''HTTP/1.1 200'' = 12"
  by simp

lemma status_200_prefix: "take 12 (c_str (take 63 bytes)) = ''HTTP/1.1 200'' \<longleftrightarrow> prefix ''HTTP/1.1 200'' bytes"
  by (rule take_c_str_prefix [of "''HTTP/1.1 200''" 63 bytes, unfolded status_200_length]) simp_all

section \<open>Properties\<close>

text \<open>The health check succeeds exactly if it could connect to the port on the loopback address, or to the socket path when no port is
  given, send the request, and the first bytes it got back are the status line of a 200 response; it leaves the open descriptors as they were.\<close>

theorem check_health_exact:
  "(fst (check_health path port io fds) = None \<longleftrightarrow>
      (\<exists>fd. cl_socket io = Inr fd) \<and> (port \<noteq> 0 \<or> length path < 108)
      \<and> cl_connect io (if port \<noteq> 0 then TcpLoopback (word_of_int port) else UnixPath (c_str path)) = None
      \<and> cl_write io kRequest = None
      \<and> (\<exists>bytes. cl_read io = Inr bytes \<and> prefix ''HTTP/1.1 200'' bytes))
   \<and> snd (check_health path port io fds) = fds"
  by (auto simp: check_health_def health_target_def sizeof_sun_path_def Let_def status_200_prefix split: option.splits sum.splits)

definition sample_client :: "string \<Rightarrow> client_io" where
  "sample_client bytes = \<lparr>cl_socket = Inr 3, cl_connect = (\<lambda>t. if t = UnixPath ''/s'' then None else Some ''Connection refused''),
     cl_write = (\<lambda>_. None), cl_read = Inr bytes\<rparr>"

theorem check_health_exact_witness:
  "fst (check_health ''/s'' 0 (sample_client ''HTTP/1.1 200 OK'') []) = None
   \<and> fst (check_health ''/t'' 0 (sample_client ''HTTP/1.1 200 OK'') []) \<noteq> None"
  using check_health_exact [of "''/s''" 0 "sample_client ''HTTP/1.1 200 OK''" "[]"]
    check_health_exact [of "''/t''" 0 "sample_client ''HTTP/1.1 200 OK''" "[]"]
  by (simp add: sample_client_def)

text \<open>C38: the health check and the daemon agree: whatever its databases and counters, the daemon answers the request the health check
  sends with status 200 and the one-line body, and the check accepts that answer as soon as its first twelve bytes have arrived.\<close>

theorem health_check_accepts_daemon:
  assumes "fst (handle_request env s dbs kRequest m) = (resp, is_head)" "12 \<le> n" "n \<le> 63"
    and "port \<noteq> 0 \<or> length path < 108" "cl_socket io = Inr fd" "cl_connect io (health_target path port) = None" "cl_write io kRequest = None"
    and "cl_read io = Inr (take n (build_http_response resp (\<not> is_head)))"
  shows "resp_status resp = 200 \<and> resp_body resp = ''status=ok'' @ [LF] \<and> check_health path port io fds = (None, fds)"
proof -
  have r: "resp = empty_response\<lparr>resp_status := 200, resp_format := Text, resp_body := ''status=ok'' @ [LF]\<rparr>" "\<not> is_head"
    using assms(1) health_response [of env s dbs m] by simp_all
  have "int_to_string 200 = ''200''" by code_simp
  then obtain rest where "build_http_response resp (\<not> is_head) = ''HTTP/1.1 200'' @ rest"
    using r by (simp add: build_http_response_def)
  then have b: "take n (build_http_response resp (\<not> is_head)) = ''HTTP/1.1 200'' @ take (n - 12) rest"
    using assms(2) take_append [of n "''HTTP/1.1 200''" rest] take_all [of "''HTTP/1.1 200''" n]
    by (simp only: status_200_length)
  have "take 12 (c_str (take 63 (take n (build_http_response resp (\<not> is_head))))) = ''HTTP/1.1 200''"
    unfolding status_200_prefix b by (rule prefixI [OF refl])
  with b show ?thesis using r assms(4-8) by (auto simp: check_health_def Let_def sizeof_sun_path_def)
qed

theorem health_check_accepts_daemon_witness:
  "\<exists>resp is_head. fst (handle_request sample_env 0 country_only kRequest zero_metrics) = (resp, is_head) \<and> resp_status resp = 200
    \<and> check_health ''/s'' 0 (sample_client (take 20 (build_http_response resp (\<not> is_head)))) [] = (None, [])"
proof -
  obtain resp is_head where h: "fst (handle_request sample_env 0 country_only kRequest zero_metrics) = (resp, is_head)" by (metis surj_pair)
  have "resp_status resp = 200 \<and> resp_body resp = ''status=ok'' @ [LF]
      \<and> check_health ''/s'' 0 (sample_client (take 20 (build_http_response resp (\<not> is_head)))) [] = (None, [])"
    by (rule health_check_accepts_daemon [OF h, of 20 0 "''/s''" _ 3]) (simp_all add: sample_client_def health_target_def)
  with h show ?thesis by blast
qed



text \<open>C28: the daemon never runs on a configuration out of range: whether a file exists or not, and whatever it and the environment contain, the
  configuration handed to the server is within the documented ranges.\<close>

theorem daemon_config_valid:
  assumes "load_settings me c = (Inr cfg, logs)"
  shows "1 \<le> threads cfg \<and> threads cfg \<le> 256 \<and> 256 \<le> max_request_bytes cfg \<and> max_request_bytes cfg \<le> 1048576
    \<and> socket_mode cfg \<le> 4095 \<and> 0 \<le> tcp_port cfg \<and> tcp_port cfg \<le> 65535
    \<and> 1 \<le> metrics_interval_seconds cfg \<and> metrics_interval_seconds cfg \<le> 86400"
  using load_settings_valid [OF assms] by (simp add: config_valid_def)

definition sample_main :: main_env where
  "sample_main = \<lparr>me_cores = 4, me_exists = (\<lambda>_. False), me_content = (\<lambda>_. None), me_getenv = Map.empty, me_regular = (\<lambda>_. False),
     me_server_env = sample_env, me_open_db = (\<lambda>_. Inr sample_metadata), me_wall = 0,
     me_client = sample_client [],
     me_sys = sample_sys {}, me_fs = Map.empty, me_first_fd = 3, me_heap = fresh_heap, me_start = 0, me_now = 0, me_passes = [],
     me_files = Map.empty\<rparr>"

theorem daemon_config_valid_witness:
  "\<exists>cfg logs. load_settings sample_main no_options = (Inr cfg, logs) \<and> 1 \<le> threads cfg \<and> threads cfg \<le> 256"
proof -
  have "env_accepted Map.empty" by (simp add: env_accepted_def env_checked_def)
  then have "apply_env_overrides Map.empty cfg = (None, env_config Map.empty cfg)" for cfg by (simp add: apply_env_overrides_closed)
  then obtain cfg logs where l: "load_settings sample_main no_options = (Inr cfg, logs)"
    by (simp add: load_settings_def sample_main_def no_options_def case_prod_unfold Let_def)
  from daemon_config_valid [OF l] l show ?thesis by blast
qed

text \<open>C29: however the daemon ends -- unreadable configuration, failed start, or a signal -- the exit code is 0 or 1, it is 1 exactly if a fatal message was the last
  thing logged, and when the process ends every descriptor and every database mapping of the server has been released, none of them twice.\<close>

theorem main_releases_everything:
  assumes "main_program me argv0 args = Daemon d" "0 \<le> me_first_fd me" "live (me_heap me) = []" "\<not> bad_close (me_heap me)"
  shows "dr_code d \<in> {0, 1} \<and> (dr_code d = 1 \<longleftrightarrow> fst (last (dr_log d)) = Fatal)
    \<and> (case dr_server d of None \<Rightarrow> dr_code d = 1
       | Some s \<Rightarrow> sv_fds s = [] \<and> \<not> sv_bad_fd s \<and> live (snd (sv_dbs s)) = [] \<and> \<not> bad_close (snd (sv_dbs s)))"
proof -
  obtain c where d: "daemon_mode me c = Some d"
    using assms(1) by (auto simp: main_program_def split: sum.splits if_splits option.splits)
  show ?thesis
  proof (cases "fst (load_settings me c)")
    case (Inl e)
    with d show ?thesis by (auto simp: daemon_mode_def Let_def case_prod_unfold log_fatal_def)
  next
    case (Inr cfg)
    obtain e s where i: "init (me_sys me) (me_server_env me) cfg (new_server (me_fs me) (me_first_fd me) (me_heap me)) = (e, s)"
      by (metis surj_pair)
    have s: "fds_ok s" by (rule init_ends_ok [OF assms(2-4) i])
    show ?thesis
    proof (cases e)
      case (Some err)
      with d Inr i destroy_releases [OF s] show ?thesis by (auto simp: daemon_mode_def Let_def case_prod_unfold log_fatal_def)
    next
      case None
      then obtain code s1 files' where r: "run (me_sys me) cfg (me_start me) (me_now me) (me_passes me) s (me_files me) = Some (code, s1, files')"
        and d': "dr_code d = code" "dr_server d = Some (destroy_server (me_sys me) cfg s1)"
          "\<exists>logs. dr_log d = logs @ sv_log s1"
        using d Inr i by (auto simp: daemon_mode_def Let_def case_prod_unfold split: option.splits)
      from run_ends_ok [OF s r] have "code = 0" "fds_ok s1" by simp_all
      moreover have "fst (last (dr_log d)) = Info" using d'(3) run_last_log [OF r] by (auto simp: log_info_def)
      ultimately show ?thesis using d' destroy_releases by simp
    qed
  qed
qed

theorem main_releases_everything_witness:
  "\<exists>d. main_program sample_main ''nshgeoip'' [''--config'', ''missing''] = Daemon d \<and> dr_code d = 1 \<and> fst (last (dr_log d)) = Fatal"
proof -
  obtain d where d: "main_program sample_main ''nshgeoip'' [''--config'', ''missing''] = Daemon d"
    by (simp add: main_program_def no_options_def daemon_mode_def load_settings_def sample_main_def Let_def)
  then have "dr_code d = 1"
    by (auto simp: main_program_def no_options_def daemon_mode_def load_settings_def sample_main_def Let_def)
  with d main_releases_everything [OF d] show ?thesis by (auto simp: sample_main_def fresh_heap_def)
qed

definition known_keys :: "string list" where
  "known_keys = [''country_db'', ''asn_db'', ''city_db'', ''socket'', ''socket_mode'', ''threads'', ''max_request_bytes'', ''debug_log'',
     ''tcp_port'', ''tcp_address'', ''metrics_file'', ''metrics_interval_seconds'']"

lemma table_keys: "map param_key kParams = map (\<lambda>k. k @ ''='') known_keys"
  by (simp add: kParams_def known_keys_def)

text \<open>The table in the help text is complete and correct: the keys the configuration reader knows are exactly the keys the table lists, and for
  every row the environment variable is the upper-case key behind the common prefix.\<close>

theorem help_lists_every_key:
  "(apply_key key value cfg \<noteq> UnknownKey \<longleftrightarrow> key @ ''='' \<in> set (map param_key kParams))
   \<and> list_all (\<lambda>p. map tolower (param_env p) @ ''='' = ''nshgeoip_'' @ param_key p) kParams"
proof -
  have "accept_value p msg upd \<noteq> UnknownKey" for p :: "int option" and msg upd
    by (simp add: accept_value_def split: option.split)
  moreover have "accept_value p msg upd \<noteq> UnknownKey" for p :: "bool option" and msg upd
    by (simp add: accept_value_def split: option.split)
  ultimately have known: "apply_key key value cfg \<noteq> UnknownKey \<longleftrightarrow> key \<in> set known_keys"
    by (simp add: apply_key_def known_keys_def)
  have "apply_key key value cfg \<noteq> UnknownKey \<longleftrightarrow> key @ ''='' \<in> set (map param_key kParams)"
    unfolding known table_keys by auto
  moreover have "list_all (\<lambda>p. map tolower (param_env p) @ ''='' = ''nshgeoip_'' @ param_key p) kParams"
    by (simp add: kParams_def tolower_def isupper_def)
  ultimately show ?thesis by blast
qed

end
