(* ===== verification/Spec2Isabelle.thy ===== *)
theory Spec2Isabelle
  imports Nsh_Prelude Text_Util Http_Request Ip_Addr Config Http_Response Doubles Decimal_Spec Json_Spec Db_Metadata Geoip Metrics Thread_Pool Log
    Server_Response Server_Core Server_Setup Server_Run Main_Cli
begin

text \<open>
  \<^bold>\<open>nshgeoip\<close>: a verification development for the GeoIP lookup daemon.

  \<^bold>\<open>The program.\<close>  \<^verbatim>\<open>nshgeoip\<close> answers \<^verbatim>\<open>GET /lookup?ip=...\<close>, \<^verbatim>\<open>/health\<close> and \<^verbatim>\<open>/metrics\<close> over a
  unix socket and, optionally, TCP, from MaxMind database files.  \<^verbatim>\<open>main\<close> reads the command line and the configuration and runs a
  \<^verbatim>\<open>Server\<close>.  Its main thread accepts connections and hands the descriptors to a pool of worker threads; it also reloads the databases on
  SIGHUP, writes the metrics file at intervals, and stops on SIGTERM or SIGINT.  A worker reads one request, looks the address up, sends
  one response and closes the connection.  Workers and main thread share the database handles (under a reader-writer lock), the
  counters (atomics) and the queue (under a mutex with a condition variable).

  \<^bold>\<open>Theories and sources\<close> (all sources under \<^verbatim>\<open>src/src/\<close>).

  \<^item> \<open>Nsh_Prelude\<close>: bytes, C++ string searches and substrings, decimal and octal printing, and the two locales for transition
    systems, \<open>invariant_system\<close> (an invariant kept by every step) and \<open>terminating_system\<close> (with a measure that every step decreases).
  \<^item> \<open>Text_Util\<close>: \<^verbatim>\<open>text_util.cpp\<close>.  The locale \<open>escaped_literal\<close> is the contract of an escaping function with a reader; it is
    interpreted for JSON strings here and for Prometheus label values in \<open>Metrics\<close>.
  \<^item> \<open>Http_Request\<close>: the reading half of \<^verbatim>\<open>http.cpp\<close> -- \<^verbatim>\<open>percent_decode\<close>, \<^verbatim>\<open>read_http_head\<close>, \<^verbatim>\<open>parse_http_request\<close>,
    \<^verbatim>\<open>find_query_param\<close>, \<^verbatim>\<open>negotiate_format\<close>.
  \<^item> \<open>Http_Response\<close>: the writing half -- \<^verbatim>\<open>build_http_response\<close>, \<^verbatim>\<open>make_error_response\<close> -- with a response reader as specification.
  \<^item> \<open>Ip_Addr\<close>: \<^verbatim>\<open>ip_addr.cpp\<close>; \<^verbatim>\<open>inet_pton\<close> is a parameter.
  \<^item> \<open>Config\<close>: \<^verbatim>\<open>config.cpp\<close> -- defaults, file, environment, auto-detection of databases.  The locale \<open>setting\<close> is the contract of one
    configuration key (printing and reading back); it is interpreted for all twelve keys.
  \<^item> \<open>Doubles\<close>, \<open>Decimal_Spec\<close>, \<open>Json_Spec\<close>: IEEE doubles as exact values with rounding and their decimal printing; a reader of decimal
    numbers, with the theorem that what \<^verbatim>\<open>setprecision(9)\<close> prints is read back to nine significant digits; and a JSON reader as
    specification of every JSON body.
  \<^item> \<open>Db_Metadata\<close>, \<open>Geoip\<close>: \<^verbatim>\<open>geoip.cpp\<close> -- metadata and its three printers; opening, reloading, looking up; and the
    interleaving of lookups and reloads under the lock as the step relation \<open>lock_step\<close>.
  \<^item> \<open>Metrics\<close>: \<^verbatim>\<open>metrics.cpp\<close>, with counters as 64-bit words.
  \<^item> \<open>Thread_Pool\<close>: \<^verbatim>\<open>thread_pool.cpp\<close> as the step relations \<open>worker_step\<close> and \<open>pool_step\<close>, one step per critical section,
    notification, handler call or spurious wake-up.
  \<^item> \<open>Log\<close>: \<^verbatim>\<open>log.h\<close>.
  \<^item> \<open>Server_Response\<close>, \<open>Server_Core\<close>: the file-local helpers of \<^verbatim>\<open>server.cpp\<close>; \<^verbatim>\<open>handle_connection\<close>, \<^verbatim>\<open>reload_databases\<close>,
    \<^verbatim>\<open>write_metrics_file\<close>.  The locale \<open>reloadable\<close> is the contract of one database slot under reload, interpreted for the three slots.
  \<^item> \<open>Server_Setup\<close>: \<^verbatim>\<open>Server::init\<close> with all its steps, \<^verbatim>\<open>cleanup\<close> and the destructor, over a record of the server's members, the open
    descriptors and the files.
  \<^item> \<open>Server_Run\<close>: \<^verbatim>\<open>Server::run\<close>.
  \<^item> \<open>Main_Cli\<close>: \<^verbatim>\<open>main.cpp\<close>.

  \<^bold>\<open>State, effects and the world outside.\<close>  A C++ object is a record, an operation maps the old record to the new one, and a
  \<^verbatim>\<open>bool\<close> with an \<^verbatim>\<open>err\<close> out-parameter is an option or sum of the error text.  What a function asks of the system is an argument: a
  function (\<^verbatim>\<open>inet_pton\<close>, \<^verbatim>\<open>getenv\<close>, libmaxminddb), a record of failures (which system call of the start fails, and how), or, for
  loops, a list with the answers of the successive calls (\<^verbatim>\<open>poll\<close>, \<^verbatim>\<open>recv\<close>, \<^verbatim>\<open>write\<close>, \<^verbatim>\<open>accept4\<close>, the clock).
  Descriptors and database mappings are tracked explicitly, so that leaks and double closes can be stated.

  \<^bold>\<open>What is shown.\<close>

  \<^item> \<^emph>\<open>Requests\<close>: parsing inverts printing for every well-formed request; the result does not depend on how the bytes arrive; accepted
    requests are well formed; reading ends under any behaviour of the peer.
  \<^item> \<^emph>\<open>Responses\<close>: a client reads back status, headers and body; JSON, INI, Prometheus and health bodies contain exactly the values --
    finite coordinates to nine significant digits, texts of the INI body without control bytes; no value can forge a line, a header or a quote.
  \<^item> \<^emph>\<open>Connections\<close>: from the bytes of a lookup request to the bytes of its response, \<open>handle_connection\<close> refines the specification
    in every case (entry found, not found, database failing; JSON or text); every connection ends with its descriptor closed exactly once; the
    status is decided exactly; the bytes sent for HEAD are those for GET without Content-Type and body; the counters are the same under every
    interleaving of the workers; the metrics file is replaced in one step, though possibly by a truncated text.
  \<^item> \<^emph>\<open>Databases\<close>: a lookup returns exactly the fields of the responsible database; no reader ever touches an unmapped database; no mapping leaks;
    a failed reload keeps the old one.
  \<^item> \<^emph>\<open>Pool\<close>: each connection is handled exactly once, no wake-up is lost, shutdown drains the queue in a bounded number of steps.
  \<^item> \<^emph>\<open>Configuration\<close>: round trip, precedence of the environment, line and text of the first error, ranges.  A port of 0, which the
    documentation allows and the code refuses, is left out of the statements on errors and recorded as a finding.
  \<^item> \<^emph>\<open>Life cycle\<close>: a failing start leaves nothing behind; it does not take the socket of a running instance if the path fits into a
    socket address and the probe's own system calls work; a successful start listens on exactly the configured addresses; a stop signal ends the run; every accepted connection is handled before the end; whatever happens, descriptors, mappings and the
    socket are released once.
  \<^item> \<^emph>\<open>Command line\<close>: every sequence of documented options is read as documented, the health check agrees with the daemon, and the exit code tells fatal errors.

  \<^bold>\<open>Bounds and fuel.\<close>  \<open>read_head_loop\<close>, \<open>write_all\<close>, \<open>accept_loop\<close> and \<open>run_loop\<close> recurse over the list of the system's
  answers and give \<^const>\<open>None\<close> when it runs out.  That they return is proved, not assumed: reading ends with the first answer whose clock has reached the
  deadline, a connection ends once its peer has taken the answer or gone away, and the main loop ends at the first stop signal or \<^verbatim>\<open>poll\<close> error.
  All other recursion is structural or has a measure.  Counters are 64-bit words and wrap; the timeout of \<^verbatim>\<open>poll\<close> is narrowed to 32 bits as in the
  code; ages are IEEE doubles.

  \<^bold>\<open>Not modelled.\<close>  The contents of database files and libmaxminddb's search (parameters of \<open>lookup\<close>); undefined behaviour where
  the code has it, which is an arbitrary value or an explicit crash (negative ages; a missing description); real time inside the kernel
  (timeouts are answers of the system); memory exhaustion and exceptions of the standard library; the memory model of the
  unlocked reads of the \<^verbatim>\<open>*_open_\<close> flags; \<^verbatim>\<open>signal(SIGPIPE, SIG_IGN)\<close>, whose effect -- a failing \<^verbatim>\<open>write\<close> instead of a
  signal -- is the way failing writes are modelled; the linker shim \<^verbatim>\<open>docker/fortify_shim.cpp\<close>, the unit tests, scripts, container and
  build files.
\<close>

end
